(* ===== verification/Prelude.thy ===== *)
theory Prelude
  imports Main "HOL-Library.AList" "HOL-Library.Char_ord" "HOL-Library.List_Lexorder"
    "HOL-Library.Multiset"
begin

text \<open>
  Shared ground of the development: the collections of rules the component theories fill,
  Go's error values and the few formatting verbs the controllers use, Go maps as association
  lists compared by lookup, and the list lemmas that more than one component needs.

  Strings are byte strings (\<open>char list\<close>), ordered byte by byte as Go orders them.
  \<open>go_quote\<close> is exact on ASCII text; bytes from 128 up pass through it unescaped.
\<close>

named_theorems io_iff \<open>when a computation of the model returns a value\<close>
named_theorems effects \<open>rules that bound the calls a computation makes\<close>

section \<open>Go errors\<close>

text \<open>
  An \<open>error\<close> of the source is the API server's status error (with the reason its helpers
  test), an error of the COSI state (with the class its helpers test), the sentinel
  \<open>ErrClusterOwnershipConflict\<close>, a message made by \<open>fmt.Errorf\<close> without \<open>%w\<close>, or a message
  that wraps another error: text before the \<open>%w\<close>, the cause, text after it. \<open>Panic\<close> marks the
  two places where Go would panic (an index or slice out of range, a nil pointer); lemmas of the
  components show that they are not reached.
\<close>

datatype api_reason = NotFound | AlreadyExists | OtherReason

datatype cosi_class = ResourceNotFound | ResourceConflict | OtherClass

datatype goerror =
    ApiError api_reason string
  | CosiError cosi_class string
  | ErrClusterOwnershipConflict
  | Errorf string
  | Wrapf string goerror string
  | Panic string

primrec err_msg :: "goerror \<Rightarrow> string" where
  "err_msg (ApiError r m) = m"
| "err_msg (CosiError c m) = m"
| "err_msg ErrClusterOwnershipConflict = ''omni cluster ownership conflict''"
| "err_msg (Errorf m) = m"
| "err_msg (Wrapf p e s) = p @ err_msg e @ s"
| "err_msg (Panic m) = m"

primrec err_root :: "goerror \<Rightarrow> goerror" where
  "err_root (ApiError r m) = ApiError r m"
| "err_root (CosiError c m) = CosiError c m"
| "err_root ErrClusterOwnershipConflict = ErrClusterOwnershipConflict"
| "err_root (Errorf m) = Errorf m"
| "err_root (Wrapf p e s) = err_root e"
| "err_root (Panic m) = Panic m"

fun IsNotFound :: "goerror \<Rightarrow> bool" where
  "IsNotFound e = (case err_root e of ApiError NotFound m \<Rightarrow> True | _ \<Rightarrow> False)"

fun IsAlreadyExists :: "goerror \<Rightarrow> bool" where
  "IsAlreadyExists e = (case err_root e of ApiError AlreadyExists m \<Rightarrow> True | _ \<Rightarrow> False)"

fun IsNotFoundError :: "goerror \<Rightarrow> bool" where
  "IsNotFoundError e = (case err_root e of CosiError ResourceNotFound m \<Rightarrow> True | _ \<Rightarrow> False)"

fun IsConflictError :: "goerror \<Rightarrow> bool" where
  "IsConflictError e = (case err_root e of CosiError ResourceConflict m \<Rightarrow> True | _ \<Rightarrow> False)"

fun IsOwnershipConflict :: "goerror \<Rightarrow> bool" where
  "IsOwnershipConflict e = (err_root e = ErrClusterOwnershipConflict)"

section \<open>Formatting\<close>

fun show_nat :: "nat \<Rightarrow> string" where
  "show_nat n = (if n < 10 then [char_of (48 + n)] else show_nat (n div 10) @ [char_of (48 + n mod 10)])"

declare show_nat.simps [simp del]

definition show_int :: "int \<Rightarrow> string" where
  "show_int i = (if i < 0 then ''-'' @ show_nat (nat (- i)) else show_nat (nat i))"

definition hex_digit :: "nat \<Rightarrow> char" where
  "hex_digit n = (if n < 10 then char_of (48 + n) else char_of (87 + n))"

definition quote_char :: "char \<Rightarrow> string" where
  "quote_char c =
    (let n = of_char c :: nat in
     if n = 34 then [char_of (92::nat), c]
     else if n = 92 then [c, c]
     else if n = 7 then char_of (92::nat) # ''a''
     else if n = 8 then char_of (92::nat) # ''b''
     else if n = 9 then char_of (92::nat) # ''t''
     else if n = 10 then char_of (92::nat) # ''n''
     else if n = 11 then char_of (92::nat) # ''v''
     else if n = 12 then char_of (92::nat) # ''f''
     else if n = 13 then char_of (92::nat) # ''r''
     else if n < 32 \<or> n = 127
     then [char_of (92::nat), CHR ''x'', hex_digit (n div 16), hex_digit (n mod 16)]
     else [c])"

definition go_quote :: "string \<Rightarrow> string" where
  "go_quote s = [char_of (34::nat)] @ concat (map quote_char s) @ [char_of (34::nat)]"

fun join :: "string \<Rightarrow> string list \<Rightarrow> string" where
  "join sep [] = []"
| "join sep [x] = x"
| "join sep (x # y # ys) = x @ sep @ join sep (y # ys)"

section \<open>Go maps\<close>

text \<open>
  A Go map is an association list read with \<open>map_of\<close> and written with \<open>AList.update\<close>; two
  maps are equal when every key looks up to the same value in both.
\<close>

type_synonym ('k, 'v) gomap = "('k \<times> 'v) list"

definition gomap_eq :: "('k, 'v) gomap \<Rightarrow> ('k, 'v) gomap \<Rightarrow> bool" where
  "gomap_eq a b \<longleftrightarrow> (\<forall>k \<in> set (map fst a) \<union> set (map fst b). map_of a k = map_of b k)"

lemma gomap_eq_iff: "gomap_eq a b \<longleftrightarrow> map_of a = map_of b"
proof
  assume eq: "gomap_eq a b"
  show "map_of a = map_of b"
  proof (rule ext)
    fix k
    show "map_of a k = map_of b k"
    proof (cases "k \<in> set (map fst a) \<union> set (map fst b)")
      case True
      then show ?thesis using eq by (auto simp: gomap_eq_def)
    next
      case False
      then show ?thesis by (simp add: map_of_eq_None_iff [THEN iffD2])
    qed
  qed
qed (simp add: gomap_eq_def)

lemma gomap_eq_refl [simp]: "gomap_eq a a"
  by (simp add: gomap_eq_iff)

lemma gomap_eq_sym: "gomap_eq a b \<Longrightarrow> gomap_eq b a"
  by (simp add: gomap_eq_iff)

lemma gomap_eq_trans: "gomap_eq a b \<Longrightarrow> gomap_eq b c \<Longrightarrow> gomap_eq a c"
  by (simp add: gomap_eq_iff)

lemma map_of_AList_update [simp]: "map_of (AList.update k v al) = (map_of al)(k \<mapsto> v)"
  by (rule AList.update_conv')

section \<open>Lists\<close>

lemma show_nat_nonempty [simp]: "show_nat n \<noteq> []"
  by (subst show_nat.simps) simp

text \<open>Filtering what is not in a set of \<open>c\<close> names loses at most \<open>c\<close> elements.\<close>

lemma length_filter_notin:
  assumes "distinct xs"
  shows "length xs \<le> length (filter (\<lambda>x. x \<notin> set cs) xs) + length cs"
proof -
  have "length (filter (\<lambda>x. x \<in> set cs) xs) = card (set xs \<inter> set cs)"
    using assms by (simp flip: distinct_card add: Collect_conj_eq Int_commute)
  also have "\<dots> \<le> card (set cs)"
    by (rule card_mono) auto
  also have "\<dots> \<le> length cs"
    by (rule card_length)
  finally show ?thesis
    using sum_length_filter_compl [of "\<lambda>x. x \<in> set cs" xs] by simp
qed

lemma sorted_key_hd_min:
  assumes "sorted (map f (x # xs))" and "y \<in> set (x # xs)"
  shows "f x \<le> f y"
  using assms by auto

lemma sorted_map_take_drop:
  assumes "sorted (map f xs)" and "x \<in> set (take n xs)" and "y \<in> set (drop n xs)"
  shows "f x \<le> f y"
proof -
  have "sorted (map f (take n xs) @ map f (drop n xs))"
    using assms(1) by (simp flip: map_append)
  then show ?thesis
    using assms(2,3) by (auto simp: sorted_append)
qed

lemma distinct_map_take_drop:
  assumes "distinct (map f xs)" and "x \<in> set (take n xs)" and "y \<in> set (drop n xs)"
  shows "f x \<noteq> f y"
proof -
  have "distinct (map f (take n xs) @ map f (drop n xs))"
    using assms(1) by (simp flip: map_append)
  then have "f ` set (take n xs) \<inter> f ` set (drop n xs) = {}"
    by simp
  then show ?thesis
    using assms(2,3) by blast
qed

lemma find_SomeD: "find P xs = Some x \<Longrightarrow> x \<in> set xs \<and> P x"
  by (auto simp: find_Some_iff)

section \<open>Durations\<close>

text \<open>Constants of Go's \<open>time\<close> package: a duration is a count of nanoseconds.\<close>

definition second :: int where "second = 1000000000"
definition minute :: int where "minute = 60 * second"
definition hour :: int where "hour = 60 * minute"

end
