(* ===== verification/Api.thy ===== *)
theory Api
  imports Prelude
begin

text \<open>
  The custom resources of \<open>api/v1alpha1\<close> as records: \<open>OmniCluster\<close> and \<open>Machine\<close> with their
  specs and statuses, the parts of the Kubernetes object metadata the controllers read or write,
  and the admission rules the \<open>+kubebuilder:validation\<close> markers put on an \<open>OmniCluster\<close> spec.

  Times are integers, nanoseconds since the epoch. A Go pointer to a value is an \<open>option\<close>.
  Slices and maps have no separate nil value, as the semantic equality the controllers compare
  with does not tell nil from empty; the one nil that matters, the raw bytes of an inline patch,
  is an \<open>option\<close>.
\<close>

section \<open>Kubernetes metadata\<close>

record owner_reference =
  or_Kind :: string
  or_Name :: string
  or_Controller :: bool

record object_meta =
  om_Name :: string
  om_Namespace :: string
  om_Labels :: "(string, string) gomap"
  om_Annotations :: "(string, string) gomap"
  om_Finalizers :: "string list"
  om_DeletionTimestamp :: "int option"
  om_ResourceVersion :: string
  om_Generation :: int
  om_OwnerReferences :: "owner_reference list"

definition empty_meta :: "string \<Rightarrow> string \<Rightarrow> object_meta" where
  "empty_meta name ns =
     \<lparr>om_Name = name, om_Namespace = ns, om_Labels = [], om_Annotations = [], om_Finalizers = [],
      om_DeletionTimestamp = None, om_ResourceVersion = '''', om_Generation = 0,
      om_OwnerReferences = []\<rparr>"

record condition =
  cond_Type :: string
  cond_Status :: string
  cond_Reason :: string
  cond_Message :: string
  cond_ObservedGeneration :: int
  cond_LastTransitionTime :: int

definition ConditionTrue :: string where "ConditionTrue = ''True''"
definition ConditionFalse :: string where "ConditionFalse = ''False''"

section \<open>OmniCluster\<close>

record config_patch =
  cp_Name :: string
  cp_Inline :: "string option"

record label_requirement =
  lsr_Key :: string
  lsr_Operator :: string
  lsr_Values :: "string list"

record label_selector =
  ls_MatchLabels :: "(string, string) gomap"
  ls_MatchExpressions :: "label_requirement list"

record machine_set_spec =
  mss_Replicas :: int
  mss_MachineSelector :: label_selector
  mss_MachineExtensions :: "string list"
  mss_KernelArgs :: "string list"
  mss_ConfigPatches :: "config_patch list"

record worker_machine_set_spec =
  wms_Name :: string
  wms_MachineSetSpec :: machine_set_spec

record omni_cluster_spec =
  ocs_KubernetesVersion :: string
  ocs_TalosVersion :: string
  ocs_ControlPlane :: machine_set_spec
  ocs_Workers :: "worker_machine_set_spec list"

record omni_cluster_status =
  ost_ObservedGeneration :: int
  ost_Phase :: string
  ost_Ready :: bool
  ost_AllocatedMachines :: "(string, string list) gomap"
  ost_FailureReason :: "string option"
  ost_FailureMessage :: "string option"
  ost_Conditions :: "condition list"

record omni_cluster =
  oc_Meta :: object_meta
  oc_Spec :: omni_cluster_spec
  oc_Status :: omni_cluster_status

abbreviation oc_Name :: "omni_cluster \<Rightarrow> string" where "oc_Name c \<equiv> om_Name (oc_Meta c)"
abbreviation oc_Namespace :: "omni_cluster \<Rightarrow> string" where "oc_Namespace c \<equiv> om_Namespace (oc_Meta c)"
abbreviation oc_Generation :: "omni_cluster \<Rightarrow> int" where "oc_Generation c \<equiv> om_Generation (oc_Meta c)"

section \<open>Machine\<close>

record machine_spec =
  ms_ClusterName :: string
  ms_MachineSetID :: string
  ms_Role :: string
  ms_ConfigPatches :: "config_patch list"
  ms_KernelArgs :: "string list"
  ms_RebootRequestedAt :: "int option"
  ms_ManagementAddress :: string

record machine_status =
  mst_ObservedGeneration :: int
  mst_Ready :: bool
  mst_Phase :: string
  mst_LastRebootTime :: "int option"
  mst_FailureReason :: "string option"
  mst_FailureMessage :: "string option"
  mst_Conditions :: "condition list"

record machine =
  m_Meta :: object_meta
  m_Spec :: machine_spec
  m_Status :: machine_status

abbreviation m_Name :: "machine \<Rightarrow> string" where "m_Name m \<equiv> om_Name (m_Meta m)"
abbreviation m_Namespace :: "machine \<Rightarrow> string" where "m_Namespace m \<equiv> om_Namespace (m_Meta m)"
abbreviation m_Generation :: "machine \<Rightarrow> int" where "m_Generation m \<equiv> om_Generation (m_Meta m)"
abbreviation m_DeletionTimestamp :: "machine \<Rightarrow> int option" where
  "m_DeletionTimestamp m \<equiv> om_DeletionTimestamp (m_Meta m)"

definition zero_machine_spec :: machine_spec where
  "zero_machine_spec =
     \<lparr>ms_ClusterName = '''', ms_MachineSetID = '''', ms_Role = '''', ms_ConfigPatches = [],
      ms_KernelArgs = [], ms_RebootRequestedAt = None, ms_ManagementAddress = ''''\<rparr>"

definition zero_machine_status :: machine_status where
  "zero_machine_status =
     \<lparr>mst_ObservedGeneration = 0, mst_Ready = False, mst_Phase = '''', mst_LastRebootTime = None,
      mst_FailureReason = None, mst_FailureMessage = None, mst_Conditions = []\<rparr>"

section \<open>Secrets\<close>

record secret =
  sec_Meta :: object_meta
  sec_Data :: "(string, string) gomap"

section \<open>Admission rules of the OmniCluster spec\<close>

definition is_digit :: "char \<Rightarrow> bool" where
  "is_digit c \<longleftrightarrow> CHR ''0'' \<le> c \<and> c \<le> CHR ''9''"

definition is_lower :: "char \<Rightarrow> bool" where
  "is_lower c \<longleftrightarrow> CHR ''a'' \<le> c \<and> c \<le> CHR ''z''"

definition is_upper :: "char \<Rightarrow> bool" where
  "is_upper c \<longleftrightarrow> CHR ''A'' \<le> c \<and> c \<le> CHR ''Z''"

definition is_number :: "string \<Rightarrow> bool" where
  "is_number s \<longleftrightarrow> s \<noteq> [] \<and> list_all is_digit s"

text \<open>The text before the first \<open>sep\<close>, and the text after it if there is one.\<close>

definition split_at :: "char \<Rightarrow> string \<Rightarrow> string \<times> string option" where
  "split_at sep s =
    (case dropWhile (\<lambda>c. c \<noteq> sep) s of
       [] \<Rightarrow> (s, None)
     | _ # rest \<Rightarrow> (takeWhile (\<lambda>c. c \<noteq> sep) s, Some rest))"

definition version_triple :: "string \<Rightarrow> bool" where
  "version_triple s =
    (case split_at (CHR ''.'') s of
       (a, Some r) \<Rightarrow>
         (case split_at (CHR ''.'') r of
            (b, Some c) \<Rightarrow> is_number a \<and> is_number b \<and> is_number c
          | (b, None) \<Rightarrow> False)
     | (a, None) \<Rightarrow> False)"

definition valid_kubernetes_version :: "string \<Rightarrow> bool" where
  "valid_kubernetes_version s = version_triple s"

definition valid_talos_version :: "string \<Rightarrow> bool" where
  "valid_talos_version s =
    (case s of
       [] \<Rightarrow> False
     | v # r \<Rightarrow>
         v = CHR ''v'' \<and>
         (case split_at (CHR ''-'') r of
            (t, None) \<Rightarrow> version_triple t
          | (t, Some x) \<Rightarrow>
              version_triple t \<and> x \<noteq> [] \<and>
              list_all (\<lambda>c. is_digit c \<or> is_lower c \<or> is_upper c \<or> c = CHR ''.'') x))"

definition valid_worker_name :: "string \<Rightarrow> bool" where
  "valid_worker_name s =
    (length s \<le> 63 \<and> s \<noteq> [] \<and>
     list_all (\<lambda>c. is_digit c \<or> is_lower c \<or> c = CHR ''-'') s \<and>
     hd s \<noteq> CHR ''-'' \<and> last s \<noteq> CHR ''-'')"

definition valid_machine_set_spec :: "machine_set_spec \<Rightarrow> bool" where
  "valid_machine_set_spec s \<longleftrightarrow> 0 \<le> mss_Replicas s"

definition valid_omni_cluster_spec :: "omni_cluster_spec \<Rightarrow> bool" where
  "valid_omni_cluster_spec s \<longleftrightarrow>
     valid_kubernetes_version (ocs_KubernetesVersion s) \<and>
     valid_talos_version (ocs_TalosVersion s) \<and>
     valid_machine_set_spec (ocs_ControlPlane s) \<and>
     1 \<le> mss_Replicas (ocs_ControlPlane s) \<and>
     list_all (\<lambda>w. valid_worker_name (wms_Name w) \<and> valid_machine_set_spec (wms_MachineSetSpec w))
       (ocs_Workers s)"

section \<open>Semantic equality\<close>

text \<open>
  \<open>equality.Semantic.DeepEqual\<close> on the two statuses and on a machine spec: field by field, maps
  by lookup, times by instant, nil and empty slices alike.
\<close>

definition semantic_eq_cluster_status :: "omni_cluster_status \<Rightarrow> omni_cluster_status \<Rightarrow> bool" where
  "semantic_eq_cluster_status a b \<longleftrightarrow>
     gomap_eq (ost_AllocatedMachines a) (ost_AllocatedMachines b) \<and>
     a\<lparr>ost_AllocatedMachines := []\<rparr> = b\<lparr>ost_AllocatedMachines := []\<rparr>"

definition semantic_eq_machine_status :: "machine_status \<Rightarrow> machine_status \<Rightarrow> bool" where
  "semantic_eq_machine_status a b \<longleftrightarrow> a = b"

definition raw_bytes :: "string option \<Rightarrow> string" where
  "raw_bytes r = (case r of None \<Rightarrow> [] | Some b \<Rightarrow> b)"

definition semantic_eq_patch :: "config_patch \<Rightarrow> config_patch \<Rightarrow> bool" where
  "semantic_eq_patch a b \<longleftrightarrow>
     cp_Name a = cp_Name b \<and> raw_bytes (cp_Inline a) = raw_bytes (cp_Inline b)"

definition semantic_eq_machine_spec :: "machine_spec \<Rightarrow> machine_spec \<Rightarrow> bool" where
  "semantic_eq_machine_spec a b \<longleftrightarrow>
     list_all2 semantic_eq_patch (ms_ConfigPatches a) (ms_ConfigPatches b) \<and>
     a\<lparr>ms_ConfigPatches := []\<rparr> = b\<lparr>ms_ConfigPatches := []\<rparr>"

lemma semantic_eq_patch_refl [simp]: "semantic_eq_patch p p"
  by (simp add: semantic_eq_patch_def)

lemma semantic_eq_machine_spec_refl [simp]: "semantic_eq_machine_spec s s"
  by (simp add: semantic_eq_machine_spec_def list_all2_same)

lemma semantic_eq_cluster_status_refl [simp]: "semantic_eq_cluster_status s s"
  by (simp add: semantic_eq_cluster_status_def)

lemma semantic_eq_machine_status_refl [simp]: "semantic_eq_machine_status s s"
  by (simp add: semantic_eq_machine_status_def)

end
