(* ===== verification/World.thy ===== *)
theory World
  imports Api
begin

text \<open>
  The outside of the program and the computations that act on it.

  The API server, the COSI state of Omni, Omni's management and Talos endpoints, the clock and
  the third-party helper functions are not code of this repository. They are the fields of a
  record \<open>'e ops\<close>, a parameter of every definition that uses them, over an environment type
  \<open>'e\<close> about which nothing is known: each operation takes the environment and returns a result
  and the environment after it, so failures, interference by other controllers and the passing
  of time are all possible between any two calls. What a theorem relies on is one of the named
  predicates at the end of this theory.

  A computation of the controllers takes a \<open>world\<close> (the environment, the calls made so far,
  the Prometheus series) and returns an error or a value with the world after it.
\<close>

section \<open>Resources of the COSI state\<close>

datatype rtype =
    ClusterType | MachineSetType | MachineSetNodeType | ConfigPatchType
  | ExtensionsConfigurationType | KernelArgsType | MachineStatusType
  | ClusterMachineStatusType | ClusterStatusType

datatype machine_stage = RUNNING | OtherStage nat

record cluster_machine_status =
  cms_Stage :: machine_stage
  cms_Ready :: bool
  cms_ConfigUpToDate :: bool
  cms_LastConfigError :: string
  cms_ManagementAddress :: string

datatype typed_spec =
    ClusterSpec (KubernetesVersion: string) (TalosVersion: string)
  | MachineSetSpec
  | MachineSetNodeSpec
  | ConfigPatchSpec (patch_data: string)
  | ExtensionsConfigurationSpec (Extensions: "string list")
  | KernelArgsSpec (Args: "string list")
  | MachineStatusSpec (Connected: bool)
  | ClusterMachineStatusSpec (cms: cluster_machine_status)
  | ClusterStatusSpec (Phase: string) (KubernetesAPIReady: bool)

primrec type_of :: "typed_spec \<Rightarrow> rtype" where
  "type_of (ClusterSpec k t) = ClusterType"
| "type_of MachineSetSpec = MachineSetType"
| "type_of MachineSetNodeSpec = MachineSetNodeType"
| "type_of (ConfigPatchSpec d) = ConfigPatchType"
| "type_of (ExtensionsConfigurationSpec x) = ExtensionsConfigurationType"
| "type_of (KernelArgsSpec a) = KernelArgsType"
| "type_of (MachineStatusSpec c) = MachineStatusType"
| "type_of (ClusterMachineStatusSpec s) = ClusterMachineStatusType"
| "type_of (ClusterStatusSpec p r) = ClusterStatusType"

record resource =
  r_ID :: string
  r_Labels :: "(string, string) gomap"
  r_Spec :: typed_spec

abbreviation r_Type :: "resource \<Rightarrow> rtype" where "r_Type r \<equiv> type_of (r_Spec r)"

definition set_label :: "string \<Rightarrow> string \<Rightarrow> resource \<Rightarrow> resource" where
  "set_label k v r = r\<lparr>r_Labels := AList.update k v (r_Labels r)\<rparr>"

definition get_label :: "string \<Rightarrow> resource \<Rightarrow> string option" where
  "get_label k r = map_of (r_Labels r) k"

lemma set_label_simps [simp]:
  "r_ID (set_label k v r) = r_ID r"
  "r_Spec (set_label k v r) = r_Spec r"
  "get_label k' (set_label k v r) = (if k' = k then Some v else get_label k' r)"
  by (simp_all add: set_label_def get_label_def)

lemma get_label_spec_update [simp]: "get_label k (r\<lparr>r_Spec := s\<rparr>) = get_label k r"
  by (simp add: get_label_def)

datatype label_term =
    LabelExists string
  | LabelNotExists string
  | LabelEqual string string
  | LabelIn string "string list"
  | LabelNotIn string "string list"

section \<open>Parsed kubeconfigs and JSON values\<close>

record kube_context =
  kctx_Cluster :: string
  kctx_AuthInfo :: string

record kube_cluster =
  kcl_Server :: string
  kcl_CertificateAuthorityData :: string

record kube_config =
  kc_CurrentContext :: string
  kc_Contexts :: "(string, kube_context) gomap"
  kc_Clusters :: "(string, kube_cluster) gomap"
  kc_AuthInfos :: "(string, string) gomap"

text \<open>The options of a service-account kubeconfig: how long its token lives, for whom, in which groups.\<close>

record service_account =
  sa_TTL :: int
  sa_User :: string
  sa_Groups :: "string list"

text \<open>
  A decoded JSON value. A number is the float64's mantissa and exponent; an object is a list of
  members with distinct keys in increasing order, so that equality is \<open>reflect.DeepEqual\<close>.
\<close>

datatype json_value =
    JNull
  | JBool bool
  | JNumber int int
  | JString string
  | JArray "json_value list"
  | JObject "(string \<times> json_value) list"

section \<open>The parameters\<close>

text \<open>
  \<open>k8s_\<close> fields are the controller-runtime client and its helpers, \<open>cosi_\<close> fields the COSI
  state, \<open>omni_\<close> fields the rest of the Omni client library (constructors, label keys, the
  management and Talos calls). \<open>json_Unmarshal\<close> is \<open>json.Unmarshal\<close> into an \<open>any\<close>, \<open>None\<close> when
  the text does not parse; \<open>map_order\<close> is the order in which a \<open>range\<close> visits a map's keys.
\<close>

record 'e ops =
  k8s_GetCluster :: "string \<Rightarrow> string \<Rightarrow> 'e \<Rightarrow> (goerror + omni_cluster) \<times> 'e"
  k8s_GetMachine :: "string \<Rightarrow> string \<Rightarrow> 'e \<Rightarrow> (goerror + machine) \<times> 'e"
  k8s_GetSecret :: "string \<Rightarrow> string \<Rightarrow> 'e \<Rightarrow> (goerror + secret) \<times> 'e"
  k8s_ListMachines :: "string \<Rightarrow> (string, string) gomap \<Rightarrow> 'e \<Rightarrow> (goerror + machine list) \<times> 'e"
  k8s_CreateMachine :: "machine \<Rightarrow> 'e \<Rightarrow> (goerror + unit) \<times> 'e"
  k8s_UpdateMachine :: "machine \<Rightarrow> 'e \<Rightarrow> (goerror + unit) \<times> 'e"
  k8s_DeleteMachine :: "string \<Rightarrow> string \<Rightarrow> 'e \<Rightarrow> (goerror + unit) \<times> 'e"
  k8s_UpdateMachineStatus :: "machine \<Rightarrow> 'e \<Rightarrow> (goerror + unit) \<times> 'e"
  k8s_UpdateCluster :: "omni_cluster \<Rightarrow> 'e \<Rightarrow> (goerror + unit) \<times> 'e"
  k8s_UpdateClusterStatus :: "omni_cluster \<Rightarrow> 'e \<Rightarrow> (goerror + unit) \<times> 'e"
  k8s_DeleteSecret :: "string \<Rightarrow> string \<Rightarrow> 'e \<Rightarrow> (goerror + unit) \<times> 'e"
  k8s_CreateOrUpdateSecret ::
    "string \<Rightarrow> string \<Rightarrow> (secret \<Rightarrow> secret) \<Rightarrow> 'e \<Rightarrow> (goerror + unit) \<times> 'e"
  k8s_ContainsFinalizer :: "string list \<Rightarrow> string \<Rightarrow> bool"
  k8s_AddFinalizer :: "string list \<Rightarrow> string \<Rightarrow> string list"
  k8s_RemoveFinalizer :: "string list \<Rightarrow> string \<Rightarrow> string list"
  k8s_SetControllerReference :: "omni_cluster \<Rightarrow> machine \<Rightarrow> goerror + machine"
  k8s_SetStatusCondition :: "'e \<Rightarrow> condition list \<Rightarrow> condition \<Rightarrow> condition list"
  k8s_LabelSelectorAsSelector :: "label_selector \<Rightarrow> goerror + ((string, string) gomap \<Rightarrow> bool)"
  k8s_LoadKubeconfig :: "string \<Rightarrow> goerror + kube_config"
  cosi_Get :: "rtype \<Rightarrow> string \<Rightarrow> 'e \<Rightarrow> (goerror + resource) \<times> 'e"
  cosi_List :: "rtype \<Rightarrow> label_term list \<Rightarrow> 'e \<Rightarrow> (goerror + resource list) \<times> 'e"
  cosi_Create :: "resource \<Rightarrow> 'e \<Rightarrow> (goerror + unit) \<times> 'e"
  cosi_Update :: "resource \<Rightarrow> 'e \<Rightarrow> (goerror + unit) \<times> 'e"
  cosi_Teardown :: "rtype \<Rightarrow> string \<Rightarrow> 'e \<Rightarrow> (goerror + bool) \<times> 'e"
  cosi_Destroy :: "rtype \<Rightarrow> string \<Rightarrow> 'e \<Rightarrow> (goerror + unit) \<times> 'e"
  omni_New :: "rtype \<Rightarrow> string \<Rightarrow> resource"
  omni_NewMachineSetNode :: "string \<Rightarrow> resource \<Rightarrow> resource"
  omni_NewConfigPatch :: "string \<Rightarrow> (string \<times> string) list \<Rightarrow> resource"
  omni_SetUncompressedData :: "string \<Rightarrow> string \<Rightarrow> goerror + string"
  omni_GetUncompressedData :: "string \<Rightarrow> goerror + string"
  omni_ControlPlanesResourceID :: "string \<Rightarrow> string"
  omni_LabelCluster :: string
  omni_LabelMachineSet :: string
  omni_LabelClusterMachine :: string
  omni_LabelControlPlaneRole :: string
  omni_LabelWorkerRole :: string
  omni_MachineStatusLabelAvailable :: string
  omni_Kubeconfig :: "string \<Rightarrow> service_account \<Rightarrow> 'e \<Rightarrow> (goerror + string) \<times> 'e"
  omni_Reboot :: "string \<Rightarrow> string \<Rightarrow> 'e \<Rightarrow> (goerror + unit) \<times> 'e"
  time_Now :: "'e \<Rightarrow> int \<times> 'e"
  time_FormatRFC3339 :: "int \<Rightarrow> string"
  time_ParseRFC3339 :: "string \<Rightarrow> int option"
  json_Unmarshal :: "string \<Rightarrow> json_value option"
  map_order :: "string list \<Rightarrow> string list"

section \<open>Calls\<close>

text \<open>
  What a computation leaves behind: one entry per call that writes, asks another system to act,
  mints a credential or records an event. Reads leave no entry.
\<close>

datatype call =
    CreateMachine machine
  | UpdateMachine machine
  | DeleteMachine string string
  | UpdateMachineStatus machine
  | UpdateCluster omni_cluster
  | UpdateClusterStatus omni_cluster
  | WriteSecret string string
  | DeleteSecret string string
  | CreateResource resource
  | UpdateResource resource
  | TeardownResource rtype string
  | DestroyResource rtype string
  | RebootRPC string string
  | KubeconfigRPC string service_account
  | EmitEvent string string string

record gauges =
  clusterReadyGauge :: "(string \<times> string, int) gomap"
  clusterMachinesAllocatedGauge :: "(string \<times> string \<times> string, int) gomap"
  clusterConfigDriftGauge :: "(string \<times> string, int) gomap"
  machineRebootsTotal :: "(string \<times> string, int) gomap"

record 'e world =
  env :: 'e
  calls :: "call list"
  series :: gauges

text \<open>The type of the COSI resource a call acts on, if it acts on one.\<close>

fun call_type :: "call \<Rightarrow> rtype option" where
  "call_type (CreateResource r) = Some (r_Type r)"
| "call_type (UpdateResource r) = Some (r_Type r)"
| "call_type (TeardownResource t i) = Some t"
| "call_type (DestroyResource t i) = Some t"
| "call_type _ = None"

fun is_removal :: "call \<Rightarrow> bool" where
  "is_removal (TeardownResource t i) = True"
| "is_removal (DestroyResource t i) = True"
| "is_removal _ = False"

fun is_reboot :: "call \<Rightarrow> bool" where
  "is_reboot (RebootRPC c a) = True"
| "is_reboot _ = False"

fun is_event :: "call \<Rightarrow> bool" where
  "is_event (EmitEvent t r m) = True"
| "is_event _ = False"

fun is_delete_machine :: "call \<Rightarrow> bool" where
  "is_delete_machine (DeleteMachine ns n) = True"
| "is_delete_machine _ = False"

fun is_update_machine :: "call \<Rightarrow> bool" where
  "is_update_machine (UpdateMachine m) = True"
| "is_update_machine _ = False"

fun is_status_write :: "call \<Rightarrow> bool" where
  "is_status_write (UpdateMachineStatus m) = True"
| "is_status_write (UpdateClusterStatus c) = True"
| "is_status_write _ = False"

section \<open>Computations\<close>

type_synonym ('e, 'a) io = "'e world \<Rightarrow> (goerror + 'a) \<times> 'e world"

definition io_ret :: "'a \<Rightarrow> ('e, 'a) io" where
  "io_ret x w = (Inr x, w)"

definition io_raise :: "goerror \<Rightarrow> ('e, 'a) io" where
  "io_raise e w = (Inl e, w)"

definition io_bind :: "('e, 'a) io \<Rightarrow> ('a \<Rightarrow> ('e, 'b) io) \<Rightarrow> ('e, 'b) io" where
  "io_bind m f w = (case m w of (Inl e, w') \<Rightarrow> (Inl e, w') | (Inr x, w') \<Rightarrow> f x w')"

text \<open>\<open>io_try\<close> hands the error to the code, as a call whose error is tested does.\<close>

definition io_try :: "('e, 'a) io \<Rightarrow> ('e, goerror + 'a) io" where
  "io_try m w = (case m w of (r, w') \<Rightarrow> (Inr r, w'))"

text \<open>\<open>io_wrap\<close> is \<open>if err != nil { return fmt.Errorf("...", err) }\<close>.\<close>

definition io_wrap :: "(goerror \<Rightarrow> goerror) \<Rightarrow> ('e, 'a) io \<Rightarrow> ('e, 'a) io" where
  "io_wrap f m w = (case m w of (Inl e, w') \<Rightarrow> (Inl (f e), w') | (Inr x, w') \<Rightarrow> (Inr x, w'))"

fun io_for :: "'a list \<Rightarrow> ('a \<Rightarrow> ('e, unit) io) \<Rightarrow> ('e, unit) io" where
  "io_for [] f = io_ret ()"
| "io_for (x # xs) f = io_bind (f x) (\<lambda>_. io_for xs f)"

definition io_lift :: "goerror + 'a \<Rightarrow> ('e, 'a) io" where
  "io_lift r w = (r, w)"

definition io_env :: "('e \<Rightarrow> 'a) \<Rightarrow> ('e, 'a) io" where
  "io_env f w = (Inr (f (env w)), w)"

text \<open>A call on the outside: the operation, and the entries it leaves.\<close>

definition ext :: "call list \<Rightarrow> ('e \<Rightarrow> (goerror + 'a) \<times> 'e) \<Rightarrow> ('e, 'a) io" where
  "ext cs f w = (case f (env w) of (r, e) \<Rightarrow> (r, w\<lparr>env := e, calls := calls w @ cs\<rparr>))"

definition now :: "'e ops \<Rightarrow> ('e, int) io" where
  "now E = ext [] (\<lambda>e. case time_Now E e of (t, e') \<Rightarrow> (Inr t, e'))"

definition io_series :: "(gauges \<Rightarrow> gauges) \<Rightarrow> ('e, unit) io" where
  "io_series f w = (Inr (), w\<lparr>series := f (series w)\<rparr>)"

lemma io_ret_iff [io_iff]: "io_ret x w = (Inr y, w') \<longleftrightarrow> y = x \<and> w' = w"
  by (auto simp: io_ret_def)

lemma io_raise_iff [io_iff]: "io_raise e w = (Inr y, w') \<longleftrightarrow> False"
  by (simp add: io_raise_def)

lemma io_bind_iff [io_iff]:
  "io_bind m f w = (Inr y, w') \<longleftrightarrow> (\<exists>x w1. m w = (Inr x, w1) \<and> f x w1 = (Inr y, w'))"
  by (auto simp: io_bind_def split: prod.splits sum.splits)

lemma io_try_iff [io_iff]: "io_try m w = (Inr r, w') \<longleftrightarrow> m w = (r, w')"
  by (auto simp: io_try_def split: prod.splits)

lemma io_wrap_iff [io_iff]: "io_wrap f m w = (Inr y, w') \<longleftrightarrow> m w = (Inr y, w')"
  by (auto simp: io_wrap_def split: prod.splits sum.splits)

lemma io_lift_iff [io_iff]: "io_lift r w = (Inr y, w') \<longleftrightarrow> r = Inr y \<and> w' = w"
  by (auto simp: io_lift_def)

lemma io_env_iff [io_iff]: "io_env f w = (Inr y, w') \<longleftrightarrow> y = f (env w) \<and> w' = w"
  by (auto simp: io_env_def)

lemma io_series_iff [io_iff]:
  "io_series f w = (Inr y, w') \<longleftrightarrow> w' = w\<lparr>series := f (series w)\<rparr>"
  by (auto simp: io_series_def)

lemmas io_defs = io_ret_def io_raise_def io_bind_def io_try_def io_wrap_def io_lift_def
  io_env_def ext_def now_def io_series_def

section \<open>Bounding the calls a computation makes\<close>

text \<open>
  \<open>atmost n Q m\<close>: whatever the world, the run of \<open>m\<close> only appends entries, and at most \<open>n\<close> of
  those satisfy \<open>Q\<close>. The rules follow the shape of a computation, so that the bound of a handler
  is the sum of the bounds of its steps; \<open>never\<close> is the bound nought, which loops keep.
\<close>

definition atmost :: "nat \<Rightarrow> (call \<Rightarrow> bool) \<Rightarrow> ('e, 'a) io \<Rightarrow> bool" where
  "atmost n Q m \<longleftrightarrow>
     (\<forall>w. \<exists>cs. calls (snd (m w)) = calls w @ cs \<and> length (filter Q cs) \<le> n)"

abbreviation never :: "(call \<Rightarrow> bool) \<Rightarrow> ('e, 'a) io \<Rightarrow> bool" where
  "never Q m \<equiv> atmost 0 Q m"

lemma atmostD:
  "atmost n Q m \<Longrightarrow> \<exists>cs. calls (snd (m w)) = calls w @ cs \<and> length (filter Q cs) \<le> n"
  by (simp add: atmost_def)

lemma atmost_weaken: "atmost k Q m \<Longrightarrow> k \<le> n \<Longrightarrow> atmost n Q m"
  unfolding atmost_def by (meson le_trans)

lemma never_atmost: "never Q m \<Longrightarrow> atmost n Q m"
  by (erule atmost_weaken) (rule le0)

lemma atmost_ret [effects]: "atmost n Q (io_ret x)"
  by (simp add: atmost_def io_ret_def)

lemma atmost_raise [effects]: "atmost n Q (io_raise e)"
  by (simp add: atmost_def io_raise_def)

lemma atmost_lift [effects]: "atmost n Q (io_lift r)"
  by (simp add: atmost_def io_lift_def)

lemma atmost_env [effects]: "atmost n Q (io_env f)"
  by (simp add: atmost_def io_env_def)

lemma atmost_series [effects]: "atmost n Q (io_series f)"
  by (simp add: atmost_def io_series_def)

lemma atmost_ext: "length (filter Q cs) \<le> n \<Longrightarrow> atmost n Q (ext cs f)"
  by (auto simp: atmost_def ext_def split: prod.splits)

lemma never_ext [effects]: "list_all (\<lambda>c. \<not> Q c) cs \<Longrightarrow> never Q (ext cs f)"
  by (rule atmost_ext) (induction cs, auto)

lemma atmost_now [effects]: "atmost n Q (now E)"
  by (simp add: now_def atmost_ext)

text \<open>The continuation is only run on a value the first step returned in some world.\<close>

lemma atmost_bind_sum:
  assumes m: "atmost k Q m" and f: "\<And>x w w'. m w = (Inr x, w') \<Longrightarrow> atmost l Q (f x)"
    and n: "k + l \<le> n"
  shows "atmost n Q (io_bind m f)"
  unfolding atmost_def
proof
  fix w
  obtain cs where cs: "calls (snd (m w)) = calls w @ cs" "length (filter Q cs) \<le> k"
    using atmostD [OF m] by blast
  show "\<exists>cs. calls (snd (io_bind m f w)) = calls w @ cs \<and> length (filter Q cs) \<le> n"
  proof (cases "m w")
    case (Pair r w1)
    show ?thesis
    proof (cases r)
      case (Inl e)
      with Pair cs n show ?thesis by (auto simp: io_bind_def)
    next
      case (Inr x)
      obtain ds where "calls (snd (f x w1)) = calls w1 @ ds" "length (filter Q ds) \<le> l"
        using atmostD [OF f] Pair Inr by blast
      with Pair Inr cs n show ?thesis
        by (intro exI [of _ "cs @ ds"]) (simp add: io_bind_def)
    qed
  qed
qed

lemma never_bind [effects]:
  "never Q m \<Longrightarrow> (\<And>x w w'. m w = (Inr x, w') \<Longrightarrow> never Q (f x)) \<Longrightarrow> never Q (io_bind m f)"
  by (rule atmost_bind_sum [where k = 0 and l = 0]) simp_all

lemma atmost_bind_first:
  "never Q m \<Longrightarrow> (\<And>x w w'. m w = (Inr x, w') \<Longrightarrow> atmost n Q (f x)) \<Longrightarrow> atmost n Q (io_bind m f)"
  by (rule atmost_bind_sum [where k = 0 and l = n]) simp_all

lemma atmost_bind_last:
  "atmost n Q m \<Longrightarrow> (\<And>x w w'. m w = (Inr x, w') \<Longrightarrow> never Q (f x)) \<Longrightarrow> atmost n Q (io_bind m f)"
  by (rule atmost_bind_sum [where k = n and l = 0]) simp_all

lemma atmost_try [effects]: "atmost n Q m \<Longrightarrow> atmost n Q (io_try m)"
  by (simp add: atmost_def io_try_def case_prod_unfold)

lemma atmost_wrap [effects]: "atmost n Q m \<Longrightarrow> atmost n Q (io_wrap f m)"
  by (auto simp: atmost_def io_wrap_def split: prod.splits sum.splits) (metis snd_conv)+

lemma never_for [effects]: "(\<And>x. x \<in> set xs \<Longrightarrow> never Q (f x)) \<Longrightarrow> never Q (io_for xs f)"
proof (induction xs)
  case Nil
  show ?case by (simp add: atmost_ret)
next
  case (Cons x xs)
  then show ?case by (simp add: never_bind)
qed

lemma atmost_if [effects]:
  "(b \<Longrightarrow> atmost n Q m) \<Longrightarrow> (\<not> b \<Longrightarrow> atmost n Q m') \<Longrightarrow> atmost n Q (if b then m else m')"
  by simp

lemma atmost_sum [effects]:
  "(\<And>e. r = Inl e \<Longrightarrow> atmost n Q (f e)) \<Longrightarrow> (\<And>x. r = Inr x \<Longrightarrow> atmost n Q (g x)) \<Longrightarrow>
   atmost n Q (case r of Inl e \<Rightarrow> f e | Inr x \<Rightarrow> g x)"
  by (cases r) simp_all

lemma atmost_option [effects]:
  "(r = None \<Longrightarrow> atmost n Q m) \<Longrightarrow> (\<And>x. r = Some x \<Longrightarrow> atmost n Q (g x)) \<Longrightarrow>
   atmost n Q (case r of None \<Rightarrow> m | Some x \<Rightarrow> g x)"
  by (cases r) simp_all

lemma atmost_prod [effects]:
  "(\<And>a b. p = (a, b) \<Longrightarrow> atmost n Q (g a b)) \<Longrightarrow> atmost n Q (case p of (a, b) \<Rightarrow> g a b)"
  by (cases p) simp

lemma atmost_list [effects]:
  "(xs = [] \<Longrightarrow> atmost n Q m) \<Longrightarrow> (\<And>y ys. xs = y # ys \<Longrightarrow> atmost n Q (g y ys)) \<Longrightarrow>
   atmost n Q (case xs of [] \<Rightarrow> m | y # ys \<Rightarrow> g y ys)"
  by (cases xs) simp_all

lemma atmost_Let [effects]: "atmost n Q (f x) \<Longrightarrow> atmost n Q (let y = x in f y)"
  by simp

section \<open>The calls of one run\<close>

text \<open>
  \<open>made m w\<close> lists the calls the run of \<open>m\<close> from \<open>w\<close> makes. Every computation of the
  development only appends calls (\<open>grows\<close>, the bound for the empty class), so that the calls of a
  sequence are the calls of its parts.
\<close>

definition made :: "('e, 'a) io \<Rightarrow> 'e world \<Rightarrow> call list" where
  "made m w = drop (length (calls w)) (calls (snd (m w)))"

abbreviation grows :: "('e, 'a) io \<Rightarrow> bool" where
  "grows m \<equiv> never (\<lambda>_. False) m"

lemma calls_made: "atmost n Q m \<Longrightarrow> calls (snd (m w)) = calls w @ made m w"
  unfolding made_def using atmostD [of n Q m w] by force

lemma atmost_made: "atmost n Q m \<Longrightarrow> length (filter Q (made m w)) \<le> n"
  unfolding made_def using atmostD [of n Q m w] by force

lemma never_made: "never Q m \<Longrightarrow> c \<in> set (made m w) \<Longrightarrow> \<not> Q c"
  using atmost_made [of 0 Q m w] by (auto simp: filter_empty_conv)

lemma atmost_grows: "atmost n Q m \<Longrightarrow> grows m"
  unfolding atmost_def by force

lemma made_ret [simp]: "made (io_ret x) w = []"
  by (simp add: made_def io_ret_def)

lemma made_raise [simp]: "made (io_raise e) w = []"
  by (simp add: made_def io_raise_def)

lemma made_lift [simp]: "made (io_lift r) w = []"
  by (simp add: made_def io_lift_def)

lemma made_env [simp]: "made (io_env f) w = []"
  by (simp add: made_def io_env_def)

lemma made_series [simp]: "made (io_series f) w = []"
  by (simp add: made_def io_series_def)

lemma made_ext [simp]: "made (ext cs f) w = cs"
  by (simp add: made_def ext_def split: prod.splits)

lemma made_now [simp]: "made (now E) w = []"
  by (simp add: now_def)

lemma made_try [simp]: "made (io_try m) w = made m w"
  by (simp add: made_def io_try_def case_prod_unfold)

lemma made_wrap [simp]: "made (io_wrap f m) w = made m w"
  by (auto simp: made_def io_wrap_def split: prod.splits sum.splits)

lemma made_if [simp]: "made (if b then m else m') w = (if b then made m w else made m' w)"
  by simp

lemma made_bind_Inl: "m w = (Inl e, w1) \<Longrightarrow> made (io_bind m f) w = made m w"
  by (simp add: made_def io_bind_def)

lemma made_bind_Inr:
  assumes "m w = (Inr x, w1)" and "atmost k P m" and "atmost n Q (f x)"
  shows "made (io_bind m f) w = made m w @ made (f x) w1"
proof -
  obtain cs where cs: "calls w1 = calls w @ cs"
    using atmostD [OF assms(2), of w] assms(1) by auto
  obtain ds where ds: "calls (snd (f x w1)) = calls w1 @ ds"
    using atmostD [OF assms(3), of w1] by auto
  show ?thesis
    using assms(1) cs ds by (simp add: made_def io_bind_def)
qed

lemma made_ext_ret [simp]: "made (io_bind (ext cs f) (\<lambda>_. io_ret y)) w = cs"
  by (simp add: made_def io_defs split: prod.splits sum.splits)

lemma made_bind_ret [simp]: "made (io_bind m (\<lambda>x. io_ret (f x))) w = made m w"
  by (auto simp: made_def io_defs split: prod.splits sum.splits)

lemma made_bind_try:
  "m w = (r, w1) \<Longrightarrow> grows m \<Longrightarrow> grows (g r) \<Longrightarrow>
   made (io_bind (io_try m) g) w = made m w @ made (g r) w1"
  using made_bind_Inr [of "io_try m" w r w1 0 "\<lambda>_. False" 0 "\<lambda>_. False" g] atmost_try [of 0 _ m]
  by (simp add: io_try_def)

lemma calls_run: "m w = (r, w1) \<Longrightarrow> grows m \<Longrightarrow> calls w1 = calls w @ made m w"
  using calls_made [of 0 "\<lambda>_. False" m w] by simp

lemma made_bindE:
  assumes c: "c \<in> set (made (io_bind m f) w)" and m: "grows m"
    and f: "\<And>x w w'. m w = (Inr x, w') \<Longrightarrow> grows (f x)"
  obtains (first) "c \<in> set (made m w)"
  | (rest) x w1 where "m w = (Inr x, w1)" and "c \<in> set (made (f x) w1)"
proof (cases "m w")
  case (Pair r w1)
  show ?thesis
  proof (cases r)
    case (Inl e)
    with c Pair first show ?thesis by (simp add: made_bind_Inl)
  next
    case (Inr x)
    have "made (io_bind m f) w = made m w @ made (f x) w1"
      using Pair Inr f by (intro made_bind_Inr [OF _ m]) auto
    with c Pair Inr first rest show ?thesis by auto
  qed
qed

lemma made_tryE:
  assumes c: "c \<in> set (made (io_bind (io_try m) g) w)" and m: "grows m"
    and g: "\<And>r. grows (g r)"
  obtains (first) "c \<in> set (made m w)"
  | (rest) r w1 where "m w = (r, w1)" and "c \<in> set (made (g r) w1)"
  using c
proof (rule made_bindE [OF _ atmost_try [OF m] g])
qed (auto simp: io_iff intro: first rest)

text \<open>A call the first step cannot make is made by the rest, one the rest cannot make by the first.\<close>

lemma made_rest:
  assumes c: "c \<in> set (made (io_bind m f) w)" and m: "never (\<lambda>d. d = c) m"
    and f: "\<And>x w w'. m w = (Inr x, w') \<Longrightarrow> grows (f x)"
  obtains x w1 where "m w = (Inr x, w1)" and "c \<in> set (made (f x) w1)"
  using c
proof (rule made_bindE [OF _ atmost_grows [OF m] f])
  assume "c \<in> set (made m w)"
  with never_made [OF m] show thesis by blast
qed (auto intro: that)

lemma made_first:
  assumes c: "c \<in> set (made (io_bind m f) w)" and m: "grows m"
    and f: "\<And>x w w'. m w = (Inr x, w') \<Longrightarrow> never (\<lambda>d. d = c) (f x)"
  shows "c \<in> set (made m w)"
  using c
proof (rule made_bindE [OF _ m atmost_grows [OF f]])
  fix x w1
  assume "m w = (Inr x, w1)" and "c \<in> set (made (f x) w1)"
  then show ?thesis
    using never_made [OF f] by blast
qed auto

text \<open>A call of a loop is a call of one of its rounds, from the world the earlier rounds leave.\<close>

lemma made_forE:
  assumes c: "c \<in> set (made (io_for xs f) w)" and f: "\<And>x. grows (f x)"
  obtains ys x zs v where "xs = ys @ x # zs" and "io_for ys f w = (Inr (), v)" and "c \<in> set (made (f x) v)"
proof -
  have "\<exists>ys x zs v. xs = ys @ x # zs \<and> io_for ys f w = (Inr (), v) \<and> c \<in> set (made (f x) v)"
    using c
  proof (induction xs arbitrary: w)
    case Nil
    then show ?case by simp
  next
    case (Cons x xs)
    from Cons.prems show ?case
      unfolding io_for.simps
    proof (rule made_bindE [OF _ f])
      assume "c \<in> set (made (f x) w)"
      then show ?thesis
        by (intro exI [of _ "[]"]) (simp add: io_ret_def)
    next
      fix u w1
      assume u: "f x w = (Inr u, w1)" and "c \<in> set (made (io_for xs f) w1)"
      with Cons.IH obtain ys y zs v where "xs = ys @ y # zs" "io_for ys f w1 = (Inr (), v)" "c \<in> set (made (f y) v)"
        by blast
      with u show ?thesis
        by (intro exI [of _ "x # ys"]) (auto simp: io_bind_def)
    qed (intro never_for f)
  qed
  then show thesis
    using that by blast
qed

text \<open>A read that begins a run leaves the rest of the run, on the environment after the read.\<close>

lemma run_try_ext:
  assumes "f (env w) = (r, e)"
  shows "io_bind (io_try (ext [] f)) g w = g r (w\<lparr>env := e\<rparr>)"
  using assms by (simp add: io_bind_def io_try_def ext_def)

lemma run_try: "m w = (r, w1) \<Longrightarrow> io_bind (io_try m) g w = g r w1"
  by (simp add: io_bind_def io_try_def)

lemma run_bind: "m w = (Inr x, w1) \<Longrightarrow> io_bind m g w = g x w1"
  by (simp add: io_bind_def)

lemma run_wrap: "m w = (Inr x, w1) \<Longrightarrow> io_wrap f m w = (Inr x, w1)"
  by (simp add: io_wrap_def)

lemma run_bind_error: "m w = (Inl e, w1) \<Longrightarrow> io_bind m g w = (Inl e, w1)"
  by (simp add: io_bind_def)

lemma run_wrap_error: "m w = (Inl e, w1) \<Longrightarrow> io_wrap f m w = (Inl (f e), w1)"
  by (simp add: io_wrap_def)

lemmas run_steps = run_bind run_bind_error run_wrap run_wrap_error

end
