(* ===== verification/Machine_Client.thy ===== *)
theory Machine_Client
  imports World
begin

text \<open>
  The seam between the machine controller and the Omni client: the interface
  \<open>machineOmniClient\<close> of \<open>controllers/machine_controller.go\<close> as a record of operations, and the
  contract the machine controller relies on as a locale: which resources each operation may act
  on, and that a reboot is one RPC. The Omni client provides it (\<open>Omni_Client\<close>).
\<close>

record 'e machineOmniClient =
  mc_EnsureMachineSetNode :: "string \<Rightarrow> string \<Rightarrow> string \<Rightarrow> string \<Rightarrow> ('e, unit) io"
  mc_DeleteMachineSetNode :: "string \<Rightarrow> ('e, unit) io"
  mc_EnsureConfigPatch ::
    "string \<Rightarrow> string \<Rightarrow> string \<Rightarrow> string \<Rightarrow> string option \<Rightarrow> ('e, unit) io"
  mc_PruneOrphanedConfigPatches :: "string \<Rightarrow> string \<Rightarrow> string list \<Rightarrow> ('e, unit) io"
  mc_DeleteConfigPatchesForMachine :: "string \<Rightarrow> string \<Rightarrow> ('e, unit) io"
  mc_EnsureMachineKernelArgs :: "string \<Rightarrow> string list \<Rightarrow> ('e, unit) io"
  mc_DeleteKernelArgsForMachine :: "string \<Rightarrow> ('e, unit) io"
  mc_RebootMachine :: "string \<Rightarrow> string \<Rightarrow> ('e, unit) io"

abbreviation outside :: "rtype \<Rightarrow> call \<Rightarrow> bool" where
  "outside t \<equiv> (\<lambda>c. call_type c \<noteq> Some t)"

locale machine_omni_client =
  fixes oc :: "'e machineOmniClient"
  assumes ensure_node_type: "never (outside MachineSetNodeType) (mc_EnsureMachineSetNode oc cn s m r)"
    and delete_node_type: "never (outside MachineSetNodeType) (mc_DeleteMachineSetNode oc m)"
    and ensure_patch_type: "never (outside ConfigPatchType) (mc_EnsureConfigPatch oc p cn s m d)"
    and prune_patch_type:
      "never (outside ConfigPatchType) (mc_PruneOrphanedConfigPatches oc cn m keep)"
    and delete_patch_type: "never (outside ConfigPatchType) (mc_DeleteConfigPatchesForMachine oc cn m)"
    and ensure_kernel_type: "never (outside KernelArgsType) (mc_EnsureMachineKernelArgs oc m args)"
    and delete_kernel_type: "never (outside KernelArgsType) (mc_DeleteKernelArgsForMachine oc m)"
    and reboot_once: "calls (snd (mc_RebootMachine oc cn a w)) = calls w @ [RebootRPC cn a]"

text \<open>A bound for a smaller class of calls follows from a bound for a larger one.\<close>

lemma atmost_mono: "atmost n P m \<Longrightarrow> (\<And>c. Q c \<Longrightarrow> P c) \<Longrightarrow> atmost n Q m"
proof -
  assume P: "atmost n P m" and sub: "\<And>c. Q c \<Longrightarrow> P c"
  have "length (filter Q cs) \<le> length (filter P cs)" for cs
    by (induction cs) (auto dest: sub)
  with P show "atmost n Q m"
    unfolding atmost_def by (meson le_trans)
qed

end
