(* ===== verification/Omni_Client.thy ===== *)
theory Omni_Client
  imports Machine_Client
begin

text \<open>
  \<open>controllers/omni_client.go\<close>: the operations the controllers perform on Omni's COSI state, its
  management API and its Talos proxy. Each definition has the name of its Go method; \<open>E\<close> stands
  for the client's connections. Reads go through \<open>StateGet\<close> and \<open>StateListAll\<close>, which refuse a
  resource of another type as \<open>safe.StateGet\<close> does.
\<close>

section \<open>Access to the COSI state\<close>

definition StateGet :: "'e ops \<Rightarrow> rtype \<Rightarrow> string \<Rightarrow> ('e, resource) io" where
  "StateGet E t i =
     io_bind (ext [] (cosi_Get E t i))
       (\<lambda>r. if r_Type r = t then io_ret r else io_raise (Errorf ''type mismatch''))"

definition StateListAll :: "'e ops \<Rightarrow> rtype \<Rightarrow> label_term list \<Rightarrow> ('e, resource list) io" where
  "StateListAll E t q =
     io_bind (ext [] (cosi_List E t q))
       (\<lambda>rs. if list_all (\<lambda>r. r_Type r = t) rs then io_ret rs
              else io_raise (Errorf ''type mismatch''))"

definition StateCreate :: "'e ops \<Rightarrow> resource \<Rightarrow> ('e, unit) io" where
  "StateCreate E r = ext [CreateResource r] (cosi_Create E r)"

definition StateUpdate :: "'e ops \<Rightarrow> resource \<Rightarrow> ('e, unit) io" where
  "StateUpdate E r = ext [UpdateResource r] (cosi_Update E r)"

definition StateTeardown :: "'e ops \<Rightarrow> rtype \<Rightarrow> string \<Rightarrow> ('e, bool) io" where
  "StateTeardown E t i = ext [TeardownResource t i] (cosi_Teardown E t i)"

definition StateDestroy :: "'e ops \<Rightarrow> rtype \<Rightarrow> string \<Rightarrow> ('e, unit) io" where
  "StateDestroy E t i = ext [DestroyResource t i] (cosi_Destroy E t i)"

text \<open>
  Go's static types give the result of a constructor or of a setter its type; in the model,
  where all specs share one datatype, \<open>with_spec\<close> gives it by writing the spec whole.
\<close>

definition with_spec :: "typed_spec \<Rightarrow> resource \<Rightarrow> resource" where
  "with_spec s r = r\<lparr>r_Spec := s\<rparr>"

lemma with_spec_simps [simp]:
  "r_ID (with_spec s r) = r_ID r"
  "r_Labels (with_spec s r) = r_Labels r"
  "r_Spec (with_spec s r) = s"
  "get_label k (with_spec s r) = get_label k r"
  by (simp_all add: with_spec_def get_label_def)

section \<open>Drift and reboots\<close>

record MachineConfigDrift =
  mcd_MachineID :: string
  mcd_ManagementAddress :: string

definition cms_healthy :: "cluster_machine_status \<Rightarrow> bool" where
  "cms_healthy s \<longleftrightarrow> cms_Stage s = RUNNING \<and> cms_Ready s"

definition cms_drifting :: "cluster_machine_status \<Rightarrow> bool" where
  "cms_drifting s \<longleftrightarrow> \<not> cms_ConfigUpToDate s \<and> cms_LastConfigError s = ''''"

definition drift_of :: "resource \<Rightarrow> MachineConfigDrift" where
  "drift_of r = \<lparr>mcd_MachineID = r_ID r, mcd_ManagementAddress = cms_ManagementAddress (cms (r_Spec r))\<rparr>"

definition GetDriftingMachines :: "'e ops \<Rightarrow> string \<Rightarrow> ('e, MachineConfigDrift list) io" where
  "GetDriftingMachines E clusterName =
     io_bind
       (io_wrap (\<lambda>e. Wrapf (''list cluster machine statuses for '' @ clusterName @ '': '') e '''')
          (StateListAll E ClusterMachineStatusType [LabelEqual (omni_LabelCluster E) clusterName]))
       (\<lambda>rs. if \<not> list_all (\<lambda>r. cms_healthy (cms (r_Spec r))) rs then io_ret []
              else io_ret (map drift_of (filter (\<lambda>r. cms_drifting (cms (r_Spec r))) rs)))"

definition RebootMachine :: "'e ops \<Rightarrow> string \<Rightarrow> string \<Rightarrow> ('e, unit) io" where
  "RebootMachine E clusterName managementAddress =
     io_wrap
       (\<lambda>e. Wrapf (''reboot machine at '' @ managementAddress @ '' in cluster '' @ clusterName @ '': '') e '''')
       (ext [RebootRPC clusterName managementAddress] (omni_Reboot E clusterName managementAddress))"

section \<open>Clusters\<close>

record ClusterStatus =
  cs_Phase :: string
  cs_Ready :: bool

definition ownerLabel :: string where
  "ownerLabel = ''omni.gitops.dev/owner''"

definition EnsureCluster ::
  "'e ops \<Rightarrow> string \<Rightarrow> string \<Rightarrow> string \<Rightarrow> string \<Rightarrow> ('e, unit) io" where
  "EnsureCluster E name owner kubeVersion talosVersion =
     io_bind (io_try (StateGet E ClusterType name)) (\<lambda>got.
       case got of
         Inl err \<Rightarrow>
           if IsNotFoundError err
           then StateCreate E
                  (with_spec (ClusterSpec kubeVersion talosVersion)
                    (set_label ownerLabel owner (omni_New E ClusterType name)))
           else io_raise (Wrapf ''get cluster: '' err '''')
       | Inr existing \<Rightarrow>
           let currentOwner = get_label ownerLabel existing;
               labelled = (if currentOwner = None then set_label ownerLabel owner existing else existing);
               stale = (KubernetesVersion (r_Spec existing) \<noteq> kubeVersion \<or>
                        TalosVersion (r_Spec existing) \<noteq> talosVersion);
               updated = (if stale then with_spec (ClusterSpec kubeVersion talosVersion) labelled
                          else labelled)
           in if currentOwner \<noteq> None \<and> currentOwner \<noteq> Some owner
              then io_raise (Wrapf '''' ErrClusterOwnershipConflict
                     ('': omni cluster '' @ go_quote name @ '' is owned by '' @ the currentOwner @
                      '', refusing to adopt (this OmniCluster is '' @ owner @ '')''))
              else if currentOwner = None \<or> stale then StateUpdate E updated
              else io_ret ())"

definition ClusterOwner :: "'e ops \<Rightarrow> string \<Rightarrow> ('e, string option) io" where
  "ClusterOwner E clusterName =
     io_bind (io_try (StateGet E ClusterType clusterName)) (\<lambda>got.
       case got of
         Inl err \<Rightarrow>
           if IsNotFoundError err then io_ret None
           else io_raise (Wrapf (''get cluster '' @ clusterName @ '': '') err '''')
       | Inr existing \<Rightarrow> io_ret (get_label ownerLabel existing))"

definition GetClusterStatus :: "'e ops \<Rightarrow> string \<Rightarrow> ('e, ClusterStatus) io" where
  "GetClusterStatus E clusterName =
     io_bind (io_try (StateGet E ClusterStatusType clusterName)) (\<lambda>got.
       case got of
         Inl err \<Rightarrow>
           if IsNotFoundError err then io_ret \<lparr>cs_Phase = ''Unknown'', cs_Ready = False\<rparr>
           else io_raise (Wrapf ''get cluster status: '' err '''')
       | Inr s \<Rightarrow> io_ret \<lparr>cs_Phase = Phase (r_Spec s), cs_Ready = KubernetesAPIReady (r_Spec s)\<rparr>)"

definition flux_admin :: service_account where
  "flux_admin = \<lparr>sa_TTL = 90 * 24 * hour, sa_User = ''flux-admin'', sa_Groups = [''system:masters'']\<rparr>"

definition GetKubeconfig :: "'e ops \<Rightarrow> string \<Rightarrow> ('e, string) io" where
  "GetKubeconfig E clusterName =
     io_wrap (\<lambda>e. Wrapf (''get kubeconfig for '' @ clusterName @ '': '') e '''')
       (ext [KubeconfigRPC clusterName flux_admin] (omni_Kubeconfig E clusterName flux_admin))"

section \<open>Removing resources\<close>

definition teardownAndDestroy :: "'e ops \<Rightarrow> rtype \<Rightarrow> string \<Rightarrow> string \<Rightarrow> ('e, unit) io" where
  "teardownAndDestroy E t i desc =
     io_bind (io_try (StateTeardown E t i)) (\<lambda>r.
       case r of
         Inl err \<Rightarrow>
           if IsNotFoundError err then io_ret ()
           else io_raise (Wrapf (''teardown '' @ desc @ '': '') err '''')
       | Inr ready \<Rightarrow>
           if \<not> ready then io_raise (Errorf (desc @ '' teardown in progress, will retry''))
           else io_bind (io_try (StateDestroy E t i)) (\<lambda>d.
                  case d of
                    Inl err \<Rightarrow>
                      if IsNotFoundError err then io_ret ()
                      else io_raise (Wrapf (''destroy '' @ desc @ '': '') err '''')
                  | Inr _ \<Rightarrow> io_ret ()))"

definition DeleteMachineSet :: "'e ops \<Rightarrow> string \<Rightarrow> ('e, unit) io" where
  "DeleteMachineSet E machineSetID =
     teardownAndDestroy E MachineSetType machineSetID (''machine set '' @ machineSetID)"

definition DeleteMachineSetNode :: "'e ops \<Rightarrow> string \<Rightarrow> ('e, unit) io" where
  "DeleteMachineSetNode E machineID =
     teardownAndDestroy E MachineSetNodeType machineID (''machine set node '' @ machineID)"

definition DeleteKernelArgsForMachine :: "'e ops \<Rightarrow> string \<Rightarrow> ('e, unit) io" where
  "DeleteKernelArgsForMachine E machineID =
     teardownAndDestroy E KernelArgsType machineID (''kernel args for machine '' @ machineID)"

definition schematicID :: "string \<Rightarrow> string" where
  "schematicID machineSetID = ''schematic-'' @ machineSetID"

definition DeleteExtensionsConfigurationForMachineSet :: "'e ops \<Rightarrow> string \<Rightarrow> ('e, unit) io" where
  "DeleteExtensionsConfigurationForMachineSet E machineSetID =
     teardownAndDestroy E ExtensionsConfigurationType (schematicID machineSetID)
       (''extensions configuration for machine set '' @ machineSetID)"

definition DeleteCluster :: "'e ops \<Rightarrow> string \<Rightarrow> ('e, unit) io" where
  "DeleteCluster E clusterName =
     teardownAndDestroy E ClusterType clusterName (''cluster '' @ clusterName)"

section \<open>Machine sets\<close>

definition EnsureMachineSet :: "'e ops \<Rightarrow> string \<Rightarrow> string \<Rightarrow> string \<Rightarrow> ('e, unit) io" where
  "EnsureMachineSet E clusterName machineSetID role =
     io_bind (io_try (StateGet E MachineSetType machineSetID)) (\<lambda>got.
       case got of
         Inr _ \<Rightarrow> io_ret ()
       | Inl err \<Rightarrow>
           if \<not> IsNotFoundError err
           then io_raise (Wrapf (''get machine set '' @ machineSetID @ '': '') err '''')
           else StateCreate E
                  (set_label role ''''
                    (set_label (omni_LabelCluster E) clusterName
                      (with_spec MachineSetSpec (omni_New E MachineSetType machineSetID)))))"

definition ListMachineSetIDsForCluster :: "'e ops \<Rightarrow> string \<Rightarrow> ('e, string list) io" where
  "ListMachineSetIDsForCluster E clusterName =
     io_bind
       (io_wrap (\<lambda>e. Wrapf (''list machine sets for '' @ clusterName @ '': '') e '''')
          (StateListAll E MachineSetType [LabelEqual (omni_LabelCluster E) clusterName]))
       (\<lambda>rs. io_ret (map r_ID rs))"

definition AllocatedMachineSetNodes :: "'e ops \<Rightarrow> string \<Rightarrow> ('e, string list) io" where
  "AllocatedMachineSetNodes E machineSetID =
     io_bind
       (io_wrap (\<lambda>e. Wrapf (''list machine set nodes for '' @ machineSetID @ '': '') e '''')
          (StateListAll E MachineSetNodeType [LabelEqual (omni_LabelMachineSet E) machineSetID]))
       (\<lambda>rs. io_ret (map r_ID rs))"

section \<open>Selecting machines\<close>

definition expression_terms :: "label_requirement \<Rightarrow> label_term list" where
  "expression_terms x =
     (if lsr_Operator x = ''In'' then [LabelIn (lsr_Key x) (lsr_Values x)]
      else if lsr_Operator x = ''NotIn'' then [LabelNotIn (lsr_Key x) (lsr_Values x)]
      else if lsr_Operator x = ''Exists'' then [LabelExists (lsr_Key x)]
      else if lsr_Operator x = ''DoesNotExist'' then [LabelNotExists (lsr_Key x)]
      else [])"

definition selector_query :: "'e ops \<Rightarrow> label_selector \<Rightarrow> label_term list" where
  "selector_query E sel =
     LabelExists (omni_MachineStatusLabelAvailable E)
     # map (\<lambda>(k, v). LabelEqual k v) (ls_MatchLabels sel)
     @ concat (map expression_terms (ls_MatchExpressions sel))"

definition matching_ids :: "((string, string) gomap \<Rightarrow> bool) \<Rightarrow> resource list \<Rightarrow> string list" where
  "matching_ids selector rs = map r_ID (filter (\<lambda>r. selector (r_Labels r)) rs)"

definition SelectAvailableMachines ::
  "'e ops \<Rightarrow> label_selector \<Rightarrow> nat \<Rightarrow> ('e, string list) io" where
  "SelectAvailableMachines E sel limit =
     io_bind
       (io_wrap (\<lambda>e. Wrapf ''invalid machine selector: '' e '''')
          (io_lift (k8s_LabelSelectorAsSelector E sel)))
       (\<lambda>selector.
          io_bind
            (io_wrap (\<lambda>e. Wrapf ''list machine statuses: '' e '''')
               (StateListAll E MachineStatusType (selector_query E sel)))
            (\<lambda>rs. let ids = sort (matching_ids selector rs)
                  in io_ret (if limit < length ids then take limit ids else ids)))"

section \<open>Machine health\<close>

record MachineHealth =
  mh_Connected :: bool
  mh_Ready :: bool

text \<open>A map read of an absent key gives the zero value.\<close>

definition health_at :: "(string, MachineHealth) gomap \<Rightarrow> string \<Rightarrow> MachineHealth" where
  "health_at health i =
     (case map_of health i of None \<Rightarrow> \<lparr>mh_Connected = False, mh_Ready = False\<rparr> | Some h \<Rightarrow> h)"

definition record_ready ::
  "resource \<Rightarrow> (string, MachineHealth) gomap \<Rightarrow> (string, MachineHealth) gomap" where
  "record_ready r health =
     (let s = cms (r_Spec r)
      in AList.update (r_ID r)
           ((health_at health (r_ID r))\<lparr>mh_Ready := cms_Ready s \<and> cms_Stage s = RUNNING\<rparr>) health)"

fun record_connected ::
  "'e ops \<Rightarrow> string list \<Rightarrow> (string, MachineHealth) gomap \<Rightarrow> ('e, (string, MachineHealth) gomap) io"
  where
  "record_connected E [] health = io_ret health"
| "record_connected E (i # is) health =
     io_bind (io_try (StateGet E MachineStatusType i)) (\<lambda>got.
       case got of
         Inl err \<Rightarrow>
           if IsNotFoundError err then record_connected E is health
           else io_raise (Wrapf (''get machine status '' @ i @ '': '') err '''')
       | Inr ms \<Rightarrow>
           record_connected E is
             (AList.update i ((health_at health i)\<lparr>mh_Connected := Connected (r_Spec ms)\<rparr>) health))"

definition MachineSetNodeHealth :: "'e ops \<Rightarrow> string \<Rightarrow> ('e, (string, MachineHealth) gomap) io" where
  "MachineSetNodeHealth E machineSetID =
     io_bind
       (io_wrap (\<lambda>e. Wrapf (''list cluster machine statuses for '' @ machineSetID @ '': '') e '''')
          (StateListAll E ClusterMachineStatusType [LabelEqual (omni_LabelMachineSet E) machineSetID]))
       (\<lambda>rs. let health = fold record_ready rs []
             in record_connected E (map_order E (map fst health)) health)"

section \<open>Binding machines\<close>

definition machine_set_node :: "'e ops \<Rightarrow> string \<Rightarrow> string \<Rightarrow> string \<Rightarrow> string \<Rightarrow> resource" where
  "machine_set_node E clusterName machineSetID machineID role =
     with_spec MachineSetNodeSpec
       (omni_NewMachineSetNode E machineID
         (set_label role ''''
           (set_label (omni_LabelCluster E) clusterName
             (with_spec MachineSetSpec (omni_New E MachineSetType machineSetID)))))"

definition EnsureMachineSetNode ::
  "'e ops \<Rightarrow> string \<Rightarrow> string \<Rightarrow> string \<Rightarrow> string \<Rightarrow> ('e, unit) io" where
  "EnsureMachineSetNode E clusterName machineSetID machineID role =
     io_bind
       (io_try (StateCreate E (machine_set_node E clusterName machineSetID machineID role)))
       (\<lambda>created.
          case created of
            Inr _ \<Rightarrow> io_ret ()
          | Inl err \<Rightarrow>
              if \<not> IsConflictError err
              then io_raise
                     (Wrapf (''create machine set node '' @ machineID @ '' in '' @ machineSetID @ '': '') err '''')
              else io_bind
                     (io_wrap (\<lambda>e. Wrapf (''verify existing machine set node '' @ machineID @ '': '') e '''')
                        (StateGet E MachineSetNodeType machineID))
                     (\<lambda>existing.
                        case get_label (omni_LabelMachineSet E) existing of
                          None \<Rightarrow> io_raise (Errorf
                            (''machine '' @ machineID @ '' already has a machine set node without a '' @
                             omni_LabelMachineSet E @ '' label, cannot bind to '' @ machineSetID))
                        | Some boundSet \<Rightarrow>
                            if boundSet \<noteq> machineSetID
                            then io_raise (Errorf
                              (''machine '' @ machineID @ '' is already bound to machine set '' @
                               boundSet @ '', cannot bind to '' @ machineSetID))
                            else io_ret ()))"

section \<open>Config patches, extensions, kernel arguments\<close>

definition RawMessage_MarshalJSON :: "string option \<Rightarrow> string" where
  "RawMessage_MarshalJSON inline = (case inline of None \<Rightarrow> ''null'' | Some m \<Rightarrow> m)"

definition jsonEqual :: "'e ops \<Rightarrow> string \<Rightarrow> string \<Rightarrow> bool" where
  "jsonEqual E a b =
     (case json_Unmarshal E a of
        None \<Rightarrow> False
      | Some va \<Rightarrow> (case json_Unmarshal E b of None \<Rightarrow> False | Some vb \<Rightarrow> va = vb))"

definition set_patch_data :: "'e ops \<Rightarrow> string \<Rightarrow> resource \<Rightarrow> ('e, resource) io" where
  "set_patch_data E data r =
     io_bind
       (io_wrap (\<lambda>e. Wrapf ''set config patch data: '' e '''')
          (io_lift (omni_SetUncompressedData E data (patch_data (r_Spec r)))))
       (\<lambda>d. io_ret (with_spec (ConfigPatchSpec d) r))"

definition new_config_patch ::
  "'e ops \<Rightarrow> string \<Rightarrow> string \<Rightarrow> string \<Rightarrow> string \<Rightarrow> resource" where
  "new_config_patch E patchID clusterName machineSetID machineID =
     omni_NewConfigPatch E patchID
       [(omni_LabelCluster E, clusterName),
        (omni_LabelMachineSet E, machineSetID),
        (omni_LabelClusterMachine E, machineID)]"

definition EnsureConfigPatch ::
  "'e ops \<Rightarrow> string \<Rightarrow> string \<Rightarrow> string \<Rightarrow> string \<Rightarrow> string option \<Rightarrow> ('e, unit) io" where
  "EnsureConfigPatch E patchID clusterName machineSetID machineID inline =
     (let data = RawMessage_MarshalJSON inline
      in io_bind (io_try (StateGet E ConfigPatchType patchID)) (\<lambda>got.
           case got of
             Inl err \<Rightarrow>
               if IsNotFoundError err
               then io_bind
                      (set_patch_data E data
                        (new_config_patch E patchID clusterName machineSetID machineID))
                      (StateCreate E)
               else io_raise (Wrapf (''get config patch '' @ patchID @ '': '') err '''')
           | Inr existing \<Rightarrow>
               io_bind
                 (io_wrap (\<lambda>e. Wrapf ''get existing config patch data: '' e '''')
                    (io_lift (omni_GetUncompressedData E (patch_data (r_Spec existing)))))
                 (\<lambda>buf.
                    if \<not> jsonEqual E buf data
                    then io_bind (set_patch_data E data existing) (StateUpdate E)
                    else io_ret ())))"

fun stringSlicesEqual :: "string list \<Rightarrow> string list \<Rightarrow> bool" where
  "stringSlicesEqual [] [] = True"
| "stringSlicesEqual (a # as) (b # bs) = (if a \<noteq> b then False else stringSlicesEqual as bs)"
| "stringSlicesEqual _ _ = False"

definition EnsureMachineSetExtensionsConfiguration ::
  "'e ops \<Rightarrow> string \<Rightarrow> string \<Rightarrow> string list \<Rightarrow> ('e, unit) io" where
  "EnsureMachineSetExtensionsConfiguration E clusterName machineSetID extensions =
     (let i = schematicID machineSetID
      in io_bind (io_try (StateGet E ExtensionsConfigurationType i)) (\<lambda>got.
           case got of
             Inl err \<Rightarrow>
               if IsNotFoundError err
               then StateCreate E
                      (with_spec (ExtensionsConfigurationSpec extensions)
                        (set_label (omni_LabelMachineSet E) machineSetID
                          (set_label (omni_LabelCluster E) clusterName
                            (omni_New E ExtensionsConfigurationType i))))
               else io_raise (Wrapf (''get extensions configuration '' @ i @ '': '') err '''')
           | Inr existing \<Rightarrow>
               if \<not> stringSlicesEqual (Extensions (r_Spec existing)) extensions
               then StateUpdate E (with_spec (ExtensionsConfigurationSpec extensions) existing)
               else io_ret ()))"

definition EnsureMachineKernelArgs :: "'e ops \<Rightarrow> string \<Rightarrow> string list \<Rightarrow> ('e, unit) io" where
  "EnsureMachineKernelArgs E machineID args =
     io_bind (io_try (StateGet E KernelArgsType machineID)) (\<lambda>got.
       case got of
         Inl err \<Rightarrow>
           if IsNotFoundError err
           then StateCreate E (with_spec (KernelArgsSpec args) (omni_New E KernelArgsType machineID))
           else io_raise (Wrapf (''get kernel args '' @ machineID @ '': '') err '''')
       | Inr existing \<Rightarrow>
           if \<not> stringSlicesEqual (Args (r_Spec existing)) args
           then StateUpdate E (with_spec (KernelArgsSpec args) existing)
           else io_ret ())"

text \<open>The deletions of a list of patches; every one is attempted and the errors are collected.\<close>

fun teardown_patches :: "'e ops \<Rightarrow> string \<Rightarrow> resource list \<Rightarrow> ('e, goerror list) io" where
  "teardown_patches E desc [] = io_ret []"
| "teardown_patches E desc (p # ps) =
     io_bind (io_try (teardownAndDestroy E ConfigPatchType (r_ID p) (desc @ r_ID p))) (\<lambda>r.
       io_bind (teardown_patches E desc ps) (\<lambda>errs.
         io_ret (case r of Inl e \<Rightarrow> e # errs | Inr _ \<Rightarrow> errs)))"

definition errs_text :: "goerror list \<Rightarrow> string" where
  "errs_text errs = ''['' @ join '' '' (map err_msg errs) @ '']''"

definition patches_of_machine :: "'e ops \<Rightarrow> string \<Rightarrow> string \<Rightarrow> ('e, resource list) io" where
  "patches_of_machine E clusterName machineID =
     io_wrap (\<lambda>e. Wrapf (''list config patches for machine '' @ machineID @ '': '') e '''')
       (StateListAll E ConfigPatchType
          [LabelEqual (omni_LabelCluster E) clusterName,
           LabelEqual (omni_LabelClusterMachine E) machineID])"

definition DeleteConfigPatchesForMachine :: "'e ops \<Rightarrow> string \<Rightarrow> string \<Rightarrow> ('e, unit) io" where
  "DeleteConfigPatchesForMachine E clusterName machineID =
     io_bind (patches_of_machine E clusterName machineID) (\<lambda>ps.
       io_bind (teardown_patches E ''config patch '' ps) (\<lambda>errs.
         if errs \<noteq> []
         then io_raise (Errorf (''delete config patches for machine '' @ machineID @ '': '' @ errs_text errs))
         else io_ret ()))"

definition PruneOrphanedConfigPatches ::
  "'e ops \<Rightarrow> string \<Rightarrow> string \<Rightarrow> string list \<Rightarrow> ('e, unit) io" where
  "PruneOrphanedConfigPatches E clusterName machineID keepIDs =
     io_bind (patches_of_machine E clusterName machineID) (\<lambda>ps.
       io_bind
         (teardown_patches E ''orphaned config patch '' (filter (\<lambda>p. r_ID p \<notin> set keepIDs) ps))
         (\<lambda>errs.
            if errs \<noteq> []
            then io_raise (Errorf (''prune config patches for machine '' @ machineID @ '': '' @ errs_text errs))
            else io_ret ()))"

section \<open>What each operation may touch\<close>

lemma atmost_StateGet [effects]: "atmost n Q (StateGet E t i)"
  unfolding StateGet_def
  by (rule atmost_bind_first) (simp add: atmost_ext, intro effects)

lemma atmost_StateListAll [effects]: "atmost n Q (StateListAll E t q)"
  unfolding StateListAll_def
  by (rule atmost_bind_first) (simp add: atmost_ext, intro effects)

lemma StateGet_type: "StateGet E t i w = (Inr r, w') \<Longrightarrow> r_Type r = t"
  by (auto simp: StateGet_def io_iff split: if_splits)

lemma StateListAll_type: "StateListAll E t q w = (Inr rs, w') \<Longrightarrow> \<forall>r \<in> set rs. r_Type r = t"
  by (auto simp: StateListAll_def io_iff list_all_iff split: if_splits)

lemma never_StateCreate [effects]: "\<not> Q (CreateResource r) \<Longrightarrow> never Q (StateCreate E r)"
  by (simp add: StateCreate_def atmost_ext)

lemma never_StateUpdate [effects]: "\<not> Q (UpdateResource r) \<Longrightarrow> never Q (StateUpdate E r)"
  by (simp add: StateUpdate_def atmost_ext)

lemma never_StateTeardown [effects]: "\<not> Q (TeardownResource t i) \<Longrightarrow> never Q (StateTeardown E t i)"
  by (simp add: StateTeardown_def atmost_ext)

lemma never_StateDestroy [effects]: "\<not> Q (DestroyResource t i) \<Longrightarrow> never Q (StateDestroy E t i)"
  by (simp add: StateDestroy_def atmost_ext)

lemma never_teardownAndDestroy [effects]:
  "\<not> Q (TeardownResource t i) \<Longrightarrow> \<not> Q (DestroyResource t i) \<Longrightarrow>
   never Q (teardownAndDestroy E t i d)"
  unfolding teardownAndDestroy_def by (intro effects; simp)

lemma atmost_ClusterOwner [effects]: "never Q (ClusterOwner E cn)"
  unfolding ClusterOwner_def by (intro effects; simp)

lemma atmost_GetClusterStatus [effects]: "never Q (GetClusterStatus E cn)"
  unfolding GetClusterStatus_def by (intro effects; simp)

lemma atmost_GetDriftingMachines [effects]: "never Q (GetDriftingMachines E cn)"
  unfolding GetDriftingMachines_def by (intro effects; simp)

lemma atmost_ListMachineSetIDsForCluster [effects]: "never Q (ListMachineSetIDsForCluster E cn)"
  unfolding ListMachineSetIDsForCluster_def by (intro effects; simp)

lemma atmost_AllocatedMachineSetNodes [effects]: "never Q (AllocatedMachineSetNodes E s)"
  unfolding AllocatedMachineSetNodes_def by (intro effects; simp)

lemma atmost_SelectAvailableMachines [effects]: "never Q (SelectAvailableMachines E sel k)"
  unfolding SelectAvailableMachines_def Let_def by (intro effects; simp)

lemma atmost_record_connected [effects]: "never Q (record_connected E is health)"
proof (induction "is" arbitrary: health)
  case Nil
  show ?case by (simp add: atmost_ret)
next
  case (Cons i "is")
  show ?case
    unfolding record_connected.simps by (intro effects Cons.IH)
qed

lemma atmost_MachineSetNodeHealth [effects]: "never Q (MachineSetNodeHealth E s)"
  unfolding MachineSetNodeHealth_def Let_def by (intro effects; simp)

lemma atmost_patches_of_machine [effects]: "never Q (patches_of_machine E cn m)"
  unfolding patches_of_machine_def by (intro effects)

lemma atmost_set_patch_data [effects]: "never Q (set_patch_data E d r)"
  unfolding set_patch_data_def by (intro effects)

lemma never_teardown_patches [effects]:
  "(\<And>i. \<not> Q (TeardownResource ConfigPatchType i)) \<Longrightarrow> (\<And>i. \<not> Q (DestroyResource ConfigPatchType i)) \<Longrightarrow>
   never Q (teardown_patches E d ps)"
proof (induction ps)
  case Nil
  show ?case by (simp add: atmost_ret)
next
  case (Cons p ps)
  show ?case
    unfolding teardown_patches.simps by (intro effects Cons)
qed

text \<open>
  The shape the \<open>Ensure\<close> operations share: at most one write, of one type of resource. What
  follows for a client (it removes nothing, it reboots nothing) is proved once.
\<close>

locale ensure_operation =
  fixes op :: "('e, unit) io" and t :: rtype
  assumes one_write: "atmost 1 (\<lambda>c. True) op"
    and writes_type: "never (outside t) op"
    and removes_nothing: "never is_removal op"
begin

lemma not_a_reboot: "never is_reboot op"
  by (rule atmost_mono [OF writes_type]) (auto elim: is_reboot.elims)

lemma not_a_k8s_call: "never (\<lambda>c. call_type c = None) op"
  by (rule atmost_mono [OF writes_type]) simp

lemma at_most_one_call: "\<exists>cs. calls (snd (op w)) = calls w @ cs \<and> length cs \<le> 1"
  using atmostD [OF one_write, of w] by simp

lemma call_is_a_write_of_type:
  assumes "calls (snd (op w)) = calls w @ cs" and "c \<in> set cs"
  shows "call_type c = Some t \<and> \<not> is_removal c"
proof -
  obtain ds where ds: "calls (snd (op w)) = calls w @ ds" "filter (outside t) ds = []"
    using atmostD [OF writes_type, of w] by auto
  obtain es where es: "calls (snd (op w)) = calls w @ es" "filter is_removal es = []"
    using atmostD [OF removes_nothing, of w] by auto
  have "ds = cs" "es = cs"
    using assms(1) ds(1) es(1) by simp_all
  with assms(2) ds(2) es(2) show ?thesis
    by (auto simp: filter_empty_conv)
qed

end

lemma atmost_one_StateCreate: "atmost 1 Q (StateCreate E r)"
  unfolding StateCreate_def by (rule atmost_ext) (cases "Q (CreateResource r)"; simp)

lemma atmost_one_StateUpdate: "atmost 1 Q (StateUpdate E r)"
  unfolding StateUpdate_def by (rule atmost_ext) (cases "Q (UpdateResource r)"; simp)

lemmas one_write_rules = atmost_one_StateCreate atmost_one_StateUpdate atmost_ret atmost_raise
  atmost_if atmost_sum atmost_option atmost_Let

interpretation ensureCluster_op: ensure_operation "EnsureCluster E name owner kube talos" ClusterType
  for E :: "'e ops" and name owner kube talos
proof
  show "atmost 1 (\<lambda>c. True) (EnsureCluster E name owner kube talos)"
    unfolding EnsureCluster_def Let_def
    by (rule atmost_bind_first, intro effects) (intro one_write_rules)
  show "never (outside ClusterType) (EnsureCluster E name owner kube talos)"
    unfolding EnsureCluster_def Let_def by (intro effects; auto simp: io_iff dest: StateGet_type)
  show "never is_removal (EnsureCluster E name owner kube talos)"
    unfolding EnsureCluster_def Let_def by (intro effects; simp)
qed

interpretation ensureMachineSet_op: ensure_operation "EnsureMachineSet E cn s role" MachineSetType
  for E :: "'e ops" and cn s role
proof
  show "atmost 1 (\<lambda>c. True) (EnsureMachineSet E cn s role)"
    unfolding EnsureMachineSet_def
    by (rule atmost_bind_first, intro effects) (intro one_write_rules)
  show "never (outside MachineSetType) (EnsureMachineSet E cn s role)"
    unfolding EnsureMachineSet_def by (intro effects; simp)
  show "never is_removal (EnsureMachineSet E cn s role)"
    unfolding EnsureMachineSet_def by (intro effects; simp)
qed

interpretation ensureMachineSetNode_op:
  ensure_operation "EnsureMachineSetNode E cn s m role" MachineSetNodeType
  for E :: "'e ops" and cn s m role
proof
  show "atmost 1 (\<lambda>c. True) (EnsureMachineSetNode E cn s m role)"
    unfolding EnsureMachineSetNode_def
    by (rule atmost_bind_last, intro one_write_rules effects) (intro effects)
  show "never (outside MachineSetNodeType) (EnsureMachineSetNode E cn s m role)"
    unfolding EnsureMachineSetNode_def machine_set_node_def by (intro effects; simp)
  show "never is_removal (EnsureMachineSetNode E cn s m role)"
    unfolding EnsureMachineSetNode_def by (intro effects; simp)
qed

interpretation ensureConfigPatch_op: ensure_operation "EnsureConfigPatch E p cn s m d" ConfigPatchType
  for E :: "'e ops" and p cn s m d
proof
  have spec: "set_patch_data E d r w = (Inr r', w') \<Longrightarrow> r_Type r' = ConfigPatchType" for d r w r' w'
    by (auto simp: set_patch_data_def io_iff)
  show "atmost 1 (\<lambda>c. True) (EnsureConfigPatch E p cn s m d)"
    unfolding EnsureConfigPatch_def Let_def
    by (rule atmost_bind_first, intro effects)
      (intro one_write_rules atmost_bind_first [OF atmost_set_patch_data]
         atmost_bind_first [OF atmost_wrap [OF atmost_lift]])
  show "never (outside ConfigPatchType) (EnsureConfigPatch E p cn s m d)"
    unfolding EnsureConfigPatch_def Let_def by (intro effects; auto dest: spec)
  show "never is_removal (EnsureConfigPatch E p cn s m d)"
    unfolding EnsureConfigPatch_def Let_def by (intro effects; simp)
qed

interpretation ensureExtensions_op:
  ensure_operation "EnsureMachineSetExtensionsConfiguration E cn s xs" ExtensionsConfigurationType
  for E :: "'e ops" and cn s xs
proof
  show "atmost 1 (\<lambda>c. True) (EnsureMachineSetExtensionsConfiguration E cn s xs)"
    unfolding EnsureMachineSetExtensionsConfiguration_def Let_def
    by (rule atmost_bind_first, intro effects) (intro one_write_rules)
  show "never (outside ExtensionsConfigurationType) (EnsureMachineSetExtensionsConfiguration E cn s xs)"
    unfolding EnsureMachineSetExtensionsConfiguration_def Let_def by (intro effects; simp)
  show "never is_removal (EnsureMachineSetExtensionsConfiguration E cn s xs)"
    unfolding EnsureMachineSetExtensionsConfiguration_def Let_def by (intro effects; simp)
qed

interpretation ensureKernelArgs_op: ensure_operation "EnsureMachineKernelArgs E m args" KernelArgsType
  for E :: "'e ops" and m args
proof
  show "atmost 1 (\<lambda>c. True) (EnsureMachineKernelArgs E m args)"
    unfolding EnsureMachineKernelArgs_def
    by (rule atmost_bind_first, intro effects) (intro one_write_rules)
  show "never (outside KernelArgsType) (EnsureMachineKernelArgs E m args)"
    unfolding EnsureMachineKernelArgs_def by (intro effects; simp)
  show "never is_removal (EnsureMachineKernelArgs E m args)"
    unfolding EnsureMachineKernelArgs_def by (intro effects; simp)
qed

section \<open>The client provides the machine controller's interface\<close>

definition OmniClient :: "'e ops \<Rightarrow> 'e machineOmniClient" where
  "OmniClient E =
     \<lparr>mc_EnsureMachineSetNode = EnsureMachineSetNode E,
      mc_DeleteMachineSetNode = DeleteMachineSetNode E,
      mc_EnsureConfigPatch = EnsureConfigPatch E,
      mc_PruneOrphanedConfigPatches = PruneOrphanedConfigPatches E,
      mc_DeleteConfigPatchesForMachine = DeleteConfigPatchesForMachine E,
      mc_EnsureMachineKernelArgs = EnsureMachineKernelArgs E,
      mc_DeleteKernelArgsForMachine = DeleteKernelArgsForMachine E,
      mc_RebootMachine = RebootMachine E\<rparr>"

lemma OmniClient_simps [simp]:
  "mc_EnsureMachineSetNode (OmniClient E) = EnsureMachineSetNode E"
  "mc_DeleteMachineSetNode (OmniClient E) = DeleteMachineSetNode E"
  "mc_EnsureConfigPatch (OmniClient E) = EnsureConfigPatch E"
  "mc_PruneOrphanedConfigPatches (OmniClient E) = PruneOrphanedConfigPatches E"
  "mc_DeleteConfigPatchesForMachine (OmniClient E) = DeleteConfigPatchesForMachine E"
  "mc_EnsureMachineKernelArgs (OmniClient E) = EnsureMachineKernelArgs E"
  "mc_DeleteKernelArgsForMachine (OmniClient E) = DeleteKernelArgsForMachine E"
  "mc_RebootMachine (OmniClient E) = RebootMachine E"
  by (simp_all add: OmniClient_def)

lemma never_delete_patches [effects]:
  "(\<And>i. \<not> Q (TeardownResource ConfigPatchType i)) \<Longrightarrow> (\<And>i. \<not> Q (DestroyResource ConfigPatchType i)) \<Longrightarrow>
   never Q (DeleteConfigPatchesForMachine E cn m)"
  unfolding DeleteConfigPatchesForMachine_def by (intro effects) simp_all

lemma never_prune_patches [effects]:
  "(\<And>i. \<not> Q (TeardownResource ConfigPatchType i)) \<Longrightarrow> (\<And>i. \<not> Q (DestroyResource ConfigPatchType i)) \<Longrightarrow>
   never Q (PruneOrphanedConfigPatches E cn m keep)"
  unfolding PruneOrphanedConfigPatches_def by (intro effects) simp_all

interpretation omni: machine_omni_client "OmniClient E" for E :: "'e ops"
proof
  show "never (outside MachineSetNodeType) (mc_EnsureMachineSetNode (OmniClient E) cn s m r)" for cn s m r
    using ensureMachineSetNode_op.writes_type by simp
  show "never (outside MachineSetNodeType) (mc_DeleteMachineSetNode (OmniClient E) m)" for m
    by (simp add: DeleteMachineSetNode_def never_teardownAndDestroy)
  show "never (outside ConfigPatchType) (mc_EnsureConfigPatch (OmniClient E) p cn s m d)" for p cn s m d
    using ensureConfigPatch_op.writes_type by simp
  show "never (outside ConfigPatchType) (mc_PruneOrphanedConfigPatches (OmniClient E) cn m keep)"
    for cn m keep by (simp add: never_prune_patches)
  show "never (outside ConfigPatchType) (mc_DeleteConfigPatchesForMachine (OmniClient E) cn m)"
    for cn m by (simp add: never_delete_patches)
  show "never (outside KernelArgsType) (mc_EnsureMachineKernelArgs (OmniClient E) m args)" for m args
    using ensureKernelArgs_op.writes_type by simp
  show "never (outside KernelArgsType) (mc_DeleteKernelArgsForMachine (OmniClient E) m)" for m
    by (simp add: DeleteKernelArgsForMachine_def never_teardownAndDestroy)
  show "calls (snd (mc_RebootMachine (OmniClient E) cn a w)) = calls w @ [RebootRPC cn a]" for cn a w
    by (auto simp: RebootMachine_def io_wrap_def ext_def split: prod.splits sum.splits)
qed

end
