(* ===== verification/Metrics.thy ===== *)
theory Metrics
  imports World
begin

text \<open>
  \<open>controllers/metrics.go\<close>: the four Prometheus series as maps from label values to a number,
  with the vector operations the controllers use.
\<close>

definition boolToFloat64 :: "bool \<Rightarrow> int" where
  "boolToFloat64 b = (if b then 1 else 0)"

definition set_series :: "'k \<Rightarrow> int \<Rightarrow> ('k, int) gomap \<Rightarrow> ('k, int) gomap" where
  "set_series k v s = AList.update k v s"

definition inc_series :: "'k \<Rightarrow> ('k, int) gomap \<Rightarrow> ('k, int) gomap" where
  "inc_series k s = AList.update k ((case map_of s k of None \<Rightarrow> 0 | Some n \<Rightarrow> n) + 1) s"

definition delete_series :: "'k \<Rightarrow> ('k, int) gomap \<Rightarrow> ('k, int) gomap" where
  "delete_series k s = AList.delete k s"

text \<open>\<open>DeletePartialMatch\<close> on the labels \<open>name\<close> and \<open>namespace\<close>.\<close>

definition delete_partial ::
  "string \<Rightarrow> string \<Rightarrow> (string \<times> string \<times> string, int) gomap \<Rightarrow> (string \<times> string \<times> string, int) gomap"
  where
  "delete_partial name ns s = filter (\<lambda>((n, m, _), _). \<not> (n = name \<and> m = ns)) s"

definition deleteClusterMetrics :: "string \<Rightarrow> string \<Rightarrow> gauges \<Rightarrow> gauges" where
  "deleteClusterMetrics name ns g =
     g\<lparr>clusterReadyGauge := delete_series (name, ns) (clusterReadyGauge g),
       clusterConfigDriftGauge := delete_series (name, ns) (clusterConfigDriftGauge g),
       machineRebootsTotal := delete_series (name, ns) (machineRebootsTotal g),
       clusterMachinesAllocatedGauge := delete_partial name ns (clusterMachinesAllocatedGauge g)\<rparr>"

text \<open>The series a cluster still has.\<close>

definition cluster_has_series :: "string \<Rightarrow> string \<Rightarrow> gauges \<Rightarrow> bool" where
  "cluster_has_series name ns g \<longleftrightarrow>
     map_of (clusterReadyGauge g) (name, ns) \<noteq> None \<or>
     map_of (clusterConfigDriftGauge g) (name, ns) \<noteq> None \<or>
     map_of (machineRebootsTotal g) (name, ns) \<noteq> None \<or>
     list_ex (\<lambda>((n, m, _), _). n = name \<and> m = ns) (clusterMachinesAllocatedGauge g)"

lemma map_of_delete_series: "map_of (delete_series k s) k' = (if k' = k then None else map_of s k')"
  by (simp add: delete_series_def AList.delete_conv')

lemma map_of_delete_partial:
  "map_of (delete_partial name ns s) (n, m, i) =
     (if n = name \<and> m = ns then None else map_of s (n, m, i))"
  unfolding delete_partial_def by (induction s) auto

lemma map_of_inc_series:
  "map_of (inc_series k s) k = Some ((case map_of s k of None \<Rightarrow> 0 | Some n \<Rightarrow> n) + 1)"
  by (simp add: inc_series_def)

lemma deleteClusterMetrics_clears: "\<not> cluster_has_series name ns (deleteClusterMetrics name ns g)"
  by (auto simp: cluster_has_series_def deleteClusterMetrics_def map_of_delete_series
      delete_partial_def list_ex_iff)

lemma deleteClusterMetrics_keeps_others:
  assumes "(name', ns') \<noteq> (name, ns)"
  shows "cluster_has_series name' ns' (deleteClusterMetrics name ns g) \<longleftrightarrow> cluster_has_series name' ns' g"
  using assms
  by (auto simp: cluster_has_series_def deleteClusterMetrics_def map_of_delete_series
      delete_partial_def list_ex_iff)

end
