(* ===== verification/Common.thy ===== *)
theory Common
  imports Machine_Client Metrics
begin

text \<open>
  What the two reconcilers share: the constants of \<open>controllers/omnicluster_controller.go\<close> and
  \<open>controllers/machine_controller.go\<close>, the controller-runtime result, events, Go's duration
  arithmetic, and the status write that is skipped when nothing changed.
\<close>

section \<open>Constants\<close>

definition finalizerName :: string where "finalizerName = ''omnicluster.omni.gitops.dev/finalizer''"
definition requeueShort :: int where "requeueShort = 15 * second"
definition requeueLong :: int where "requeueLong = 60 * second"
definition rebootCooldown :: int where "rebootCooldown = 10 * minute"
definition kubeconfigRefreshedAtAnnotation :: string where
  "kubeconfigRefreshedAtAnnotation = ''omni.gitops.dev/kubeconfig-refreshed-at''"
definition kubeconfigRefreshInterval :: int where "kubeconfigRefreshInterval = 30 * 24 * hour"

definition machineFinalizerName :: string where
  "machineFinalizerName = ''machine.omni.gitops.dev/finalizer''"
definition labelCluster :: string where "labelCluster = ''omni.gitops.dev/cluster''"
definition labelMachineSet :: string where "labelMachineSet = ''omni.gitops.dev/machine-set''"
definition roleControlPlane :: string where "roleControlPlane = ''control-plane''"
definition roleWorker :: string where "roleWorker = ''worker''"

definition EventTypeNormal :: string where "EventTypeNormal = ''Normal''"
definition EventTypeWarning :: string where "EventTypeWarning = ''Warning''"

section \<open>Durations\<close>

text \<open>\<open>t.Sub(u)\<close> is a 64-bit count of nanoseconds that saturates at its bounds.\<close>

definition time_Sub :: "int \<Rightarrow> int \<Rightarrow> int" where
  "time_Sub t u = max (- (2 ^ 63)) (min (2 ^ 63 - 1) (t - u))"

lemma time_Sub_ge:
  assumes "d \<le> 2 ^ 63 - 1" and "- (2 ^ 63) < d"
  shows "d \<le> time_Sub t u \<longleftrightarrow> d \<le> t - u"
  using assms by (auto simp: time_Sub_def)

section \<open>Results, events, status writes\<close>

record ctrl_result =
  Requeue :: bool
  RequeueAfter :: int

definition zero_result :: ctrl_result where
  "zero_result = \<lparr>Requeue = False, RequeueAfter = 0\<rparr>"

text \<open>\<open>Recorder\<close> may be nil; recording an event cannot fail.\<close>

definition eventf :: "bool \<Rightarrow> string \<Rightarrow> string \<Rightarrow> string \<Rightarrow> ('e, unit) io" where
  "eventf recorder eventType reason message =
     (if recorder then ext [EmitEvent eventType reason message] (\<lambda>e. (Inr (), e)) else io_ret ())"

lemma never_eventf [effects]: "\<not> Q (EmitEvent t r m) \<Longrightarrow> never Q (eventf recorder t r m)"
  by (simp add: eventf_def atmost_ext atmost_ret)

definition IgnoreNotFound :: "('e, unit) io \<Rightarrow> ('e, unit) io" where
  "IgnoreNotFound m =
     io_bind (io_try m)
       (\<lambda>r. case r of Inl e \<Rightarrow> if IsNotFound e then io_ret () else io_raise e | Inr _ \<Rightarrow> io_ret ())"

lemma never_IgnoreNotFound [effects]: "never Q m \<Longrightarrow> never Q (IgnoreNotFound m)"
  unfolding IgnoreNotFound_def by (intro effects)

definition set_condition :: "'e ops \<Rightarrow> condition list \<Rightarrow> condition \<Rightarrow> ('e, condition list) io" where
  "set_condition E conds c = io_env (\<lambda>e. k8s_SetStatusCondition E e conds c)"

lemma never_set_condition [effects]: "atmost n Q (set_condition E conds c)"
  by (simp add: set_condition_def atmost_env)

text \<open>A condition as the controllers hand it to \<open>SetStatusCondition\<close>, without transition time.\<close>

definition new_condition :: "string \<Rightarrow> string \<Rightarrow> string \<Rightarrow> string \<Rightarrow> int \<Rightarrow> condition" where
  "new_condition typ status reason message generation =
     \<lparr>cond_Type = typ, cond_Status = status, cond_Reason = reason, cond_Message = message,
      cond_ObservedGeneration = generation, cond_LastTransitionTime = 0\<rparr>"

text \<open>
  Both reconcilers write a status only when it differs from the snapshot taken at the start: a
  write fires a watch event on the written object, which would start the next reconcile at once.
  The contract is that a status never differs from itself; a pass that ends where it started then
  writes nothing.
\<close>

definition write_if :: "bool \<Rightarrow> ('e, unit) io \<Rightarrow> ('e, unit) io" where
  "write_if needed write = (if needed then write else io_ret ())"

lemma atmost_write_if [effects]: "atmost n Q write \<Longrightarrow> atmost n Q (write_if b write)"
  by (simp add: write_if_def atmost_ret)

locale status_gate =
  fixes needs_update :: "'s \<Rightarrow> 's \<Rightarrow> bool"
  assumes no_self_update: "\<not> needs_update s s"
    and update_sym: "needs_update s s' \<Longrightarrow> needs_update s' s"
    and settled_trans: "\<not> needs_update s s' \<Longrightarrow> \<not> needs_update s' s'' \<Longrightarrow> \<not> needs_update s s''"
begin

lemma settled_pass_is_silent: "write_if (needs_update s s) write w = (Inr (), w)"
  by (simp add: write_if_def no_self_update io_ret_def)

text \<open>
  The pass after a written one: the snapshot is now the status that was written, and a status
  that the API server may have stored in another but equal form still needs no write.
\<close>

lemma settled_after_write:
  assumes "\<not> needs_update stored computed" and "\<not> needs_update computed next"
  shows "write_if (needs_update stored next) write w = (Inr (), w)"
  using settled_trans [OF assms] by (simp add: write_if_def io_ret_def)

end

end
