(* ===== verification/Machine_Controller.thy ===== *)
theory Machine_Controller
  imports Omni_Client Common
begin

text \<open>
  \<open>controllers/machine_controller.go\<close>: the reconciler of one \<open>Machine\<close>, over the interface
  \<open>machineOmniClient\<close> (\<open>oc\<close>), the API server (\<open>E\<close>) and an optional event recorder.
\<close>

section \<open>Helpers\<close>

definition rebootOwed :: "machine_spec \<Rightarrow> machine_status \<Rightarrow> bool" where
  "rebootOwed spec status =
     (case ms_RebootRequestedAt spec of
        None \<Rightarrow> False
      | Some requested \<Rightarrow>
          (case mst_LastRebootTime status of None \<Rightarrow> True | Some rebooted \<Rightarrow> rebooted < requested))"

definition omniRoleLabel :: "'e ops \<Rightarrow> string \<Rightarrow> goerror + string" where
  "omniRoleLabel E role =
     (if role = roleControlPlane then Inr (omni_LabelControlPlaneRole E)
      else if role = roleWorker then Inr (omni_LabelWorkerRole E)
      else Inl (Errorf (''unknown machine role '' @ go_quote role)))"

definition machineStatusNeedsUpdate :: "machine_status \<Rightarrow> machine_status \<Rightarrow> bool" where
  "machineStatusNeedsUpdate prior after \<longleftrightarrow> \<not> semantic_eq_machine_status prior after"

interpretation machine_gate: status_gate machineStatusNeedsUpdate
  by unfold_locales (auto simp: machineStatusNeedsUpdate_def semantic_eq_machine_status_def)

definition releaseMachineOmni :: "'e machineOmniClient \<Rightarrow> string \<Rightarrow> string \<Rightarrow> ('e, unit) io" where
  "releaseMachineOmni oc clusterName machineID =
     io_bind (io_wrap (\<lambda>e. Wrapf (''delete machine set node '' @ machineID @ '': '') e '''')
                (mc_DeleteMachineSetNode oc machineID)) (\<lambda>_.
     io_bind (io_wrap (\<lambda>e. Wrapf (''delete config patches for machine '' @ machineID @ '': '') e '''')
                (mc_DeleteConfigPatchesForMachine oc clusterName machineID)) (\<lambda>_.
     io_wrap (\<lambda>e. Wrapf (''delete kernel args for machine '' @ machineID @ '': '') e '''')
       (mc_DeleteKernelArgsForMachine oc machineID)))"

definition machine_teardown :: "'e machineOmniClient \<Rightarrow> machine \<Rightarrow> ('e, unit) io" where
  "machine_teardown oc machine = releaseMachineOmni oc (ms_ClusterName (m_Spec machine)) (m_Name machine)"

definition machine_setFailure ::
  "'e ops \<Rightarrow> bool \<Rightarrow> machine \<Rightarrow> machine_status \<Rightarrow> string \<Rightarrow> goerror \<Rightarrow> ('e, ctrl_result) io" where
  "machine_setFailure E recorder machine statusBefore reason err =
     (let msg = err_msg err
      in io_bind (eventf recorder EventTypeWarning reason msg) (\<lambda>_.
         io_bind (set_condition E (mst_Conditions (m_Status machine))
                    (new_condition ''Ready'' ConditionFalse reason msg (m_Generation machine))) (\<lambda>conds.
           let status = (m_Status machine)
                 \<lparr>mst_ObservedGeneration := m_Generation machine, mst_Ready := False,
                  mst_Phase := ''Failed'', mst_FailureReason := Some reason,
                  mst_FailureMessage := Some msg, mst_Conditions := conds\<rparr>;
               machine' = machine\<lparr>m_Status := status\<rparr>
           in io_bind
                (io_try (write_if (machineStatusNeedsUpdate statusBefore status)
                  (ext [UpdateMachineStatus machine'] (k8s_UpdateMachineStatus E machine'))))
                (\<lambda>_. io_ret \<lparr>Requeue = False, RequeueAfter = requeueShort\<rparr>))))"

definition patch_id :: "string \<Rightarrow> string \<Rightarrow> string \<Rightarrow> string" where
  "patch_id clusterName machineName patchName =
     clusterName @ ''-'' @ machineName @ ''-'' @ patchName"

definition applyConfigPatches :: "'e machineOmniClient \<Rightarrow> machine \<Rightarrow> ('e, unit) io" where
  "applyConfigPatches oc machine =
     (let spec = m_Spec machine;
          idOf = (\<lambda>p. patch_id (ms_ClusterName spec) (m_Name machine) (cp_Name p))
      in io_bind
           (io_for (ms_ConfigPatches spec)
             (\<lambda>p. io_wrap (\<lambda>e. Wrapf (''ensure patch '' @ go_quote (cp_Name p) @ '': '') e '''')
                (mc_EnsureConfigPatch oc (idOf p) (ms_ClusterName spec) (ms_MachineSetID spec)
                   (m_Name machine) (cp_Inline p))))
           (\<lambda>_. io_wrap (\<lambda>e. Wrapf (''prune patches for machine '' @ m_Name machine @ '': '') e '''')
                (mc_PruneOrphanedConfigPatches oc (ms_ClusterName spec) (m_Name machine)
                   (map idOf (ms_ConfigPatches spec)))))"

definition reconcileKernelArgs :: "'e machineOmniClient \<Rightarrow> machine \<Rightarrow> ('e, unit) io" where
  "reconcileKernelArgs oc machine =
     (if ms_KernelArgs (m_Spec machine) \<noteq> []
      then mc_EnsureMachineKernelArgs oc (m_Name machine) (ms_KernelArgs (m_Spec machine))
      else mc_DeleteKernelArgsForMachine oc (m_Name machine))"

section \<open>Reconcile\<close>

text \<open>The reboot when owed: the machine with its stamp, and whether the RPC failed.\<close>

definition rebootWhenOwed ::
  "'e ops \<Rightarrow> 'e machineOmniClient \<Rightarrow> bool \<Rightarrow> machine \<Rightarrow> ('e, machine \<times> bool) io" where
  "rebootWhenOwed E oc recorder machine =
     (if rebootOwed (m_Spec machine) (m_Status machine)
      then io_bind (io_try (mc_RebootMachine oc (ms_ClusterName (m_Spec machine))
                      (ms_ManagementAddress (m_Spec machine)))) (\<lambda>rebootErr.
           io_bind (now E) (\<lambda>t.
             let machine' = machine\<lparr>m_Status := (m_Status machine)\<lparr>mst_LastRebootTime := Some t\<rparr>\<rparr>
             in case rebootErr of
                  Inl err \<Rightarrow>
                    io_bind (eventf recorder EventTypeWarning ''RebootFailed'' (err_msg err))
                      (\<lambda>_. io_ret (machine', True))
                | Inr _ \<Rightarrow>
                    io_bind (io_series (\<lambda>g. g\<lparr>machineRebootsTotal :=
                        inc_series (ms_ClusterName (m_Spec machine), m_Namespace machine)
                          (machineRebootsTotal g)\<rparr>)) (\<lambda>_.
                    io_bind (eventf recorder EventTypeNormal ''RebootTriggered''
                        (''Rebooting machine '' @ m_Name machine @ '' to apply config update''))
                      (\<lambda>_. io_ret (machine', False)))))
      else io_ret (machine, False))"

definition settled_condition :: "machine \<Rightarrow> bool \<Rightarrow> condition" where
  "settled_condition machine rebootFailed =
     (if rebootFailed
      then new_condition ''Ready'' ConditionFalse ''RebootFailed''
             ''Reboot RPC failed; will retry after cooldown'' (m_Generation machine)
      else new_condition ''Ready'' ConditionTrue ''Bound''
             ''Machine is bound and its config is applied'' (m_Generation machine))"

definition settled_status :: "machine \<Rightarrow> bool \<Rightarrow> condition list \<Rightarrow> machine_status" where
  "settled_status machine rebootFailed conds = (m_Status machine)
     \<lparr>mst_ObservedGeneration := m_Generation machine, mst_FailureReason := None,
      mst_FailureMessage := None, mst_Ready := \<not> rebootFailed,
      mst_Phase := (if rebootFailed then ''Rebooting'' else ''Ready''), mst_Conditions := conds\<rparr>"

definition finishReconcile ::
  "'e ops \<Rightarrow> machine \<Rightarrow> machine_status \<Rightarrow> bool \<Rightarrow> ('e, ctrl_result) io" where
  "finishReconcile E machine statusBefore rebootFailed =
     io_bind (set_condition E (mst_Conditions (m_Status machine)) (settled_condition machine rebootFailed))
       (\<lambda>conds.
          let status = settled_status machine rebootFailed conds;
              machine' = machine\<lparr>m_Status := status\<rparr>
          in io_bind (write_if (machineStatusNeedsUpdate statusBefore status)
                 (ext [UpdateMachineStatus machine'] (k8s_UpdateMachineStatus E machine')))
               (\<lambda>_. io_ret (if rebootFailed then \<lparr>Requeue = False, RequeueAfter = requeueShort\<rparr>
                             else zero_result)))"

definition rebootAndFinish ::
  "'e ops \<Rightarrow> 'e machineOmniClient \<Rightarrow> bool \<Rightarrow> machine \<Rightarrow> ('e, ctrl_result) io" where
  "rebootAndFinish E oc recorder machine =
     io_bind (rebootWhenOwed E oc recorder machine)
       (\<lambda>(machine', rebootFailed). finishReconcile E machine' (m_Status machine) rebootFailed)"

text \<open>The part of \<open>Reconcile\<close> that converges a live machine with its finalizer in place.\<close>

definition convergeMachine ::
  "'e ops \<Rightarrow> 'e machineOmniClient \<Rightarrow> bool \<Rightarrow> machine \<Rightarrow> ('e, ctrl_result) io" where
  "convergeMachine E oc recorder machine =
     (let statusBefore = m_Status machine;
          spec = m_Spec machine;
          failWith = machine_setFailure E recorder machine statusBefore
      in case omniRoleLabel E (ms_Role spec) of
           Inl err \<Rightarrow> failWith ''InvalidRole'' err
         | Inr role \<Rightarrow>
             io_bind (io_try (mc_EnsureMachineSetNode oc (ms_ClusterName spec) (ms_MachineSetID spec)
                        (m_Name machine) role)) (\<lambda>bound.
               case bound of
                 Inl err \<Rightarrow> failWith ''BindFailed'' err
               | Inr _ \<Rightarrow>
                   io_bind (io_try (applyConfigPatches oc machine)) (\<lambda>applied.
                     case applied of
                       Inl err \<Rightarrow> failWith ''ConfigPatchFailed'' err
                     | Inr _ \<Rightarrow>
                         io_bind (io_try (reconcileKernelArgs oc machine)) (\<lambda>args.
                           case args of
                             Inl err \<Rightarrow> failWith ''KernelArgsFailed'' err
                           | Inr _ \<Rightarrow> rebootAndFinish E oc recorder machine))))"

definition with_finalizers :: "string list \<Rightarrow> machine \<Rightarrow> machine" where
  "with_finalizers fs machine = machine\<lparr>m_Meta := (m_Meta machine)\<lparr>om_Finalizers := fs\<rparr>\<rparr>"

abbreviation updateMachine :: "'e ops \<Rightarrow> machine \<Rightarrow> ('e, unit) io" where
  "updateMachine E m \<equiv> ext [UpdateMachine m] (k8s_UpdateMachine E m)"

text \<open>\<open>Reconcile\<close> on the machine it fetched: the delete path, the finalizer, the convergence.\<close>

definition reconcileMachine ::
  "'e ops \<Rightarrow> 'e machineOmniClient \<Rightarrow> bool \<Rightarrow> machine \<Rightarrow> ('e, ctrl_result) io" where
  "reconcileMachine E oc recorder machine =
     (let finalizers = om_Finalizers (m_Meta machine)
      in if m_DeletionTimestamp machine \<noteq> None
         then if k8s_ContainsFinalizer E finalizers machineFinalizerName
              then io_bind
                     (io_wrap (\<lambda>e. Wrapf (''teardown machine '' @ m_Name machine @ '': '') e '''')
                        (machine_teardown oc machine)) (\<lambda>_.
                   io_bind (updateMachine E (with_finalizers
                       (k8s_RemoveFinalizer E finalizers machineFinalizerName) machine))
                     (\<lambda>_. io_ret zero_result))
              else io_ret zero_result
         else if \<not> k8s_ContainsFinalizer E finalizers machineFinalizerName
         then io_bind (updateMachine E (with_finalizers
                (k8s_AddFinalizer E finalizers machineFinalizerName) machine))
                (\<lambda>_. io_ret \<lparr>Requeue = True, RequeueAfter = 0\<rparr>)
         else convergeMachine E oc recorder machine)"

definition MachineReconcile ::
  "'e ops \<Rightarrow> 'e machineOmniClient \<Rightarrow> bool \<Rightarrow> string \<Rightarrow> string \<Rightarrow> ('e, ctrl_result) io" where
  "MachineReconcile E oc recorder ns name =
     io_bind (io_try (ext [] (k8s_GetMachine E ns name))) (\<lambda>got.
       case got of
         Inl err \<Rightarrow> if IsNotFound err then io_ret zero_result else io_raise err
       | Inr machine \<Rightarrow> reconcileMachine E oc recorder machine)"

section \<open>What a reconcile may touch\<close>

text \<open>
  A class of calls that holds no per-machine configuration: the steps of a reconcile that
  converge a machine's Omni state make no call of such a class.
\<close>

definition configures :: "(call \<Rightarrow> bool) \<Rightarrow> bool" where
  "configures Q \<longleftrightarrow> (\<forall>c. Q c \<longrightarrow>
     call_type c \<noteq> Some MachineSetNodeType \<and> call_type c \<noteq> Some ConfigPatchType \<and>
     call_type c \<noteq> Some KernelArgsType)"

context machine_omni_client begin

lemma reboot_atmost: "atmost 1 Q (mc_RebootMachine oc cn a)"
  unfolding atmost_def
proof
  fix w
  show "\<exists>cs. calls (snd (mc_RebootMachine oc cn a w)) = calls w @ cs \<and> length (filter Q cs) \<le> 1"
    by (intro exI [of _ "[RebootRPC cn a]"]) (simp add: reboot_once)
qed

lemma never_reboot_call [effects]: "\<not> Q (RebootRPC cn a) \<Longrightarrow> never Q (mc_RebootMachine oc cn a)"
  unfolding atmost_def
proof
  fix w
  assume "\<not> Q (RebootRPC cn a)"
  then show "\<exists>cs. calls (snd (mc_RebootMachine oc cn a w)) = calls w @ cs \<and> length (filter Q cs) \<le> 0"
    by (intro exI [of _ "[RebootRPC cn a]"]) (simp add: reboot_once)
qed

lemma never_operations [effects]:
  assumes "configures Q"
  shows "never Q (mc_EnsureMachineSetNode oc cn s m r)"
    and "never Q (mc_DeleteMachineSetNode oc m)"
    and "never Q (mc_EnsureConfigPatch oc p cn s m d)"
    and "never Q (mc_PruneOrphanedConfigPatches oc cn m keep)"
    and "never Q (mc_DeleteConfigPatchesForMachine oc cn m)"
    and "never Q (mc_EnsureMachineKernelArgs oc m args)"
    and "never Q (mc_DeleteKernelArgsForMachine oc m)"
  using assms unfolding configures_def
  by (blast intro: atmost_mono [OF ensure_node_type] atmost_mono [OF delete_node_type]
      atmost_mono [OF ensure_patch_type] atmost_mono [OF prune_patch_type]
      atmost_mono [OF delete_patch_type] atmost_mono [OF ensure_kernel_type]
      atmost_mono [OF delete_kernel_type])+

lemma never_releaseMachineOmni [effects]: "configures Q \<Longrightarrow> never Q (releaseMachineOmni oc cn m)"
  unfolding releaseMachineOmni_def by (intro effects)

lemma never_applyConfigPatches [effects]: "configures Q \<Longrightarrow> never Q (applyConfigPatches oc machine)"
  unfolding applyConfigPatches_def Let_def by (intro effects)

lemma never_reconcileKernelArgs [effects]: "configures Q \<Longrightarrow> never Q (reconcileKernelArgs oc machine)"
  unfolding reconcileKernelArgs_def by (intro effects)

end

lemma configures_is_reboot [simp]: "configures is_reboot"
  unfolding configures_def by (auto elim: is_reboot.elims)

lemma configures_is_status_write [simp]: "configures is_status_write"
  unfolding configures_def by (auto elim: is_status_write.elims)

lemma configures_nothing [simp]: "configures (\<lambda>_. False)"
  by (simp add: configures_def)

lemma never_machine_setFailure [effects]:
  "\<not> Q (EmitEvent EventTypeWarning reason (err_msg err)) \<Longrightarrow> (\<And>m. \<not> Q (UpdateMachineStatus m)) \<Longrightarrow>
   never Q (machine_setFailure E recorder machine before reason err)"
  unfolding machine_setFailure_def Let_def by (intro effects; simp)

lemma never_finishReconcile [effects]:
  "(\<And>m. \<not> Q (UpdateMachineStatus m)) \<Longrightarrow> never Q (finishReconcile E machine before b)"
  unfolding finishReconcile_def Let_def by (intro effects; simp)

lemma one_status_setFailure: "atmost 1 is_status_write (machine_setFailure E recorder machine before reason err)"
  unfolding machine_setFailure_def Let_def
  by (rule atmost_bind_first, (intro effects; simp), rule atmost_bind_first, (intro effects; simp),
      rule atmost_bind_last, (intro effects; simp add: atmost_ext), (intro effects; simp))

lemma one_status_finish: "atmost 1 is_status_write (finishReconcile E machine before b)"
  unfolding finishReconcile_def Let_def
  by (rule atmost_bind_first, (intro effects; simp),
      rule atmost_bind_last, (intro effects; simp add: atmost_ext), (intro effects; simp))

context machine_omni_client begin

lemma never_rebootWhenOwed [effects]:
  "(rebootOwed (m_Spec machine) (m_Status machine) \<Longrightarrow>
      \<not> Q (RebootRPC (ms_ClusterName (m_Spec machine)) (ms_ManagementAddress (m_Spec machine)))) \<Longrightarrow>
   (\<And>t r m. \<not> Q (EmitEvent t r m)) \<Longrightarrow> never Q (rebootWhenOwed E oc recorder machine)"
  unfolding rebootWhenOwed_def Let_def by (intro effects; simp)

lemma one_reboot_when_owed: "atmost 1 is_reboot (rebootWhenOwed E oc recorder machine)"
  unfolding rebootWhenOwed_def Let_def
  by (rule atmost_if, rule atmost_bind_last, rule atmost_try, rule reboot_atmost, (intro effects; simp), intro effects)

lemma never_rebootAndFinish [effects]:
  "(rebootOwed (m_Spec machine) (m_Status machine) \<Longrightarrow>
      \<not> Q (RebootRPC (ms_ClusterName (m_Spec machine)) (ms_ManagementAddress (m_Spec machine)))) \<Longrightarrow> (\<And>t r m. \<not> Q (EmitEvent t r m)) \<Longrightarrow>
   (\<And>m. \<not> Q (UpdateMachineStatus m)) \<Longrightarrow> never Q (rebootAndFinish E oc recorder machine)"
  unfolding rebootAndFinish_def by (intro effects; simp)

lemma one_reboot_finish: "atmost 1 is_reboot (rebootAndFinish E oc recorder machine)"
  unfolding rebootAndFinish_def
  by (rule atmost_bind_last, rule one_reboot_when_owed) (intro effects; simp)

lemma one_status_rebootAndFinish: "atmost 1 is_status_write (rebootAndFinish E oc recorder machine)"
  unfolding rebootAndFinish_def
  by (rule atmost_bind_first, (intro effects; simp)) (intro atmost_prod one_status_finish)

lemma one_reboot_converge: "atmost 1 is_reboot (convergeMachine E oc recorder machine)"
  unfolding convergeMachine_def Let_def
  by (intro atmost_sum atmost_bind_first never_atmost [OF never_machine_setFailure] one_reboot_finish;
      (intro effects; simp | simp))

lemma one_reboot: "atmost 1 is_reboot (MachineReconcile E oc recorder ns name)"
  unfolding MachineReconcile_def reconcileMachine_def Let_def machine_teardown_def
  by (intro atmost_sum atmost_if atmost_bind_first one_reboot_converge; (intro effects; simp | simp add: effects))

text \<open>Everything but the reboot, the status write and the events is per-machine configuration.\<close>

lemma never_MachineReconcile:
  assumes "configures Q" and "\<And>cn a. \<not> Q (RebootRPC cn a)" and "\<And>t r m. \<not> Q (EmitEvent t r m)"
    and "\<And>m. \<not> Q (UpdateMachine m)" and "\<And>m. \<not> Q (UpdateMachineStatus m)"
  shows "never Q (MachineReconcile E oc recorder ns name)"
  unfolding MachineReconcile_def reconcileMachine_def Let_def machine_teardown_def convergeMachine_def
  by (intro effects assms; simp add: assms)

text \<open>The one reboot there can be is the one that is owed.\<close>

lemma never_convergeMachine:
  assumes "configures Q" and "\<And>t r m. \<not> Q (EmitEvent t r m)" and "\<And>m. \<not> Q (UpdateMachineStatus m)"
    and "rebootOwed (m_Spec machine) (m_Status machine) \<Longrightarrow>
      \<not> Q (RebootRPC (ms_ClusterName (m_Spec machine)) (ms_ManagementAddress (m_Spec machine)))"
  shows "never Q (convergeMachine E oc recorder machine)"
  unfolding convergeMachine_def Let_def
  by (intro effects assms; simp add: assms)

lemma one_status_converge: "atmost 1 is_status_write (convergeMachine E oc recorder machine)"
  unfolding convergeMachine_def Let_def
  by (intro atmost_sum atmost_bind_first one_status_setFailure one_status_rebootAndFinish;
      (intro effects; simp | simp))

lemma one_status_write: "atmost 1 is_status_write (MachineReconcile E oc recorder ns name)"
  unfolding MachineReconcile_def reconcileMachine_def Let_def machine_teardown_def
  by (intro atmost_sum atmost_if atmost_bind_first one_status_converge; (intro effects; simp | simp add: effects))

text \<open>A reboot comes after the binding, the patches and the kernel arguments are in place.\<close>

lemma no_reboot_in_failure:
  "is_reboot c \<Longrightarrow> c \<notin> set (made (machine_setFailure E recorder machine b r e) v)"
  using never_made [OF never_machine_setFailure [of is_reboot r e E recorder machine b]] by auto

lemma no_reboot_in_operations:
  assumes "is_reboot c"
  shows "c \<notin> set (made (mc_EnsureMachineSetNode oc cn s m r) v)"
    and "c \<notin> set (made (applyConfigPatches oc machine) v)"
    and "c \<notin> set (made (reconcileKernelArgs oc machine) v)"
  using assms never_made [of is_reboot, OF never_operations(1) [OF configures_is_reboot]]
    never_made [of is_reboot, OF never_applyConfigPatches [OF configures_is_reboot]]
    never_made [of is_reboot, OF never_reconcileKernelArgs [OF configures_is_reboot]]
  by blast+

lemma reboot_after_convergence:
  assumes reboot: "c \<in> set (made (convergeMachine E oc recorder machine) w)" and c: "is_reboot c"
  shows "\<exists>role w1 w2 w3.
    omniRoleLabel E (ms_Role (m_Spec machine)) = Inr role \<and>
    mc_EnsureMachineSetNode oc (ms_ClusterName (m_Spec machine)) (ms_MachineSetID (m_Spec machine))
       (m_Name machine) role w = (Inr (), w1) \<and>
    applyConfigPatches oc machine w1 = (Inr (), w2) \<and>
    reconcileKernelArgs oc machine w2 = (Inr (), w3)"
  using reboot unfolding convergeMachine_def Let_def
  by (auto split: sum.splits simp: no_reboot_in_failure [OF c] no_reboot_in_operations [OF c]
      elim!: made_tryE; intro effects configures_nothing; simp)

end

end
