(* ===== verification/Store.thy ===== *)
theory Store
  imports Omni_Client
begin

text \<open>
  Hypotheses about the COSI state, and the operations of the Omni client as updates of it.

  \<open>cosi_store E V\<close> says that a view \<open>V\<close> of the environment behaves as COSI documents its state:
  resources are found under their type and ID, a read changes nothing, a list by label equality
  returns what carries the labels, a create of an existing ID is a conflict, a teardown says whether
  the resource is ready to go, which it is not while a controller holds a finalizer on it, and removes
  nothing. It says nothing of any other operation, and is the case in which nobody else writes
  between two calls. \<open>unheld E V K\<close> says of single resources that no one holds a finalizer on
  them. \<open>omni_constructors\<close> says what the constructors of the client library set. All three hold of
  the in-memory environment (\<open>Memory_Env\<close>). The lemmas show each \<open>Ensure\<close> operation as one update of the view.
\<close>

type_synonym store = "rtype \<times> string \<Rightarrow> resource option"

definition key_of :: "resource \<Rightarrow> rtype \<times> string" where
  "key_of r = (r_Type r, r_ID r)"

primrec term_holds :: "resource \<Rightarrow> label_term \<Rightarrow> bool" where
  "term_holds r (LabelExists k) = (get_label k r \<noteq> None)"
| "term_holds r (LabelNotExists k) = (get_label k r = None)"
| "term_holds r (LabelEqual k v) = (get_label k r = Some v)"
| "term_holds r (LabelIn k vs) = (get_label k r \<in> Some ` set vs)"
| "term_holds r (LabelNotIn k vs) = (get_label k r \<notin> Some ` set vs)"

text \<open>A store operation \<open>op\<close> leaves the view at \<open>s\<close> and returns \<open>r\<close>, or an error of a class.\<close>

definition yields :: "('e \<Rightarrow> store) \<Rightarrow> (goerror + 'a) \<times> 'e \<Rightarrow> 'a \<Rightarrow> store \<Rightarrow> bool" where
  "yields V res x s \<longleftrightarrow> fst res = Inr x \<and> V (snd res) = s"

definition refuses :: "('e \<Rightarrow> store) \<Rightarrow> (goerror + 'a) \<times> 'e \<Rightarrow> cosi_class \<Rightarrow> store \<Rightarrow> bool" where
  "refuses V res c s \<longleftrightarrow> (\<exists>m. fst res = Inl (CosiError c m)) \<and> V (snd res) = s"

definition cosi_typed :: "('e \<Rightarrow> store) \<Rightarrow> bool" where
  "cosi_typed V \<longleftrightarrow> (\<forall>e k r. V e k = Some r \<longrightarrow> key_of r = k)"

definition cosi_reads :: "'e ops \<Rightarrow> ('e \<Rightarrow> store) \<Rightarrow> bool" where
  "cosi_reads E V \<longleftrightarrow> (\<forall>e t i.
     (\<forall>r. V e (t, i) = Some r \<longrightarrow> yields V (cosi_Get E t i e) r (V e)) \<and>
     (V e (t, i) = None \<longrightarrow> refuses V (cosi_Get E t i e) ResourceNotFound (V e)))"

definition cosi_lists :: "'e ops \<Rightarrow> ('e \<Rightarrow> store) \<Rightarrow> bool" where
  "cosi_lists E V \<longleftrightarrow> (\<forall>e t q. \<exists>rs. yields V (cosi_List E t q e) rs (V e) \<and> distinct (map r_ID rs) \<and>
     set rs = {r. V e (t, r_ID r) = Some r \<and> list_all (term_holds r) q})"

definition cosi_creates :: "'e ops \<Rightarrow> ('e \<Rightarrow> store) \<Rightarrow> bool" where
  "cosi_creates E V \<longleftrightarrow> (\<forall>e r.
     (V e (key_of r) = None \<longrightarrow> yields V (cosi_Create E r e) () ((V e)(key_of r \<mapsto> r))) \<and>
     (V e (key_of r) \<noteq> None \<longrightarrow> refuses V (cosi_Create E r e) ResourceConflict (V e)))"

definition cosi_updates :: "'e ops \<Rightarrow> ('e \<Rightarrow> store) \<Rightarrow> bool" where
  "cosi_updates E V \<longleftrightarrow> (\<forall>e r.
     V e (key_of r) \<noteq> None \<longrightarrow> yields V (cosi_Update E r e) () ((V e)(key_of r \<mapsto> r)))"

text \<open>A resource is ready to go once no controller holds a finalizer on it, which a teardown asks for and does
  not wait for; a removal that is not possible, or not possible yet, leaves the resource there.\<close>

definition fails :: "('e \<Rightarrow> store) \<Rightarrow> (goerror + 'a) \<times> 'e \<Rightarrow> store \<Rightarrow> bool" where
  "fails V res s \<longleftrightarrow> (\<exists>err. fst res = Inl err \<and> \<not> IsNotFoundError err) \<and> V (snd res) = s"

definition cosi_removes :: "'e ops \<Rightarrow> ('e \<Rightarrow> store) \<Rightarrow> bool" where
  "cosi_removes E V \<longleftrightarrow> (\<forall>e t i.
     (V e (t, i) \<noteq> None \<longrightarrow> (\<exists>ready. yields V (cosi_Teardown E t i e) ready (V e)) \<or> fails V (cosi_Teardown E t i e) (V e)) \<and>
     (V e (t, i) = None \<longrightarrow> refuses V (cosi_Teardown E t i e) ResourceNotFound (V e)) \<and>
     (V e (t, i) \<noteq> None \<longrightarrow> yields V (cosi_Destroy E t i e) () ((V e)((t, i) := None)) \<or> fails V (cosi_Destroy E t i e) (V e)))"

definition cosi_store :: "'e ops \<Rightarrow> ('e \<Rightarrow> store) \<Rightarrow> bool" where
  "cosi_store E V \<longleftrightarrow> cosi_typed V \<and> cosi_reads E V \<and> cosi_lists E V \<and> cosi_creates E V \<and>
     cosi_updates E V \<and> cosi_removes E V"

text \<open>Nobody holds the resources of \<open>K\<close>: whichever of them are there, they can go at once.\<close>

definition unheld :: "'e ops \<Rightarrow> ('e \<Rightarrow> store) \<Rightarrow> (rtype \<times> string) set \<Rightarrow> bool" where
  "unheld E V K \<longleftrightarrow> (\<forall>e t i. (t, i) \<in> K \<longrightarrow> V e (t, i) \<noteq> None \<longrightarrow>
     yields V (cosi_Teardown E t i e) True (V e) \<and> yields V (cosi_Destroy E t i e) () ((V e)((t, i) := None)))"

lemma unheld_mono: "unheld E V K \<Longrightarrow> K' \<subseteq> K \<Longrightarrow> unheld E V K'"
  unfolding unheld_def by blast

definition omni_constructors :: "'e ops \<Rightarrow> bool" where
  "omni_constructors E \<longleftrightarrow>
     (\<forall>t i. r_ID (omni_New E t i) = i \<and> r_Labels (omni_New E t i) = []) \<and>
     (\<forall>i s. r_ID (omni_NewMachineSetNode E i s) = i \<and>
        get_label (omni_LabelMachineSet E) (omni_NewMachineSetNode E i s) = Some (r_ID s)) \<and>
     (\<forall>i ls. r_ID (omni_NewConfigPatch E i ls) = i \<and> r_Labels (omni_NewConfigPatch E i ls) = ls) \<and>
     (\<forall>d old. \<exists>c. omni_SetUncompressedData E d old = Inr c \<and> omni_GetUncompressedData E c = Inr d)"

section \<open>Access through the client\<close>

lemma yieldsE:
  assumes "yields V res x s"
  obtains e where "res = (Inr x, e)" and "V e = s"
  using assms unfolding yields_def by (cases res) auto

lemma refusesE:
  assumes "refuses V res c s"
  obtains m e where "res = (Inl (CosiError c m), e)" and "V e = s"
  using assms unfolding refuses_def by (cases res) auto

lemma cosi_store_typed: "cosi_store E V \<Longrightarrow> V e (t, i) = Some r \<Longrightarrow> r_Type r = t \<and> r_ID r = i"
  unfolding cosi_store_def cosi_typed_def key_of_def by blast

lemma run_StateGet_found:
  assumes store: "cosi_store E V" and r: "V (env w) (t, i) = Some r"
  obtains w' where "StateGet E t i w = (Inr r, w')" and "V (env w') = V (env w)" and "calls w' = calls w"
proof -
  have "yields V (cosi_Get E t i (env w)) r (V (env w))"
    using store r unfolding cosi_store_def cosi_reads_def by blast
  then obtain e where "cosi_Get E t i (env w) = (Inr r, e)" "V e = V (env w)"
    by (rule yieldsE)
  then show ?thesis
    using cosi_store_typed [OF store r] by (intro that [of "w\<lparr>env := e\<rparr>"]) (simp_all add: StateGet_def io_defs)
qed

lemma run_StateGet_absent:
  assumes store: "cosi_store E V" and r: "V (env w) (t, i) = None"
  obtains m w' where "StateGet E t i w = (Inl (CosiError ResourceNotFound m), w')"
    and "V (env w') = V (env w)" and "calls w' = calls w"
proof -
  have "refuses V (cosi_Get E t i (env w)) ResourceNotFound (V (env w))"
    using store r unfolding cosi_store_def cosi_reads_def by blast
  then obtain m e where "cosi_Get E t i (env w) = (Inl (CosiError ResourceNotFound m), e)" "V e = V (env w)"
    by (rule refusesE)
  then show ?thesis
    by (intro that [of m "w\<lparr>env := e\<rparr>"]) (simp_all add: StateGet_def io_defs)
qed

lemma run_StateListAll:
  assumes store: "cosi_store E V"
  obtains rs w' where "StateListAll E t q w = (Inr rs, w')" and "V (env w') = V (env w)"
    and "calls w' = calls w" and "distinct (map r_ID rs)"
    and "set rs = {r. V (env w) (t, r_ID r) = Some r \<and> list_all (term_holds r) q}"
proof -
  obtain rs where rs: "yields V (cosi_List E t q (env w)) rs (V (env w))" "distinct (map r_ID rs)"
      "set rs = {r. V (env w) (t, r_ID r) = Some r \<and> list_all (term_holds r) q}"
    using store unfolding cosi_store_def cosi_lists_def by blast
  obtain e where e: "cosi_List E t q (env w) = (Inr rs, e)" "V e = V (env w)"
    using rs(1) by (rule yieldsE)
  have "list_all (\<lambda>r. r_Type r = t) rs"
    using rs(3) cosi_store_typed [OF store] by (auto simp: list_all_iff)
  with rs e show ?thesis
    by (intro that [of rs "w\<lparr>env := e\<rparr>"]) (simp_all add: StateListAll_def io_defs)
qed

lemma run_StateCreate_new:
  assumes store: "cosi_store E V" and r: "V (env w) (key_of r) = None"
  obtains w' where "StateCreate E r w = (Inr (), w')" and "V (env w') = (V (env w))(key_of r \<mapsto> r)"
    and "calls w' = calls w @ [CreateResource r]"
proof -
  have "yields V (cosi_Create E r (env w)) () ((V (env w))(key_of r \<mapsto> r))"
    using store r unfolding cosi_store_def cosi_creates_def by blast
  then obtain e where "cosi_Create E r (env w) = (Inr (), e)" "V e = (V (env w))(key_of r \<mapsto> r)"
    by (rule yieldsE)
  then show ?thesis
    by (intro that [of "w\<lparr>env := e, calls := calls w @ [CreateResource r]\<rparr>"]) (simp_all add: StateCreate_def io_defs)
qed

lemma run_StateCreate_exists:
  assumes store: "cosi_store E V" and r: "V (env w) (key_of r) \<noteq> None"
  obtains m w' where "StateCreate E r w = (Inl (CosiError ResourceConflict m), w')"
    and "V (env w') = V (env w)" and "calls w' = calls w @ [CreateResource r]"
proof -
  have "refuses V (cosi_Create E r (env w)) ResourceConflict (V (env w))"
    using store r unfolding cosi_store_def cosi_creates_def by blast
  then obtain m e where "cosi_Create E r (env w) = (Inl (CosiError ResourceConflict m), e)" "V e = V (env w)"
    by (rule refusesE)
  then show ?thesis
    by (intro that [of m "w\<lparr>env := e, calls := calls w @ [CreateResource r]\<rparr>"]) (simp_all add: StateCreate_def io_defs)
qed

lemma run_StateUpdate:
  assumes store: "cosi_store E V" and r: "V (env w) (key_of r) \<noteq> None"
  obtains w' where "StateUpdate E r w = (Inr (), w')" and "V (env w') = (V (env w))(key_of r \<mapsto> r)"
    and "calls w' = calls w @ [UpdateResource r]"
proof -
  have "yields V (cosi_Update E r (env w)) () ((V (env w))(key_of r \<mapsto> r))"
    using store r unfolding cosi_store_def cosi_updates_def by blast
  then obtain e where "cosi_Update E r (env w) = (Inr (), e)" "V e = (V (env w))(key_of r \<mapsto> r)"
    by (rule yieldsE)
  then show ?thesis
    by (intro that [of "w\<lparr>env := e, calls := calls w @ [UpdateResource r]\<rparr>"]) (simp_all add: StateUpdate_def io_defs)
qed

text \<open>
  A removal is over, or it is stuck, with an error, on what somebody holds. A resource that is gone
  already is no error.
\<close>

lemma failsE:
  assumes "fails V res s"
  obtains err e where "res = (Inl err, e)" and "V e = s" and "\<not> IsNotFoundError err"
  using assms unfolding fails_def by (cases res) auto

lemma run_teardownAndDestroy:
  assumes store: "cosi_store E V"
  obtains (gone) w' where "teardownAndDestroy E t i d w = (Inr (), w')" and "V (env w') = (V (env w))((t, i) := None)"
  | (stuck) err w' where "teardownAndDestroy E t i d w = (Inl err, w')" and "V (env w') = V (env w)"
      and "\<not> unheld E V {(t, i)}"
proof (cases "V (env w) (t, i)")
  case None
  then have "refuses V (cosi_Teardown E t i (env w)) ResourceNotFound (V (env w))"
    using store unfolding cosi_store_def cosi_removes_def by blast
  then obtain m e where "cosi_Teardown E t i (env w) = (Inl (CosiError ResourceNotFound m), e)"
      "V e = V (env w)"
    by (rule refusesE)
  then show ?thesis
    using None by (intro gone [of "w\<lparr>env := e, calls := calls w @ [TeardownResource t i]\<rparr>"])
      (auto simp: teardownAndDestroy_def StateTeardown_def io_defs)
next
  case (Some r)
  let ?w1 = "\<lambda>e. w\<lparr>env := e, calls := calls w @ [TeardownResource t i]\<rparr>"
  have held: "\<not> unheld E V {(t, i)}" if "cosi_Teardown E t i (env w) \<noteq> (Inr True, e)" "V e = V (env w)"
      "snd (cosi_Teardown E t i (env w)) = e" for e
    using that Some unfolding unheld_def yields_def by (metis option.distinct(1) prod.collapse singletonI)
  consider ready where "yields V (cosi_Teardown E t i (env w)) ready (V (env w))"
    | "fails V (cosi_Teardown E t i (env w)) (V (env w))"
    using store Some unfolding cosi_store_def cosi_removes_def by (metis option.distinct(1))
  then show ?thesis
  proof cases
    case 2
    then obtain err e where e: "cosi_Teardown E t i (env w) = (Inl err, e)" "V e = V (env w)" "\<not> IsNotFoundError err"
      by (rule failsE)
    then show ?thesis
      by (intro stuck [of _ "?w1 e"] held [of e]) (simp_all add: teardownAndDestroy_def StateTeardown_def io_defs)
  next
    case 1
    then obtain e1 where e1: "cosi_Teardown E t i (env w) = (Inr ready, e1)" "V e1 = V (env w)"
      by (rule yieldsE)
    show ?thesis
    proof (cases ready)
      case False
      with e1 show ?thesis
        by (intro stuck [of _ "?w1 e1"] held [of e1]) (simp_all add: teardownAndDestroy_def StateTeardown_def io_defs)
    next
      case True
      have there: "V e1 (t, i) \<noteq> None" using Some e1(2) by simp
      let ?w2 = "\<lambda>e. w\<lparr>env := e, calls := calls w @ [TeardownResource t i] @ [DestroyResource t i]\<rparr>"
      consider "yields V (cosi_Destroy E t i e1) () ((V e1)((t, i) := None))" | "fails V (cosi_Destroy E t i e1) (V e1)"
        using store there unfolding cosi_store_def cosi_removes_def by blast
      then show ?thesis
      proof cases
        case 1
        then obtain e2 where "cosi_Destroy E t i e1 = (Inr (), e2)" "V e2 = (V e1)((t, i) := None)"
          by (rule yieldsE)
        with e1 True show ?thesis
          by (intro gone [of "?w2 e2"]) (simp_all add: teardownAndDestroy_def StateTeardown_def StateDestroy_def io_defs)
      next
        case 2
        then obtain err e2 where e2: "cosi_Destroy E t i e1 = (Inl err, e2)" "V e2 = V e1" "\<not> IsNotFoundError err"
          by (rule failsE)
        moreover have "\<not> unheld E V {(t, i)}"
          using e2(1) there unfolding unheld_def yields_def by force
        ultimately show ?thesis
          using e1 True
          by (intro stuck [of _ "?w2 e2"]) (simp_all add: teardownAndDestroy_def StateTeardown_def StateDestroy_def io_defs)
      qed
    qed
  qed
qed

lemma removed_run:
  assumes "cosi_store E V" and "teardownAndDestroy E t i d w = (Inr u, w')"
  shows "V (env w') = (V (env w))((t, i) := None)"
  using assms(2) by (cases rule: run_teardownAndDestroy [OF assms(1), of t i d w]) auto

lemma run_DeleteMachineSetNode:
  assumes store: "cosi_store E V"
  obtains (gone) w' where "DeleteMachineSetNode E m w = (Inr (), w')"
      and "V (env w') = (V (env w))((MachineSetNodeType, m) := None)"
  | (stuck) err w' where "DeleteMachineSetNode E m w = (Inl err, w')" and "V (env w') = V (env w)"
      and "\<not> unheld E V {(MachineSetNodeType, m)}"
  by (rule run_teardownAndDestroy [OF store, where w = w]) (rule gone stuck, unfold DeleteMachineSetNode_def, assumption+)+

lemma run_DeleteKernelArgsForMachine:
  assumes store: "cosi_store E V"
  obtains (gone) w' where "DeleteKernelArgsForMachine E m w = (Inr (), w')"
      and "V (env w') = (V (env w))((KernelArgsType, m) := None)"
  | (stuck) err w' where "DeleteKernelArgsForMachine E m w = (Inl err, w')" and "V (env w') = V (env w)"
      and "\<not> unheld E V {(KernelArgsType, m)}"
  by (rule run_teardownAndDestroy [OF store, where w = w]) (rule gone stuck, unfold DeleteKernelArgsForMachine_def, assumption+)+

section \<open>Operations of the client as updates of the store\<close>

lemma map_upd_same: "m k = Some x \<Longrightarrow> m(k \<mapsto> x) = m"
  by auto

lemma run_EnsureCluster:
  assumes store: "cosi_store E V" and new: "omni_constructors E"
    and unowned: "\<And>r. V (env w) (ClusterType, name) = Some r \<Longrightarrow> get_label ownerLabel r \<in> {None, Some owner}"
  obtains r w' where "EnsureCluster E name owner kube talos w = (Inr (), w')"
    and "V (env w') = (V (env w))((ClusterType, name) \<mapsto> r)"
    and "get_label ownerLabel r = Some owner" and "r_Spec r = ClusterSpec kube talos"
proof (cases "V (env w) (ClusterType, name)")
  case None
  obtain m w1 where get: "StateGet E ClusterType name w = (Inl (CosiError ResourceNotFound m), w1)"
      "V (env w1) = V (env w)"
    using run_StateGet_absent [OF store None] .
  define r where "r = with_spec (ClusterSpec kube talos) (set_label ownerLabel owner (omni_New E ClusterType name))"
  have key: "key_of r = (ClusterType, name)"
    using new by (simp add: r_def key_of_def omni_constructors_def)
  obtain w' where "StateCreate E r w1 = (Inr (), w')" "V (env w') = (V (env w1))(key_of r \<mapsto> r)"
    using run_StateCreate_new [OF store] None get(2) key by metis
  with get key show ?thesis
    by (intro that [of w' r]) (simp_all add: EnsureCluster_def run_try r_def)
next
  case (Some old)
  obtain w1 where get: "StateGet E ClusterType name w = (Inr old, w1)" "V (env w1) = V (env w)"
    using run_StateGet_found [OF store Some] .
  have old: "r_Type old = ClusterType" "r_ID old = name"
    using cosi_store_typed [OF store Some] by auto
  then obtain k t where spec: "r_Spec old = ClusterSpec k t"
    by (cases "r_Spec old") auto
  let ?labelled = "if get_label ownerLabel old = None then set_label ownerLabel owner old else old"
  let ?stale = "k \<noteq> kube \<or> t \<noteq> talos"
  define r where "r = (if ?stale then with_spec (ClusterSpec kube talos) ?labelled else ?labelled)"
  have r: "get_label ownerLabel r = Some owner" "r_Spec r = ClusterSpec kube talos" "key_of r = (ClusterType, name)"
    using unowned [OF Some] spec old by (auto simp: r_def key_of_def)
  have run: "EnsureCluster E name owner kube talos w =
      (if get_label ownerLabel old = None \<or> ?stale then StateUpdate E r w1 else io_ret () w1)"
    using get unowned [OF Some] spec by (auto simp: EnsureCluster_def run_try Let_def r_def)
  show ?thesis
  proof (cases "get_label ownerLabel old = None \<or> ?stale")
    case True
    obtain w' where "StateUpdate E r w1 = (Inr (), w')" "V (env w') = (V (env w1))(key_of r \<mapsto> r)"
      using run_StateUpdate [OF store, of w1 r] get(2) Some r(3) by (metis option.distinct(1))
    with run True get r show ?thesis
      by (intro that [of w' r]) simp_all
  next
    case False
    then have "r = old"
      by (auto simp: r_def)
    with run False get r Some show ?thesis
      by (intro that [of w1 r]) (simp_all add: io_ret_def map_upd_same)
  qed
qed

lemma key_of_machine_set_node:
  assumes "omni_constructors E"
  shows "key_of (machine_set_node E cn s m role) = (MachineSetNodeType, m)"
    and "get_label (omni_LabelMachineSet E) (machine_set_node E cn s m role) = Some s"
  using assms by (simp_all add: machine_set_node_def key_of_def omni_constructors_def)

lemma run_EnsureMachineSetNode:
  assumes store: "cosi_store E V" and new: "omni_constructors E"
  obtains (bound) r w' where "EnsureMachineSetNode E cn s m role w = (Inr (), w')"
      and "V (env w) (MachineSetNodeType, m) = None \<or> V (env w) (MachineSetNodeType, m) = Some r"
      and "V (env w') = (V (env w))((MachineSetNodeType, m) \<mapsto> r)"
      and "get_label (omni_LabelMachineSet E) r = Some s"
  | (refused) r err w' where "EnsureMachineSetNode E cn s m role w = (Inl err, w')"
      and "V (env w) (MachineSetNodeType, m) = Some r" and "V (env w') = V (env w)"
      and "get_label (omni_LabelMachineSet E) r \<noteq> Some s"
proof (cases "V (env w) (MachineSetNodeType, m)")
  case None
  let ?n = "machine_set_node E cn s m role"
  obtain w' where "StateCreate E ?n w = (Inr (), w')" "V (env w') = (V (env w))(key_of ?n \<mapsto> ?n)"
    using run_StateCreate_new [OF store, of w ?n] None key_of_machine_set_node(1) [OF new] by metis
  with None show ?thesis
    using key_of_machine_set_node [OF new]
    by (intro bound [of w' ?n]) (simp_all add: EnsureMachineSetNode_def run_try io_ret_def)
next
  case (Some r)
  let ?n = "machine_set_node E cn s m role"
  obtain msg w1 where create: "StateCreate E ?n w = (Inl (CosiError ResourceConflict msg), w1)"
      "V (env w1) = V (env w)"
    using run_StateCreate_exists [OF store, of w ?n] Some key_of_machine_set_node(1) [OF new]
    by (metis option.distinct(1))
  obtain w2 where get: "StateGet E MachineSetNodeType m w1 = (Inr r, w2)" "V (env w2) = V (env w1)"
    using run_StateGet_found [OF store, of w1] create(2) Some by metis
  have wrapped: "io_wrap f (StateGet E MachineSetNodeType m) w1 = (Inr r, w2)" for f
    using get by (simp add: io_wrap_def)
  show ?thesis
  proof (cases "get_label (omni_LabelMachineSet E) r = Some s")
    case True
    with create get Some wrapped show ?thesis
      by (intro bound [of w2 r])
        (simp_all add: EnsureMachineSetNode_def run_try run_bind io_ret_def map_upd_same)
  next
    case False
    obtain err where "EnsureMachineSetNode E cn s m role w = (Inl err, w2)"
      using create wrapped False
      by (cases "get_label (omni_LabelMachineSet E) r")
        (simp_all add: EnsureMachineSetNode_def run_try run_bind io_raise_def)
    with create get Some False show ?thesis
      by (intro refused [of err w2 r]) simp_all
  qed
qed


lemma stringSlicesEqual_iff: "stringSlicesEqual xs ys \<longleftrightarrow> xs = ys"
  by (induction xs ys rule: stringSlicesEqual.induct) auto

lemma run_EnsureMachineKernelArgs:
  assumes store: "cosi_store E V" and new: "omni_constructors E"
  obtains r w' where "EnsureMachineKernelArgs E m args w = (Inr (), w')"
    and "V (env w') = (V (env w))((KernelArgsType, m) \<mapsto> r)" and "r_Spec r = KernelArgsSpec args"
proof (cases "V (env w) (KernelArgsType, m)")
  case None
  let ?r = "with_spec (KernelArgsSpec args) (omni_New E KernelArgsType m)"
  obtain e w1 where get: "StateGet E KernelArgsType m w = (Inl (CosiError ResourceNotFound e), w1)"
      "V (env w1) = V (env w)"
    using run_StateGet_absent [OF store None] .
  have key: "key_of ?r = (KernelArgsType, m)"
    using new by (simp add: key_of_def omni_constructors_def)
  obtain w' where "StateCreate E ?r w1 = (Inr (), w')" "V (env w') = (V (env w1))(key_of ?r \<mapsto> ?r)"
    using run_StateCreate_new [OF store, of w1 ?r] None get(2) key by metis
  with get key show ?thesis
    by (intro that [of w' ?r]) (simp_all add: EnsureMachineKernelArgs_def run_try)
next
  case (Some old)
  obtain w1 where get: "StateGet E KernelArgsType m w = (Inr old, w1)" "V (env w1) = V (env w)"
    using run_StateGet_found [OF store Some] .
  have old: "r_Type old = KernelArgsType" "r_ID old = m"
    using cosi_store_typed [OF store Some] by auto
  then obtain a where spec: "r_Spec old = KernelArgsSpec a"
    by (cases "r_Spec old") auto
  let ?r = "with_spec (KernelArgsSpec args) old"
  have key: "key_of ?r = (KernelArgsType, m)"
    using old by (simp add: key_of_def)
  show ?thesis
  proof (cases "a = args")
    case True
    with get spec Some show ?thesis
      by (intro that [of w1 old])
        (simp_all add: EnsureMachineKernelArgs_def run_try io_ret_def stringSlicesEqual_iff map_upd_same)
  next
    case False
    obtain w' where "StateUpdate E ?r w1 = (Inr (), w')" "V (env w') = (V (env w1))(key_of ?r \<mapsto> ?r)"
      using run_StateUpdate [OF store, of w1 ?r] get(2) Some key by (metis option.distinct(1))
    with False get spec key show ?thesis
      by (intro that [of w' ?r]) (simp_all add: EnsureMachineKernelArgs_def run_try stringSlicesEqual_iff)
  qed
qed

text \<open>A patch resource that carries the data asked for, up to the JSON values the two texts denote.\<close>

definition patch_carries :: "'e ops \<Rightarrow> string \<Rightarrow> resource \<Rightarrow> bool" where
  "patch_carries E data r \<longleftrightarrow> r_Type r = ConfigPatchType \<and>
     (\<exists>buf. omni_GetUncompressedData E (patch_data (r_Spec r)) = Inr buf \<and>
       (buf = data \<or> jsonEqual E buf data))"

definition readable_patches :: "'e ops \<Rightarrow> store \<Rightarrow> bool" where
  "readable_patches E s \<longleftrightarrow> (\<forall>i r. s (ConfigPatchType, i) = Some r \<longrightarrow>
     (\<exists>buf. omni_GetUncompressedData E (patch_data (r_Spec r)) = Inr buf))"

lemma run_set_patch_data:
  assumes "omni_constructors E"
  obtains r' where "set_patch_data E data r w = (Inr r', w)" and "patch_carries E data r'"
    and "r_ID r' = r_ID r" and "r_Labels r' = r_Labels r"
proof -
  obtain c where "omni_SetUncompressedData E data (patch_data (r_Spec r)) = Inr c"
      "omni_GetUncompressedData E c = Inr data"
    using assms unfolding omni_constructors_def by blast
  then show ?thesis
    by (intro that [of "with_spec (ConfigPatchSpec c) r"])
      (simp_all add: set_patch_data_def io_defs patch_carries_def)
qed

text \<open>A patch made afresh is labelled with what it is for; one that was there keeps its labels.\<close>

definition labels_from :: "'e ops \<Rightarrow> string \<Rightarrow> string \<Rightarrow> string \<Rightarrow> resource option \<Rightarrow> (string \<times> string) list" where
  "labels_from E cn s m old = (case old of
     None \<Rightarrow> [(omni_LabelCluster E, cn), (omni_LabelMachineSet E, s), (omni_LabelClusterMachine E, m)]
   | Some r \<Rightarrow> r_Labels r)"

lemma run_EnsureConfigPatch:
  assumes store: "cosi_store E V" and new: "omni_constructors E"
    and readable: "readable_patches E (V (env w))"
  obtains r w' where "EnsureConfigPatch E p cn s m inline w = (Inr (), w')"
    and "V (env w') = (V (env w))((ConfigPatchType, p) \<mapsto> r)"
    and "patch_carries E (RawMessage_MarshalJSON inline) r" and "readable_patches E (V (env w'))"
    and "r_Labels r = labels_from E cn s m (V (env w) (ConfigPatchType, p))"
proof (cases "V (env w) (ConfigPatchType, p)")
  case None
  let ?d = "RawMessage_MarshalJSON inline" and ?n = "new_config_patch E p cn s m"
  obtain e w1 where get: "StateGet E ConfigPatchType p w = (Inl (CosiError ResourceNotFound e), w1)"
      "V (env w1) = V (env w)"
    using run_StateGet_absent [OF store None] .
  obtain r where r: "set_patch_data E ?d ?n w1 = (Inr r, w1)" "patch_carries E ?d r" "r_ID r = r_ID ?n"
      "r_Labels r = r_Labels ?n"
    using run_set_patch_data [OF new] .
  have key: "key_of r = (ConfigPatchType, p)"
    using r new by (simp add: key_of_def patch_carries_def new_config_patch_def omni_constructors_def)
  have labels: "r_Labels ?n = labels_from E cn s m None"
    using new by (simp add: new_config_patch_def labels_from_def omni_constructors_def)
  obtain w' where "StateCreate E r w1 = (Inr (), w')" "V (env w') = (V (env w1))(key_of r \<mapsto> r)"
    using run_StateCreate_new [OF store, of w1 r] None get(2) key by metis
  with get key r labels None show ?thesis
    using readable
    by (intro that [of w' r])
      (auto simp: EnsureConfigPatch_def run_try run_bind Let_def readable_patches_def patch_carries_def)
next
  case (Some old)
  let ?d = "RawMessage_MarshalJSON inline"
  obtain w1 where get: "StateGet E ConfigPatchType p w = (Inr old, w1)" "V (env w1) = V (env w)"
    using run_StateGet_found [OF store Some] .
  obtain buf where buf: "omni_GetUncompressedData E (patch_data (r_Spec old)) = Inr buf"
    using readable Some unfolding readable_patches_def by blast
  have old: "r_Type old = ConfigPatchType" "r_ID old = p"
    using cosi_store_typed [OF store Some] by auto
  have run: "EnsureConfigPatch E p cn s m inline w =
      (if \<not> jsonEqual E buf ?d then io_bind (set_patch_data E ?d old) (StateUpdate E) w1 else io_ret () w1)"
    using get buf by (simp add: EnsureConfigPatch_def run_try Let_def io_defs)
  show ?thesis
  proof (cases "jsonEqual E buf ?d")
    case True
    with run get buf old Some readable show ?thesis
      by (intro that [of w1 old]) (auto simp: io_ret_def map_upd_same patch_carries_def labels_from_def)
  next
    case False
    obtain r where r: "set_patch_data E ?d old w1 = (Inr r, w1)" "patch_carries E ?d r" "r_ID r = r_ID old"
        "r_Labels r = r_Labels old"
      using run_set_patch_data [OF new] .
    then have key: "key_of r = (ConfigPatchType, p)"
      using old by (simp add: key_of_def patch_carries_def)
    obtain w' where "StateUpdate E r w1 = (Inr (), w')" "V (env w') = (V (env w1))(key_of r \<mapsto> r)"
      using run_StateUpdate [OF store, of w1 r] get(2) Some key by (metis option.distinct(1))
    with False run r key get readable Some show ?thesis
      by (intro that [of w' r]) (auto simp: run_bind readable_patches_def patch_carries_def labels_from_def)
  qed
qed

definition machine_patches :: "'e ops \<Rightarrow> store \<Rightarrow> string \<Rightarrow> string \<Rightarrow> string set" where
  "machine_patches E s clusterName machineID =
     {i. \<exists>r. s (ConfigPatchType, i) = Some r \<and> get_label (omni_LabelCluster E) r = Some clusterName \<and>
        get_label (omni_LabelClusterMachine E) r = Some machineID}"

lemma restrict_twice: "s |` (- A) |` (- B) = s |` (- (A \<union> B))"
  by (auto simp: restrict_map_def fun_eq_iff)

lemma restrict_one: "s(k := None) = s |` (- {k})"
  by (auto simp: restrict_map_def fun_eq_iff)

text \<open>Every patch is tried; those that are not held go.\<close>

lemma run_teardown_patches:
  assumes store: "cosi_store E V"
  shows "\<exists>errs K w'. teardown_patches E d ps w = (Inr errs, w') \<and> V (env w') = V (env w) |` (- K) \<and>
    K \<subseteq> Pair ConfigPatchType ` set (map r_ID ps) \<and>
    (if errs = [] then K = Pair ConfigPatchType ` set (map r_ID ps)
     else \<not> unheld E V (Pair ConfigPatchType ` set (map r_ID ps)))"
proof (induction ps arbitrary: w)
  case Nil
  show ?case by (intro exI [of _ "[]"] exI [of _ "{}"] exI [of _ w]) (simp add: io_ret_def restrict_map_def)
next
  case (Cons p ps)
  let ?k = "(ConfigPatchType, r_ID p)" and ?K = "Pair ConfigPatchType ` set (map r_ID ps)"
  note IH = Cons.IH
  show ?case
  proof (rule run_teardownAndDestroy [OF store, of ConfigPatchType "r_ID p" "d @ r_ID p" w])
    fix w1
    assume gone: "teardownAndDestroy E ConfigPatchType (r_ID p) (d @ r_ID p) w = (Inr (), w1)"
      "V (env w1) = (V (env w))(?k := None)"
    obtain errs K w' where rest: "teardown_patches E d ps w1 = (Inr errs, w')" "V (env w') = V (env w1) |` (- K)"
        "K \<subseteq> ?K" "if errs = [] then K = ?K else \<not> unheld E V ?K"
      using IH [of w1] by metis
    have "V (env w') = V (env w) |` (- insert ?k K)"
      unfolding rest(2) gone(2) restrict_one restrict_twice by simp
    moreover have "\<not> unheld E V (insert ?k ?K)" if "errs \<noteq> []"
      using rest(4) that unheld_mono [of E V "insert ?k ?K" ?K] by auto
    ultimately show ?thesis
      using gone(1) rest
      by (intro exI [of _ errs] exI [of _ "insert ?k K"] exI [of _ w'])
        (auto simp: run_try run_bind io_ret_def split: if_splits)
  next
    fix err w1
    assume stuck: "teardownAndDestroy E ConfigPatchType (r_ID p) (d @ r_ID p) w = (Inl err, w1)"
      "V (env w1) = V (env w)" "\<not> unheld E V {?k}"
    obtain errs K w' where rest: "teardown_patches E d ps w1 = (Inr errs, w')" "V (env w') = V (env w1) |` (- K)"
        "K \<subseteq> ?K"
      using IH [of w1] by metis
    have "\<not> unheld E V (insert ?k ?K)"
      using stuck(3) unheld_mono [of E V "insert ?k ?K" "{?k}"] by auto
    with stuck(1,2) rest show ?thesis
      by (intro exI [of _ "err # errs"] exI [of _ K] exI [of _ w']) (auto simp: run_try run_bind io_ret_def)
  qed
qed

lemma run_patches_of_machine:
  assumes store: "cosi_store E V"
  obtains ps w' where "patches_of_machine E cn m w = (Inr ps, w')" and "V (env w') = V (env w)"
    and "set (map r_ID ps) = machine_patches E (V (env w)) cn m"
proof -
  let ?q = "[LabelEqual (omni_LabelCluster E) cn, LabelEqual (omni_LabelClusterMachine E) m]"
  obtain ps w' where ps: "StateListAll E ConfigPatchType ?q w = (Inr ps, w')" "V (env w') = V (env w)"
      "set ps = {r. V (env w) (ConfigPatchType, r_ID r) = Some r \<and> list_all (term_holds r) ?q}"
    using run_StateListAll [OF store] .
  have "set (map r_ID ps) = machine_patches E (V (env w)) cn m"
  proof (rule set_eqI)
    fix i
    have typed: "V (env w) (ConfigPatchType, i) = Some r \<Longrightarrow> r_ID r = i" for r
      using cosi_store_typed [OF store] by blast
    have "i \<in> set (map r_ID ps) \<longleftrightarrow> (\<exists>r. r \<in> set ps \<and> r_ID r = i)"
      by auto
    also have "\<dots> \<longleftrightarrow> i \<in> machine_patches E (V (env w)) cn m"
      unfolding ps(3) machine_patches_def using typed by auto
    finally show "i \<in> set (map r_ID ps) \<longleftrightarrow> i \<in> machine_patches E (V (env w)) cn m" .
  qed
  with ps show ?thesis
    by (intro that [of ps w']) (simp_all add: patches_of_machine_def io_wrap_def)
qed

text \<open>A removal of several resources: all of \<open>K\<close> went, or some of it and then there was an error.\<close>

lemma run_PruneOrphanedConfigPatches:
  assumes store: "cosi_store E V"
    and K: "K = Pair ConfigPatchType ` (machine_patches E (V (env w)) cn m - set keep)"
  obtains (gone) w' where "PruneOrphanedConfigPatches E cn m keep w = (Inr (), w')" and "V (env w') = V (env w) |` (- K)"
  | (stuck) err J w' where "PruneOrphanedConfigPatches E cn m keep w = (Inl err, w')"
      and "V (env w') = V (env w) |` (- J)" and "J \<subseteq> K" and "\<not> unheld E V K"
proof -
  obtain ps w1 where ps: "patches_of_machine E cn m w = (Inr ps, w1)" "V (env w1) = V (env w)"
      "set (map r_ID ps) = machine_patches E (V (env w)) cn m"
    using run_patches_of_machine [OF store] .
  let ?orphans = "filter (\<lambda>p. r_ID p \<notin> set keep) ps"
  have orphans: "Pair ConfigPatchType ` set (map r_ID ?orphans) = K"
  proof -
    have "set (map r_ID ?orphans) = machine_patches E (V (env w)) cn m - set keep"
      unfolding ps(3) [symmetric] by auto
    then show ?thesis unfolding K by simp
  qed
  obtain errs J w' where w': "teardown_patches E ''orphaned config patch '' ?orphans w1 = (Inr errs, w')"
      "V (env w') = V (env w1) |` (- J)" "J \<subseteq> K" "if errs = [] then J = K else \<not> unheld E V K"
    using run_teardown_patches [OF store, of "''orphaned config patch ''" ?orphans w1] unfolding orphans by blast
  show ?thesis
  proof (cases "errs = []")
    case True
    with ps w' show ?thesis
      by (intro gone [of w']) (simp_all add: PruneOrphanedConfigPatches_def run_bind io_ret_def)
  next
    case False
    with ps w' show ?thesis
      by (intro stuck [of _ w' J]) (simp_all add: PruneOrphanedConfigPatches_def run_bind io_raise_def)
  qed
qed

lemma run_DeleteConfigPatchesForMachine:
  assumes store: "cosi_store E V"
    and K: "K = Pair ConfigPatchType ` machine_patches E (V (env w)) cn m"
  obtains (gone) w' where "DeleteConfigPatchesForMachine E cn m w = (Inr (), w')" and "V (env w') = V (env w) |` (- K)"
  | (stuck) err J w' where "DeleteConfigPatchesForMachine E cn m w = (Inl err, w')"
      and "V (env w') = V (env w) |` (- J)" and "J \<subseteq> K" and "\<not> unheld E V K"
proof -
  obtain ps w1 where ps: "patches_of_machine E cn m w = (Inr ps, w1)" "V (env w1) = V (env w)"
      "set (map r_ID ps) = machine_patches E (V (env w)) cn m"
    using run_patches_of_machine [OF store] .
  obtain errs J w' where w': "teardown_patches E ''config patch '' ps w1 = (Inr errs, w')"
      "V (env w') = V (env w1) |` (- J)" "J \<subseteq> K" "if errs = [] then J = K else \<not> unheld E V K"
    using run_teardown_patches [OF store, of "''config patch ''" ps w1] unfolding K ps(3) by blast
  show ?thesis
  proof (cases "errs = []")
    case True
    with ps w' show ?thesis
      by (intro gone [of w']) (simp_all add: DeleteConfigPatchesForMachine_def run_bind io_ret_def)
  next
    case False
    with ps w' show ?thesis
      by (intro stuck [of _ w' J]) (simp_all add: DeleteConfigPatchesForMachine_def run_bind io_raise_def)
  qed
qed

lemma run_ensure_patches:
  assumes store: "cosi_store E V" and new: "omni_constructors E"
    and "readable_patches E (V (env w))" and "distinct (map idOf ps)"
  shows "\<exists>w'. io_for ps (\<lambda>p. io_wrap (f p) (EnsureConfigPatch E (idOf p) cn s m (cp_Inline p))) w = (Inr (), w') \<and>
    readable_patches E (V (env w')) \<and>
    (\<forall>p \<in> set ps. \<exists>r. V (env w') (ConfigPatchType, idOf p) = Some r \<and>
      patch_carries E (RawMessage_MarshalJSON (cp_Inline p)) r \<and>
      r_Labels r = labels_from E cn s m (V (env w) (ConfigPatchType, idOf p))) \<and>
    (\<forall>k. k \<notin> Pair ConfigPatchType ` idOf ` set ps \<longrightarrow> V (env w') k = V (env w) k)"
  using assms(3,4)
proof (induction ps arbitrary: w)
  case Nil
  then show ?case by (simp add: io_ret_def)
next
  case (Cons p ps)
  obtain r w1 where w1: "EnsureConfigPatch E (idOf p) cn s m (cp_Inline p) w = (Inr (), w1)"
      "V (env w1) = (V (env w))((ConfigPatchType, idOf p) \<mapsto> r)"
      "patch_carries E (RawMessage_MarshalJSON (cp_Inline p)) r" "readable_patches E (V (env w1))"
      "r_Labels r = labels_from E cn s m (V (env w) (ConfigPatchType, idOf p))"
    using run_EnsureConfigPatch [OF store new Cons.prems(1)] .
  have distinct: "distinct (map idOf ps)" "idOf p \<notin> idOf ` set ps"
    using Cons.prems(2) by auto
  obtain w' where w': "io_for ps (\<lambda>p. io_wrap (f p) (EnsureConfigPatch E (idOf p) cn s m (cp_Inline p))) w1 = (Inr (), w')"
      "readable_patches E (V (env w'))"
      "\<And>q. q \<in> set ps \<Longrightarrow> \<exists>r. V (env w') (ConfigPatchType, idOf q) = Some r \<and>
        patch_carries E (RawMessage_MarshalJSON (cp_Inline q)) r \<and>
        r_Labels r = labels_from E cn s m (V (env w1) (ConfigPatchType, idOf q))"
      "\<And>k. k \<notin> Pair ConfigPatchType ` idOf ` set ps \<Longrightarrow> V (env w') k = V (env w1) k"
    using Cons.IH [OF w1(4) distinct(1)] by blast
  have "V (env w') (ConfigPatchType, idOf p) = Some r"
    using w'(4) [of "(ConfigPatchType, idOf p)"] distinct(2) w1(2) by auto
  moreover have "V (env w1) (ConfigPatchType, idOf q) = V (env w) (ConfigPatchType, idOf q)" if "q \<in> set ps" for q
    using that distinct(2) unfolding w1(2) by (auto simp: image_iff)
  ultimately show ?case
    using w1 w' by (intro exI [of _ w'] conjI) (auto simp: run_wrap run_bind)
qed

end
