(* ===== verification/Memory_Env.thy ===== *)
theory Memory_Env
  imports Store
begin

text \<open>
  An environment in memory: Kubernetes objects and COSI resources as lists, a clock that counts
  seconds, an Omni that answers. It instantiates every parameter of the development, satisfies
  the hypotheses of \<open>Store\<close>, and is what the witnesses of the properties run on.
\<close>

record memory =
  mem_clusters :: "omni_cluster list"
  mem_machines :: "machine list"
  mem_secrets :: "secret list"
  mem_resources :: "resource list"
  mem_clock :: int
  mem_omni_up :: bool

definition object_named :: "('a \<Rightarrow> object_meta) \<Rightarrow> string \<Rightarrow> string \<Rightarrow> 'a \<Rightarrow> bool" where
  "object_named meta ns name x \<longleftrightarrow> om_Namespace (meta x) = ns \<and> om_Name (meta x) = name"

definition found :: "'a option \<Rightarrow> memory \<Rightarrow> (goerror + 'a) \<times> memory" where
  "found x e = ((case x of None \<Rightarrow> Inl (ApiError NotFound ''not found'') | Some v \<Rightarrow> Inr v), e)"

definition replace_object :: "('a \<Rightarrow> object_meta) \<Rightarrow> 'a \<Rightarrow> 'a list \<Rightarrow> 'a list" where
  "replace_object meta x xs =
     map (\<lambda>y. if object_named meta (om_Namespace (meta x)) (om_Name (meta x)) y then x else y) xs"

definition carries_labels :: "(string, string) gomap \<Rightarrow> (string, string) gomap \<Rightarrow> bool" where
  "carries_labels want have = list_all (\<lambda>(k, v). map_of have k = Some v) want"

definition mem_view :: "memory \<Rightarrow> store" where
  "mem_view e k = find (\<lambda>r. key_of r = k) (mem_resources e)"

definition mem_Get :: "rtype \<Rightarrow> string \<Rightarrow> memory \<Rightarrow> (goerror + resource) \<times> memory" where
  "mem_Get t i e =
     ((case mem_view e (t, i) of
         None \<Rightarrow> Inl (CosiError ResourceNotFound ''not found'') | Some r \<Rightarrow> Inr r), e)"

definition mem_List :: "rtype \<Rightarrow> label_term list \<Rightarrow> memory \<Rightarrow> (goerror + resource list) \<times> memory" where
  "mem_List t q e =
     (Inr (remdups (filter (\<lambda>r. mem_view e (t, r_ID r) = Some r \<and> list_all (term_holds r) q)
                     (mem_resources e))), e)"

definition mem_Create :: "resource \<Rightarrow> memory \<Rightarrow> (goerror + unit) \<times> memory" where
  "mem_Create r e =
     (if mem_view e (key_of r) = None
      then (Inr (), e\<lparr>mem_resources := mem_resources e @ [r]\<rparr>)
      else (Inl (CosiError ResourceConflict ''already exists''), e))"

definition mem_Update :: "resource \<Rightarrow> memory \<Rightarrow> (goerror + unit) \<times> memory" where
  "mem_Update r e =
     (if mem_view e (key_of r) = None then (Inl (CosiError ResourceNotFound ''not found''), e)
      else (Inr (), e\<lparr>mem_resources := map (\<lambda>x. if key_of x = key_of r then r else x) (mem_resources e)\<rparr>))"

definition mem_Teardown :: "rtype \<Rightarrow> string \<Rightarrow> memory \<Rightarrow> (goerror + bool) \<times> memory" where
  "mem_Teardown t i e =
     (if mem_view e (t, i) = None then (Inl (CosiError ResourceNotFound ''not found''), e)
      else (Inr True, e))"

definition mem_Destroy :: "rtype \<Rightarrow> string \<Rightarrow> memory \<Rightarrow> (goerror + unit) \<times> memory" where
  "mem_Destroy t i e =
     (if mem_view e (t, i) = None then (Inl (CosiError ResourceNotFound ''not found''), e)
      else (Inr (), e\<lparr>mem_resources := filter (\<lambda>r. key_of r \<noteq> (t, i)) (mem_resources e)\<rparr>))"

fun replace_condition :: "condition list \<Rightarrow> condition \<Rightarrow> condition list" where
  "replace_condition [] c = [c]"
| "replace_condition (d # ds) c =
     (if cond_Type d = cond_Type c
      then (c\<lparr>cond_LastTransitionTime :=
               (if cond_Status d = cond_Status c then cond_LastTransitionTime d
                else cond_LastTransitionTime c)\<rparr>) # ds
      else d # replace_condition ds c)"

definition blank :: "rtype \<Rightarrow> typed_spec" where
  "blank t = (case t of
      ClusterType \<Rightarrow> ClusterSpec '''' ''''
    | MachineSetType \<Rightarrow> MachineSetSpec
    | MachineSetNodeType \<Rightarrow> MachineSetNodeSpec
    | ConfigPatchType \<Rightarrow> ConfigPatchSpec ''''
    | ExtensionsConfigurationType \<Rightarrow> ExtensionsConfigurationSpec []
    | KernelArgsType \<Rightarrow> KernelArgsSpec []
    | MachineStatusType \<Rightarrow> MachineStatusSpec False
    | ClusterMachineStatusType \<Rightarrow> ClusterMachineStatusSpec
        \<lparr>cms_Stage = RUNNING, cms_Ready = False, cms_ConfigUpToDate = False,
         cms_LastConfigError = '''', cms_ManagementAddress = ''''\<rparr>
    | ClusterStatusType \<Rightarrow> ClusterStatusSpec '''' False)"

definition mem_New :: "rtype \<Rightarrow> string \<Rightarrow> resource" where
  "mem_New t i = \<lparr>r_ID = i, r_Labels = [], r_Spec = blank t\<rparr>"

definition mem_NewMachineSetNode :: "string \<Rightarrow> resource \<Rightarrow> resource" where
  "mem_NewMachineSetNode i s =
     \<lparr>r_ID = i, r_Labels = AList.update ''machine-set'' (r_ID s) (r_Labels s), r_Spec = MachineSetNodeSpec\<rparr>"

definition omni_answer :: "'a \<Rightarrow> memory \<Rightarrow> (goerror + 'a) \<times> memory" where
  "omni_answer x e = ((if mem_omni_up e then Inr x else Inl (Errorf ''omni is down'')), e)"

definition stored_secret :: "memory \<Rightarrow> string \<Rightarrow> string \<Rightarrow> secret option" where
  "stored_secret e ns name = find (object_named sec_Meta ns name) (mem_secrets e)"

definition mem_CreateOrUpdateSecret ::
  "string \<Rightarrow> string \<Rightarrow> (secret \<Rightarrow> secret) \<Rightarrow> memory \<Rightarrow> (goerror + unit) \<times> memory" where
  "mem_CreateOrUpdateSecret ns name mutate e =
     (Inr (), e\<lparr>mem_secrets :=
        (case stored_secret e ns name of
           None \<Rightarrow> mem_secrets e @ [mutate \<lparr>sec_Meta = empty_meta name ns, sec_Data = []\<rparr>]
         | Some s \<Rightarrow> replace_object sec_Meta (mutate s) (mem_secrets e))\<rparr>)"

definition memory_ops :: "memory ops" where
  "memory_ops =
     \<lparr>k8s_GetCluster = (\<lambda>ns n e. found (find (object_named oc_Meta ns n) (mem_clusters e)) e),
      k8s_GetMachine = (\<lambda>ns n e. found (find (object_named m_Meta ns n) (mem_machines e)) e),
      k8s_GetSecret = (\<lambda>ns n e. found (stored_secret e ns n) e),
      k8s_ListMachines = (\<lambda>ns want e. (Inr (filter (\<lambda>m. om_Namespace (m_Meta m) = ns \<and>
          carries_labels want (om_Labels (m_Meta m))) (mem_machines e)), e)),
      k8s_CreateMachine = (\<lambda>m e. (Inr (), e\<lparr>mem_machines := mem_machines e @ [m]\<rparr>)),
      k8s_UpdateMachine = (\<lambda>m e. (Inr (), e\<lparr>mem_machines := replace_object m_Meta m (mem_machines e)\<rparr>)),
      k8s_DeleteMachine = (\<lambda>ns n e. (Inr (),
          e\<lparr>mem_machines := filter (\<lambda>m. \<not> object_named m_Meta ns n m) (mem_machines e)\<rparr>)),
      k8s_UpdateMachineStatus = (\<lambda>m e. (Inr (), e\<lparr>mem_machines := replace_object m_Meta m (mem_machines e)\<rparr>)),
      k8s_UpdateCluster = (\<lambda>c e. (Inr (), e\<lparr>mem_clusters := replace_object oc_Meta c (mem_clusters e)\<rparr>)),
      k8s_UpdateClusterStatus = (\<lambda>c e. (Inr (), e\<lparr>mem_clusters := replace_object oc_Meta c (mem_clusters e)\<rparr>)),
      k8s_DeleteSecret = (\<lambda>ns n e. (Inr (),
          e\<lparr>mem_secrets := filter (\<lambda>s. \<not> object_named sec_Meta ns n s) (mem_secrets e)\<rparr>)),
      k8s_CreateOrUpdateSecret = mem_CreateOrUpdateSecret,
      k8s_ContainsFinalizer = (\<lambda>fs f. f \<in> set fs),
      k8s_AddFinalizer = (\<lambda>fs f. if f \<in> set fs then fs else fs @ [f]),
      k8s_RemoveFinalizer = (\<lambda>fs f. filter (\<lambda>g. g \<noteq> f) fs),
      k8s_SetControllerReference = (\<lambda>c m. Inr (m\<lparr>m_Meta := (m_Meta m)\<lparr>om_OwnerReferences :=
          [\<lparr>or_Kind = ''OmniCluster'', or_Name = oc_Name c, or_Controller = True\<rparr>]\<rparr>\<rparr>)),
      k8s_SetStatusCondition = (\<lambda>e conds c. replace_condition conds
          (c\<lparr>cond_LastTransitionTime := mem_clock e\<rparr>)),
      k8s_LabelSelectorAsSelector = (\<lambda>sel. Inr (carries_labels (ls_MatchLabels sel))),
      k8s_LoadKubeconfig = (\<lambda>s. Inr \<lparr>kc_CurrentContext = ''c'',
          kc_Contexts = [(''c'', \<lparr>kctx_Cluster = ''k'', kctx_AuthInfo = ''u''\<rparr>)],
          kc_Clusters = [(''k'', \<lparr>kcl_Server = ''https://omni'', kcl_CertificateAuthorityData = s\<rparr>)],
          kc_AuthInfos = [(''u'', s)]\<rparr>),
      cosi_Get = mem_Get,
      cosi_List = mem_List,
      cosi_Create = mem_Create,
      cosi_Update = mem_Update,
      cosi_Teardown = mem_Teardown,
      cosi_Destroy = mem_Destroy,
      omni_New = mem_New,
      omni_NewMachineSetNode = mem_NewMachineSetNode,
      omni_NewConfigPatch = (\<lambda>i ls. \<lparr>r_ID = i, r_Labels = ls, r_Spec = ConfigPatchSpec ''''\<rparr>),
      omni_SetUncompressedData = (\<lambda>d old. Inr d),
      omni_GetUncompressedData = (\<lambda>d. Inr d),
      omni_ControlPlanesResourceID = (\<lambda>cn. cn @ ''-control-planes''),
      omni_LabelCluster = ''cluster'',
      omni_LabelMachineSet = ''machine-set'',
      omni_LabelClusterMachine = ''cluster-machine'',
      omni_LabelControlPlaneRole = ''role-controlplane'',
      omni_LabelWorkerRole = ''role-worker'',
      omni_MachineStatusLabelAvailable = ''available'',
      omni_Kubeconfig = (\<lambda>cn a. omni_answer (''kubeconfig of '' @ cn)),
      omni_Reboot = (\<lambda>cn a. omni_answer ()),
      time_Now = (\<lambda>e. (mem_clock e, e\<lparr>mem_clock := mem_clock e + 1000000000\<rparr>)),
      time_FormatRFC3339 = (\<lambda>t. show_int (t div 1000000000)),
      time_ParseRFC3339 = (\<lambda>s. if s = '''' then None else
          Some (1000000000 * foldl (\<lambda>n c. 10 * n + (int (of_char c) - 48)) 0 s)),
      json_Unmarshal = (\<lambda>s. if s = '''' then None else Some (JString s)),
      map_order = (\<lambda>ks. ks)\<rparr>"

lemma memory_fields:
  "k8s_GetCluster memory_ops = (\<lambda>ns n e. found (find (object_named oc_Meta ns n) (mem_clusters e)) e)"
  "k8s_GetMachine memory_ops = (\<lambda>ns n e. found (find (object_named m_Meta ns n) (mem_machines e)) e)"
  "k8s_GetSecret memory_ops = (\<lambda>ns n e. found (stored_secret e ns n) e)"
  "k8s_ListMachines memory_ops = (\<lambda>ns want e. (Inr (filter (\<lambda>m. om_Namespace (m_Meta m) = ns \<and>
          carries_labels want (om_Labels (m_Meta m))) (mem_machines e)), e))"
  "k8s_CreateMachine memory_ops = (\<lambda>m e. (Inr (), e\<lparr>mem_machines := mem_machines e @ [m]\<rparr>))"
  "k8s_UpdateMachine memory_ops = (\<lambda>m e. (Inr (), e\<lparr>mem_machines := replace_object m_Meta m (mem_machines e)\<rparr>))"
  "k8s_DeleteMachine memory_ops = (\<lambda>ns n e. (Inr (),
          e\<lparr>mem_machines := filter (\<lambda>m. \<not> object_named m_Meta ns n m) (mem_machines e)\<rparr>))"
  "k8s_UpdateMachineStatus memory_ops = (\<lambda>m e. (Inr (), e\<lparr>mem_machines := replace_object m_Meta m (mem_machines e)\<rparr>))"
  "k8s_UpdateCluster memory_ops = (\<lambda>c e. (Inr (), e\<lparr>mem_clusters := replace_object oc_Meta c (mem_clusters e)\<rparr>))"
  "k8s_UpdateClusterStatus memory_ops = (\<lambda>c e. (Inr (), e\<lparr>mem_clusters := replace_object oc_Meta c (mem_clusters e)\<rparr>))"
  "k8s_DeleteSecret memory_ops = (\<lambda>ns n e. (Inr (),
          e\<lparr>mem_secrets := filter (\<lambda>s. \<not> object_named sec_Meta ns n s) (mem_secrets e)\<rparr>))"
  "k8s_CreateOrUpdateSecret memory_ops = mem_CreateOrUpdateSecret"
  "k8s_ContainsFinalizer memory_ops = (\<lambda>fs f. f \<in> set fs)"
  "k8s_AddFinalizer memory_ops = (\<lambda>fs f. if f \<in> set fs then fs else fs @ [f])"
  "k8s_RemoveFinalizer memory_ops = (\<lambda>fs f. filter (\<lambda>g. g \<noteq> f) fs)"
  "k8s_SetControllerReference memory_ops = (\<lambda>c m. Inr (m\<lparr>m_Meta := (m_Meta m)\<lparr>om_OwnerReferences :=
          [\<lparr>or_Kind = ''OmniCluster'', or_Name = oc_Name c, or_Controller = True\<rparr>]\<rparr>\<rparr>))"
  "k8s_SetStatusCondition memory_ops = (\<lambda>e conds c. replace_condition conds
          (c\<lparr>cond_LastTransitionTime := mem_clock e\<rparr>))"
  "k8s_LabelSelectorAsSelector memory_ops = (\<lambda>sel. Inr (carries_labels (ls_MatchLabels sel)))"
  "k8s_LoadKubeconfig memory_ops = (\<lambda>s. Inr \<lparr>kc_CurrentContext = ''c'',
          kc_Contexts = [(''c'', \<lparr>kctx_Cluster = ''k'', kctx_AuthInfo = ''u''\<rparr>)],
          kc_Clusters = [(''k'', \<lparr>kcl_Server = ''https://omni'', kcl_CertificateAuthorityData = s\<rparr>)],
          kc_AuthInfos = [(''u'', s)]\<rparr>)"
  "cosi_Get memory_ops = mem_Get"
  "cosi_List memory_ops = mem_List"
  "cosi_Create memory_ops = mem_Create"
  "cosi_Update memory_ops = mem_Update"
  "cosi_Teardown memory_ops = mem_Teardown"
  "cosi_Destroy memory_ops = mem_Destroy"
  "omni_New memory_ops = mem_New"
  "omni_NewMachineSetNode memory_ops = mem_NewMachineSetNode"
  "omni_NewConfigPatch memory_ops = (\<lambda>i ls. \<lparr>r_ID = i, r_Labels = ls, r_Spec = ConfigPatchSpec ''''\<rparr>)"
  "omni_SetUncompressedData memory_ops = (\<lambda>d old. Inr d)"
  "omni_GetUncompressedData memory_ops = (\<lambda>d. Inr d)"
  "omni_ControlPlanesResourceID memory_ops = (\<lambda>cn. cn @ ''-control-planes'')"
  "omni_LabelCluster memory_ops = ''cluster''"
  "omni_LabelMachineSet memory_ops = ''machine-set''"
  "omni_LabelClusterMachine memory_ops = ''cluster-machine''"
  "omni_LabelControlPlaneRole memory_ops = ''role-controlplane''"
  "omni_LabelWorkerRole memory_ops = ''role-worker''"
  "omni_MachineStatusLabelAvailable memory_ops = ''available''"
  "omni_Kubeconfig memory_ops = (\<lambda>cn a. omni_answer (''kubeconfig of '' @ cn))"
  "omni_Reboot memory_ops = (\<lambda>cn a. omni_answer ())"
  "time_Now memory_ops = (\<lambda>e. (mem_clock e, e\<lparr>mem_clock := mem_clock e + 1000000000\<rparr>))"
  "time_FormatRFC3339 memory_ops = (\<lambda>t. show_int (t div 1000000000))"
  "time_ParseRFC3339 memory_ops = (\<lambda>s. if s = '''' then None else
          Some (1000000000 * foldl (\<lambda>n c. 10 * n + (int (of_char c) - 48)) 0 s))"
  "json_Unmarshal memory_ops = (\<lambda>s. if s = '''' then None else Some (JString s))"
  "map_order memory_ops = (\<lambda>ks. ks)"
  by (simp_all add: memory_ops_def)

lemmas memory_simps = memory_fields mem_Get_def mem_List_def mem_Create_def mem_Update_def
  mem_Teardown_def mem_Destroy_def mem_New_def mem_NewMachineSetNode_def omni_answer_def found_def
  object_named_def mem_view_def key_of_def replace_object_def blank_def mem_CreateOrUpdateSecret_def
  stored_secret_def carries_labels_def

section \<open>The hypotheses hold of it\<close>

lemma find_key_append:
  "find (\<lambda>r. key_of r = k) (xs @ ys) =
     (case find (\<lambda>r. key_of r = k) xs of None \<Rightarrow> find (\<lambda>r. key_of r = k) ys | Some x \<Rightarrow> Some x)"
  by (induction xs) auto

lemma find_key_filter:
  "find (\<lambda>r. key_of r = k) (filter (\<lambda>r. key_of r \<noteq> k') xs) =
     (if k = k' then None else find (\<lambda>r. key_of r = k) xs)"
  by (induction xs) auto

lemma find_key_map:
  "find (\<lambda>r. key_of r = k) (map (\<lambda>x. if key_of x = key_of r then r else x) xs) =
     (if k = key_of r \<and> find (\<lambda>r. key_of r = k) xs \<noteq> None then Some r
      else find (\<lambda>r. key_of r = k) xs)"
  by (induction xs) auto

lemma mem_view_key: "mem_view e k = Some r \<Longrightarrow> key_of r = k \<and> r \<in> set (mem_resources e)"
  unfolding mem_view_def by (drule find_SomeD) simp

lemma memory_list_distinct:
  assumes "distinct rs" and "\<forall>r \<in> set rs. mem_view e (t, r_ID r) = Some r"
  shows "distinct (map r_ID rs)"
  using assms by (auto simp: distinct_map inj_on_def) (metis option.inject)

lemma memory_store: "cosi_store memory_ops mem_view"
  unfolding cosi_store_def
proof (intro conjI)
  show "cosi_typed mem_view"
    unfolding cosi_typed_def using mem_view_key by blast
  show "cosi_reads memory_ops mem_view"
    by (auto simp: cosi_reads_def yields_def refuses_def memory_ops_def mem_Get_def)
  show "cosi_lists memory_ops mem_view"
    unfolding cosi_lists_def
  proof (intro allI)
    fix e t q
    let ?rs = "remdups (filter (\<lambda>r. mem_view e (t, r_ID r) = Some r \<and> list_all (term_holds r) q)
                     (mem_resources e))"
    have "distinct (map r_ID ?rs)"
      by (rule memory_list_distinct [of _ e t]) auto
    moreover have "set ?rs = {r. mem_view e (t, r_ID r) = Some r \<and> list_all (term_holds r) q}"
      using mem_view_key by auto
    ultimately show "\<exists>rs. yields mem_view (cosi_List memory_ops t q e) rs (mem_view e) \<and>
        distinct (map r_ID rs) \<and> set rs = {r. mem_view e (t, r_ID r) = Some r \<and> list_all (term_holds r) q}"
      by (intro exI [of _ ?rs]) (simp add: yields_def memory_ops_def mem_List_def)
  qed
  show "cosi_creates memory_ops mem_view"
    by (auto simp: cosi_creates_def yields_def refuses_def memory_ops_def mem_Create_def mem_view_def
        fun_eq_iff find_key_append split: option.splits)
  show "cosi_updates memory_ops mem_view"
    by (auto simp: cosi_updates_def yields_def memory_ops_def mem_Update_def mem_view_def fun_eq_iff find_key_map)
  show "cosi_removes memory_ops mem_view"
    by (auto simp: cosi_removes_def yields_def refuses_def memory_ops_def mem_Teardown_def mem_Destroy_def
        mem_view_def fun_eq_iff find_key_filter)
qed

lemma memory_unheld: "unheld memory_ops mem_view K"
  by (auto simp: unheld_def yields_def memory_ops_def mem_Teardown_def mem_Destroy_def mem_view_def
      fun_eq_iff find_key_filter split: option.splits)

lemma memory_constructors: "omni_constructors memory_ops"
  by (simp add: omni_constructors_def memory_ops_def mem_New_def mem_NewMachineSetNode_def get_label_def)

section \<open>Worlds to run in\<close>

definition empty_memory :: memory where
  "empty_memory =
     \<lparr>mem_clusters = [], mem_machines = [], mem_secrets = [], mem_resources = [],
      mem_clock = 1000000000000, mem_omni_up = True\<rparr>"

definition no_series :: gauges where
  "no_series =
     \<lparr>clusterReadyGauge = [], clusterMachinesAllocatedGauge = [], clusterConfigDriftGauge = [],
      machineRebootsTotal = []\<rparr>"

definition world_of :: "memory \<Rightarrow> memory world" where
  "world_of e = \<lparr>env = e, calls = [], series = no_series\<rparr>"

lemma world_of_simps [simp]: "env (world_of e) = e" "calls (world_of e) = []" "series (world_of e) = no_series"
  by (simp_all add: world_of_def)

end
