(* ===== verification/Machine_Properties.thy ===== *)
theory Machine_Properties
  imports Machine_Controller Memory_Env
begin

text \<open>
  What the \<open>Machine\<close> reconciler guarantees with the Omni client behind it: the reboot protocol on
  the machine's side, the finalizer, the failure record, the status write, the resources it may
  touch, and, over a lawful COSI store, what a release removes and that a binding is never moved.
\<close>

section \<open>Runs of the machine controller with the Omni client\<close>

lemma never_machine_teardown [effects]: "configures Q \<Longrightarrow> never Q (machine_teardown (OmniClient E) m)"
  unfolding machine_teardown_def by (rule omni.never_releaseMachineOmni)

lemma grows_convergeMachine [effects]: "grows (convergeMachine E (OmniClient E) recorder m)"
  by (rule omni.never_convergeMachine) simp_all

lemma grows_reconcileMachine [effects]: "grows (reconcileMachine E (OmniClient E) recorder m)"
  unfolding reconcileMachine_def Let_def by (intro effects configures_nothing; simp)

lemma run_MachineReconcile:
  assumes "k8s_GetMachine E ns name (env w) = (Inr m, e)"
  shows "MachineReconcile E oc recorder ns name w = reconcileMachine E oc recorder m (w\<lparr>env := e\<rparr>)"
  unfolding MachineReconcile_def
  by (simp add: run_try_ext [where f = "k8s_GetMachine E ns name", OF assms])

lemma made_MachineReconcile:
  assumes "k8s_GetMachine E ns name (env w) = (Inr m, e)"
  shows "made (MachineReconcile E oc recorder ns name) w =
    made (reconcileMachine E oc recorder m) (w\<lparr>env := e\<rparr>)"
  unfolding made_def run_MachineReconcile [OF assms] by simp

lemma reboot_in_converge:
  assumes "c \<in> set (made (convergeMachine E (OmniClient E) recorder m) w)" and "is_reboot c"
  shows "rebootOwed (m_Spec m) (m_Status m) \<and>
    c = RebootRPC (ms_ClusterName (m_Spec m)) (ms_ManagementAddress (m_Spec m))"
proof -
  let ?Q = "\<lambda>c. is_reboot c \<and> \<not> (rebootOwed (m_Spec m) (m_Status m) \<and>
    c = RebootRPC (ms_ClusterName (m_Spec m)) (ms_ManagementAddress (m_Spec m)))"
  have "configures ?Q"
    using configures_is_reboot unfolding configures_def by blast
  then have "never ?Q (convergeMachine E (OmniClient E) recorder m)"
    by (rule omni.never_convergeMachine) simp_all
  from never_made [OF this assms(1)] assms(2) show ?thesis by blast
qed

lemma reboot_not_in_teardown:
  "is_reboot c \<Longrightarrow> c \<notin> set (made (machine_teardown (OmniClient E) m) v)"
  using never_made [OF never_machine_teardown [OF configures_is_reboot]] by blast

lemma reboot_in_reconcile:
  assumes "c \<in> set (made (reconcileMachine E (OmniClient E) recorder m) w)" and r: "is_reboot c"
  shows "c \<in> set (made (convergeMachine E (OmniClient E) recorder m) w) \<and> m_DeletionTimestamp m = None"
  using assms unfolding reconcileMachine_def Let_def
  by (auto split: if_splits simp: reboot_not_in_teardown elim!: made_bindE;
      intro effects configures_nothing; simp)

text \<open>What is left of a machine once it is released: no node, no patch of its, no kernel arguments.\<close>

definition release_keys :: "'e ops \<Rightarrow> store \<Rightarrow> string \<Rightarrow> string \<Rightarrow> (rtype \<times> string) set" where
  "release_keys E s cn m = {(MachineSetNodeType, m), (KernelArgsType, m)} \<union> Pair ConfigPatchType ` machine_patches E s cn m"

definition released :: "'e ops \<Rightarrow> string \<Rightarrow> string \<Rightarrow> store \<Rightarrow> store" where
  "released E cn m s = s |` (- release_keys E s cn m)"

lemma run_releaseMachineOmni:
  assumes store: "cosi_store E V"
  obtains (gone) w' where "releaseMachineOmni (OmniClient E) cn m w = (Inr (), w')"
      and "V (env w') = released E cn m (V (env w))"
  | (stuck) err K w' where "releaseMachineOmni (OmniClient E) cn m w = (Inl err, w')"
      and "V (env w') = V (env w) |` (- K)" and "K \<subseteq> release_keys E (V (env w)) cn m"
      and "\<not> unheld E V (release_keys E (V (env w)) cn m)"
proof -
  let ?node = "(MachineSetNodeType, m)" and ?args = "(KernelArgsType, m)"
  define P where "P = Pair ConfigPatchType ` machine_patches E (V (env w)) cn m"
  have keys: "release_keys E (V (env w)) cn m = insert ?node (insert ?args P)"
    by (auto simp: release_keys_def P_def)
  note run = run_steps
  show ?thesis
  proof (rule run_DeleteMachineSetNode [OF store, of m w])
    fix err w1
    assume w1: "DeleteMachineSetNode E m w = (Inl err, w1)" "V (env w1) = V (env w)" "\<not> unheld E V {?node}"
    then obtain err' where "releaseMachineOmni (OmniClient E) cn m w = (Inl err', w1)"
      by (simp add: releaseMachineOmni_def run)
    then show ?thesis
      using w1 unheld_mono [of E V _ "{?node}"] by (intro stuck [of err' w1 "{}"]) (auto simp: keys)
  next
    fix w1
    assume w1: "DeleteMachineSetNode E m w = (Inr (), w1)" "V (env w1) = (V (env w))(?node := None)"
    have P: "P = Pair ConfigPatchType ` machine_patches E (V (env w1)) cn m"
      unfolding w1(2) P_def by (simp add: machine_patches_def)
    show ?thesis
    proof (rule run_DeleteConfigPatchesForMachine [OF store P])
      fix err J w2
      assume w2: "DeleteConfigPatchesForMachine E cn m w1 = (Inl err, w2)" "V (env w2) = V (env w1) |` (- J)" "J \<subseteq> P"
        "\<not> unheld E V P"
      then obtain err' where "releaseMachineOmni (OmniClient E) cn m w = (Inl err', w2)"
        using w1 by (simp add: releaseMachineOmni_def run)
      moreover have "V (env w2) = V (env w) |` (- insert ?node J)"
        unfolding w2(2) w1(2) restrict_one restrict_twice by simp
      ultimately show ?thesis
        using w2 unheld_mono [of E V _ P] by (intro stuck [of err' w2 "insert ?node J"]) (auto simp: keys)
    next
      fix w2
      assume w2: "DeleteConfigPatchesForMachine E cn m w1 = (Inr (), w2)" "V (env w2) = V (env w1) |` (- P)"
      have v2: "V (env w2) = V (env w) |` (- insert ?node P)"
        unfolding w2(2) w1(2) restrict_one restrict_twice by simp
      show ?thesis
      proof (rule run_DeleteKernelArgsForMachine [OF store, of m w2])
        fix err w3
        assume w3: "DeleteKernelArgsForMachine E m w2 = (Inl err, w3)" "V (env w3) = V (env w2)" "\<not> unheld E V {?args}"
        then obtain err' where "releaseMachineOmni (OmniClient E) cn m w = (Inl err', w3)"
          using w1 w2 by (simp add: releaseMachineOmni_def run)
        then show ?thesis
          using w3 v2 unheld_mono [of E V _ "{?args}"]
          by (intro stuck [of err' w3 "insert ?node P"]) (auto simp: keys)
      next
        fix w3
        assume w3: "DeleteKernelArgsForMachine E m w2 = (Inr (), w3)" "V (env w3) = (V (env w2))(?args := None)"
        have "V (env w3) = released E cn m (V (env w))"
          unfolding w3(2) v2 restrict_one restrict_twice released_def keys by (simp add: insert_commute)
        with w1 w2 w3 show ?thesis
          by (intro gone [of w3]) (simp_all add: releaseMachineOmni_def run)
      qed
    qed
  qed
qed

section \<open>A machine to run on\<close>

definition sample_machine :: machine where
  "sample_machine =
     \<lparr>m_Meta = (empty_meta ''m1'' ''ns'')
        \<lparr>om_Finalizers := [machineFinalizerName], om_ResourceVersion := ''1'',
         om_Labels := [(labelCluster, ''c1''), (labelMachineSet, ''c1-w'')]\<rparr>,
      m_Spec = zero_machine_spec
        \<lparr>ms_ClusterName := ''c1'', ms_MachineSetID := ''c1-w'', ms_Role := roleWorker,
         ms_ConfigPatches := [\<lparr>cp_Name = ''p'', cp_Inline = Some ''data''\<rparr>],
         ms_RebootRequestedAt := Some 5, ms_ManagementAddress := ''10.0.0.1''\<rparr>,
      m_Status = zero_machine_status\<rparr>"

definition machine_world :: "machine \<Rightarrow> memory world" where
  "machine_world m = world_of (empty_memory\<lparr>mem_machines := [m]\<rparr>)"

lemma sample_simps [simp]:
  "m_Name sample_machine = ''m1''" "m_Namespace sample_machine = ''ns''"
  "ms_ClusterName (m_Spec sample_machine) = ''c1''" "ms_MachineSetID (m_Spec sample_machine) = ''c1-w''"
  "ms_Role (m_Spec sample_machine) = roleWorker"
  "ms_RebootRequestedAt (m_Spec sample_machine) = Some 5"
  "ms_ManagementAddress (m_Spec sample_machine) = ''10.0.0.1''"
  "m_Status sample_machine = zero_machine_status" "m_DeletionTimestamp sample_machine = None"
  "om_Finalizers (m_Meta sample_machine) = [machineFinalizerName]"
  by (simp_all add: sample_machine_def empty_meta_def)

lemma get_sample [simp]:
  assumes "m_Name m = ''m1''" and "m_Namespace m = ''ns''"
  shows "k8s_GetMachine memory_ops ''ns'' ''m1'' (env (machine_world m)) = (Inr m, env (machine_world m))"
  using assms by (simp add: machine_world_def memory_fields found_def object_named_def)

section \<open>Reboots\<close>

text \<open>C7: A \<open>Machine\<close> reconcile issues the reboot RPC only for a machine that is not being deleted
  and whose requested reboot is still owed, to the management address of its spec, and only after
  the binding, the config patches and the kernel arguments were applied in this same pass.\<close>

theorem machine_reboots_only_when_owed_and_converged:
  assumes get: "k8s_GetMachine E ns name (env w) = (Inr m, e)"
    and c: "c \<in> set (made (MachineReconcile E (OmniClient E) recorder ns name) w)" and r: "is_reboot c"
  shows "c = RebootRPC (ms_ClusterName (m_Spec m)) (ms_ManagementAddress (m_Spec m)) \<and>
    rebootOwed (m_Spec m) (m_Status m) \<and> m_DeletionTimestamp m = None \<and>
    (\<exists>role w1 w2 w3.
      omniRoleLabel E (ms_Role (m_Spec m)) = Inr role \<and>
      EnsureMachineSetNode E (ms_ClusterName (m_Spec m)) (ms_MachineSetID (m_Spec m)) (m_Name m) role
        (w\<lparr>env := e\<rparr>) = (Inr (), w1) \<and>
      applyConfigPatches (OmniClient E) m w1 = (Inr (), w2) \<and>
      reconcileKernelArgs (OmniClient E) m w2 = (Inr (), w3))"
proof -
  have conv: "c \<in> set (made (convergeMachine E (OmniClient E) recorder m) (w\<lparr>env := e\<rparr>))"
    and live: "m_DeletionTimestamp m = None"
    using reboot_in_reconcile [OF _ r] c unfolding made_MachineReconcile [OF get] by blast+
  show ?thesis
    using reboot_in_converge [OF conv r] omni.reboot_after_convergence [OF conv r] live
    by (simp only: OmniClient_simps simp_thms HOL.refl)
qed

lemma sample_reboots:
  "list_ex (\<lambda>c. c = RebootRPC ''c1'' ''10.0.0.1'')
     (made (MachineReconcile memory_ops (OmniClient memory_ops) True ''ns'' ''m1'') (machine_world sample_machine))"
  by code_simp

theorem machine_reboots_only_when_owed_and_converged_witness:
  "rebootOwed (m_Spec sample_machine) (m_Status sample_machine) \<and>
   RebootRPC ''c1'' ''10.0.0.1'' \<in> set (made (MachineReconcile memory_ops (OmniClient memory_ops) True ''ns'' ''m1'')
     (machine_world sample_machine))"
proof -
  have "RebootRPC ''c1'' ''10.0.0.1'' \<in> set (made (MachineReconcile memory_ops (OmniClient memory_ops) True ''ns'' ''m1'')
     (machine_world sample_machine))"
    using sample_reboots unfolding list_ex_iff by blast
  with machine_reboots_only_when_owed_and_converged
    [OF get_sample [of sample_machine] this] show ?thesis
    by simp
qed

text \<open>A \<open>Machine\<close> reconcile makes at most one reboot RPC and at most one status write, whatever
  the API server and Omni answer.\<close>

theorem machine_one_reboot_one_status_write:
  "length (filter is_reboot (made (MachineReconcile E (OmniClient E) recorder ns name) w)) \<le> 1 \<and>
   length (filter is_status_write (made (MachineReconcile E (OmniClient E) recorder ns name) w)) \<le> 1"
  using atmost_made [OF omni.one_reboot] atmost_made [OF omni.one_status_write] by blast

text \<open>C28: When a reboot is owed, \<open>LastRebootTime\<close> is stamped with the clock as read after the RPC,
  whether the RPC succeeded or not; the reboot counter of the cluster goes up exactly on success;
  and a stamp not older than the request settles it, so that the next pass does not reboot.\<close>

theorem reboot_stamped_after_rpc:
  assumes owed: "rebootOwed (m_Spec m) (m_Status m)"
    and rpc: "RebootMachine E (ms_ClusterName (m_Spec m)) (ms_ManagementAddress (m_Spec m)) w = (r, w1)"
    and clock: "time_Now E (env w1) = (t, e2)"
  shows "\<exists>w'. rebootWhenOwed E (OmniClient E) recorder m w =
      (Inr (m\<lparr>m_Status := (m_Status m)\<lparr>mst_LastRebootTime := Some t\<rparr>\<rparr>, isl r), w') \<and>
    map_of (machineRebootsTotal (series w')) =
      (if isl r then map_of (machineRebootsTotal (series w1))
       else (map_of (machineRebootsTotal (series w1)))
         ((ms_ClusterName (m_Spec m), m_Namespace m) \<mapsto>
           (case map_of (machineRebootsTotal (series w1)) (ms_ClusterName (m_Spec m), m_Namespace m) of
              None \<Rightarrow> 1 | Some n \<Rightarrow> n + 1))) \<and>
    (the (ms_RebootRequestedAt (m_Spec m)) \<le> t \<longrightarrow>
       \<not> rebootOwed (m_Spec m) ((m_Status m)\<lparr>mst_LastRebootTime := Some t\<rparr>))"
  using assms
  by (cases r)
    (auto simp: rebootWhenOwed_def io_defs eventf_def inc_series_def rebootOwed_def split: option.splits)

theorem reboot_stamped_after_rpc_witness:
  "\<not> rebootOwed (m_Spec sample_machine)
     ((m_Status sample_machine)\<lparr>mst_LastRebootTime := Some 1000000000000\<rparr>)"
proof -
  let ?w = "machine_world sample_machine"
  have owed: "rebootOwed (m_Spec sample_machine) (m_Status sample_machine)"
    by (simp add: rebootOwed_def zero_machine_status_def)
  have rpc: "RebootMachine memory_ops (ms_ClusterName (m_Spec sample_machine))
      (ms_ManagementAddress (m_Spec sample_machine)) ?w =
      (Inr (), ?w\<lparr>calls := [RebootRPC ''c1'' ''10.0.0.1'']\<rparr>)"
    by (simp add: RebootMachine_def io_defs memory_fields omni_answer_def machine_world_def empty_memory_def
        world_of_def)
  have clock: "time_Now memory_ops (env (?w\<lparr>calls := [RebootRPC ''c1'' ''10.0.0.1'']\<rparr>)) =
      (1000000000000, (env ?w)\<lparr>mem_clock := 1001000000000\<rparr>)"
    by (simp add: memory_fields machine_world_def empty_memory_def)
  show ?thesis
    using reboot_stamped_after_rpc [OF owed rpc clock, where recorder = True] by auto
qed

section \<open>The finalizer\<close>

text \<open>A live \<open>Machine\<close> without the finalizer gets it in a pass that does nothing else, so that
  no Omni state exists for a machine whose deletion would not be held up.\<close>

theorem machine_finalizer_first:
  assumes get: "k8s_GetMachine E ns name (env w) = (Inr m, e)"
    and live: "m_DeletionTimestamp m = None"
    and bare: "\<not> k8s_ContainsFinalizer E (om_Finalizers (m_Meta m)) machineFinalizerName"
  shows "made (MachineReconcile E (OmniClient E) recorder ns name) w =
    [UpdateMachine (with_finalizers (k8s_AddFinalizer E (om_Finalizers (m_Meta m)) machineFinalizerName) m)]"
  using assms unfolding made_MachineReconcile [OF get] reconcileMachine_def by (simp add: Let_def)

theorem machine_finalizer_first_witness:
  "made (MachineReconcile memory_ops (OmniClient memory_ops) True ''ns'' ''m1'')
     (machine_world (with_finalizers [] sample_machine)) = [UpdateMachine sample_machine]"
proof -
  let ?m = "with_finalizers [] sample_machine"
  have "k8s_GetMachine memory_ops ''ns'' ''m1'' (env (machine_world ?m)) = (Inr ?m, env (machine_world ?m))"
    by (rule get_sample) (simp_all add: with_finalizers_def)
  from machine_finalizer_first [OF this, where recorder = True] show ?thesis
    by (simp add: with_finalizers_def memory_fields sample_machine_def empty_meta_def)
qed


lemma run_reconcileMachine_deleting:
  assumes "m_DeletionTimestamp m \<noteq> None"
    and "k8s_ContainsFinalizer E (om_Finalizers (m_Meta m)) machineFinalizerName"
  shows "reconcileMachine E oc recorder m =
    io_bind (io_wrap (\<lambda>e. Wrapf (''teardown machine '' @ m_Name m @ '': '') e '''') (machine_teardown oc m)) (\<lambda>_.
      io_bind (updateMachine E (with_finalizers
        (k8s_RemoveFinalizer E (om_Finalizers (m_Meta m)) machineFinalizerName) m)) (\<lambda>_. io_ret zero_result))"
  using assms by (simp add: reconcileMachine_def Let_def)

text \<open>C24: The finalizer of a \<open>Machine\<close> being deleted is removed only in a pass in which the machine set
  node, then the config patches, then the kernel arguments of the machine were all removed without
  an error; the pass makes no other call than those of the removal and the finalizer update.\<close>

theorem machine_finalizer_removed_after_release:
  assumes get: "k8s_GetMachine E ns name (env w) = (Inr m, e)"
    and deleting: "m_DeletionTimestamp m \<noteq> None"
    and held: "k8s_ContainsFinalizer E (om_Finalizers (m_Meta m)) machineFinalizerName"
    and update: "UpdateMachine m' \<in> set (made (MachineReconcile E (OmniClient E) recorder ns name) w)"
  shows "m' = with_finalizers (k8s_RemoveFinalizer E (om_Finalizers (m_Meta m)) machineFinalizerName) m \<and>
    (\<exists>w1 w2 w3.
      DeleteMachineSetNode E (m_Name m) (w\<lparr>env := e\<rparr>) = (Inr (), w1) \<and>
      DeleteConfigPatchesForMachine E (ms_ClusterName (m_Spec m)) (m_Name m) w1 = (Inr (), w2) \<and>
      DeleteKernelArgsForMachine E (m_Name m) w2 = (Inr (), w3) \<and>
      made (MachineReconcile E (OmniClient E) recorder ns name) w =
        made (machine_teardown (OmniClient E) m) (w\<lparr>env := e\<rparr>) @ [UpdateMachine m'])"
proof -
  let ?v = "w\<lparr>env := e\<rparr>"
  let ?m = "with_finalizers (k8s_RemoveFinalizer E (om_Finalizers (m_Meta m)) machineFinalizerName) m"
  let ?td = "machine_teardown (OmniClient E) m"
  let ?finish = "io_bind (updateMachine E ?m) (\<lambda>_. io_ret zero_result)"
  have no_update: "UpdateMachine m' \<notin> set (made ?td v)" for v
    using never_made [OF never_machine_teardown [of "\<lambda>c. c = UpdateMachine m'"]] unfolding configures_def by auto
  have made: "made (MachineReconcile E (OmniClient E) recorder ns name) w =
      made (io_bind (io_wrap (\<lambda>e. Wrapf (''teardown machine '' @ m_Name m @ '': '') e '''') ?td) (\<lambda>_. ?finish)) ?v"
    unfolding made_MachineReconcile [OF get] run_reconcileMachine_deleting [OF deleting held] ..
  obtain r w3 where td: "?td ?v = (r, w3)"
    by (cases "?td ?v")
  show ?thesis
  proof (cases r)
    case (Inl err)
    then have "made (MachineReconcile E (OmniClient E) recorder ns name) w = made ?td ?v"
      unfolding made using td by (subst made_bind_Inl) (simp_all add: io_wrap_def)
    with update no_update show ?thesis by auto
  next
    case (Inr u)
    have "made (MachineReconcile E (OmniClient E) recorder ns name) w = made ?td ?v @ [UpdateMachine ?m]"
      unfolding made using td Inr
      by (subst made_bind_Inr [where k = 0 and n = 0 and P = "\<lambda>_. False" and Q = "\<lambda>_. False"])
        (simp add: io_wrap_def, intro effects configures_nothing, intro effects, simp_all)
    moreover from this have "m' = ?m"
      using update no_update by auto
    ultimately show ?thesis
      using td Inr unfolding machine_teardown_def releaseMachineOmni_def by (auto simp: io_iff)
  qed
qed

definition deleted_machine :: machine where
  "deleted_machine = sample_machine\<lparr>m_Meta := (m_Meta sample_machine)\<lparr>om_DeletionTimestamp := Some 7\<rparr>\<rparr>"

lemma deleted_updates:
  "list_ex (\<lambda>c. c = UpdateMachine (with_finalizers [] deleted_machine))
     (made (MachineReconcile memory_ops (OmniClient memory_ops) True ''ns'' ''m1'') (machine_world deleted_machine))"
  by code_simp

theorem machine_finalizer_removed_after_release_witness:
  "\<exists>w1. DeleteMachineSetNode memory_ops ''m1'' (machine_world deleted_machine) = (Inr (), w1)"
proof -
  let ?w = "machine_world deleted_machine"
  have update: "UpdateMachine (with_finalizers [] deleted_machine) \<in> set (made
      (MachineReconcile memory_ops (OmniClient memory_ops) True ''ns'' ''m1'') ?w)"
    using deleted_updates unfolding list_ex_iff by blast
  have get: "k8s_GetMachine memory_ops ''ns'' ''m1'' (env ?w) = (Inr deleted_machine, env ?w)"
    by (rule get_sample) (simp_all add: deleted_machine_def)
  have held: "k8s_ContainsFinalizer memory_ops (om_Finalizers (m_Meta deleted_machine)) machineFinalizerName"
    by (simp add: deleted_machine_def memory_fields)
  have deleting: "m_DeletionTimestamp deleted_machine \<noteq> None"
    by (simp add: deleted_machine_def)
  have "m_Name deleted_machine = ''m1''" "?w\<lparr>env := env ?w\<rparr> = ?w"
    by (simp_all add: deleted_machine_def)
  with machine_finalizer_removed_after_release [OF get deleting held update] show ?thesis
    by simp blast
qed

text \<open>C11: Over a lawful COSI store, the pass that deletes a \<open>Machine\<close> removes exactly its machine set
  node, its kernel arguments and the config patches that carry its labels, keeps every other
  resource, and takes the finalizer off; or somebody holds one of those, and then the pass fails
  with an error, has removed nothing else, and leaves the finalizer on for the next pass.\<close>

theorem machine_teardown_releases_exactly:
  assumes store: "cosi_store E V"
    and get: "k8s_GetMachine E ns name (env w) = (Inr m, e)"
    and deleting: "m_DeletionTimestamp m \<noteq> None"
    and held: "k8s_ContainsFinalizer E (om_Finalizers (m_Meta m)) machineFinalizerName"
  shows "\<exists>w1. V (env w1) = released E (ms_ClusterName (m_Spec m)) (m_Name m) (V e) \<and>
      MachineReconcile E (OmniClient E) recorder ns name w =
        io_bind (updateMachine E (with_finalizers
          (k8s_RemoveFinalizer E (om_Finalizers (m_Meta m)) machineFinalizerName) m))
          (\<lambda>_. io_ret zero_result) w1
    \<or> \<not> unheld E V (release_keys E (V e) (ms_ClusterName (m_Spec m)) (m_Name m)) \<and>
      (\<exists>err K. MachineReconcile E (OmniClient E) recorder ns name w = (Inl err, w1) \<and>
        V (env w1) = V e |` (- K) \<and> K \<subseteq> release_keys E (V e) (ms_ClusterName (m_Spec m)) (m_Name m) \<and>
        (\<forall>m'. UpdateMachine m' \<notin> set (made (MachineReconcile E (OmniClient E) recorder ns name) w)))"
proof -
  let ?cn = "ms_ClusterName (m_Spec m)" and ?v = "w\<lparr>env := e\<rparr>"
  note run = run_MachineReconcile [OF get] run_reconcileMachine_deleting [OF deleting held]
  show ?thesis
  proof (rule run_releaseMachineOmni [OF store, of ?cn "m_Name m" ?v])
    fix w1
    assume "releaseMachineOmni (OmniClient E) ?cn (m_Name m) ?v = (Inr (), w1)"
      "V (env w1) = released E ?cn (m_Name m) (V (env ?v))"
    then show ?thesis
      unfolding run machine_teardown_def by (intro exI [of _ w1] disjI1) (simp add: run_bind run_wrap)
  next
    fix err K w1
    assume w1: "releaseMachineOmni (OmniClient E) ?cn (m_Name m) ?v = (Inl err, w1)"
      "V (env w1) = V (env ?v) |` (- K)" "K \<subseteq> release_keys E (V (env ?v)) ?cn (m_Name m)"
      "\<not> unheld E V (release_keys E (V (env ?v)) ?cn (m_Name m))"
    have td: "machine_teardown (OmniClient E) m ?v = (Inl err, w1)"
      unfolding machine_teardown_def by (rule w1(1))
    have "made (MachineReconcile E (OmniClient E) recorder ns name) w = made (machine_teardown (OmniClient E) m) ?v"
      unfolding made_MachineReconcile [OF get] run_reconcileMachine_deleting [OF deleting held] using td
      by (subst made_bind_Inl) (simp_all add: io_wrap_def)
    moreover have "UpdateMachine m' \<notin> set (made (machine_teardown (OmniClient E) m) ?v)" for m'
      using never_made [OF never_machine_teardown [of "\<lambda>c. c = UpdateMachine m'"]] unfolding configures_def by auto
    moreover obtain err' where "MachineReconcile E (OmniClient E) recorder ns name w = (Inl err', w1)"
      unfolding run using td by (simp add: run_steps)
    ultimately show ?thesis
      using w1 by (intro exI [of _ w1] disjI2) auto
  qed
qed

theorem machine_teardown_releases_exactly_witness:
  "\<exists>w1. mem_view (env w1) = released memory_ops ''c1'' ''m1'' (mem_view (env (machine_world deleted_machine))) \<and>
    MachineReconcile memory_ops (OmniClient memory_ops) True ''ns'' ''m1'' (machine_world deleted_machine) =
      io_bind (updateMachine memory_ops (with_finalizers [] deleted_machine)) (\<lambda>_. io_ret zero_result) w1"
proof -
  let ?w = "machine_world deleted_machine"
  have get: "k8s_GetMachine memory_ops ''ns'' ''m1'' (env ?w) = (Inr deleted_machine, env ?w)"
    by (rule get_sample) (simp_all add: deleted_machine_def)
  have held: "k8s_ContainsFinalizer memory_ops (om_Finalizers (m_Meta deleted_machine)) machineFinalizerName"
    and deleting: "m_DeletionTimestamp deleted_machine \<noteq> None"
    by (simp_all add: deleted_machine_def memory_fields)
  from machine_teardown_releases_exactly [OF memory_store get deleting held, where recorder = True]
  show ?thesis
    by (simp add: memory_unheld) (simp add: deleted_machine_def memory_fields)
qed


section \<open>Failures\<close>

definition failed_status :: "machine \<Rightarrow> string \<Rightarrow> goerror \<Rightarrow> condition list \<Rightarrow> machine_status" where
  "failed_status m reason err conds = (m_Status m)
     \<lparr>mst_ObservedGeneration := m_Generation m, mst_Ready := False, mst_Phase := ''Failed'',
      mst_FailureReason := Some reason, mst_FailureMessage := Some (err_msg err), mst_Conditions := conds\<rparr>"

text \<open>C32: When binding the machine fails, the pass ends without an error and asks for a requeue in
  fifteen seconds (an error would make controller-runtime ignore that delay); it makes no call
  after the failed one but the warning event and, if the status differs from the one read, one
  status write with phase \<open>Failed\<close>, the reason and the message; the reboot stamp is kept.\<close>

theorem machine_bind_failure_recorded:
  assumes get: "k8s_GetMachine E ns name (env w) = (Inr m, e)"
    and live: "m_DeletionTimestamp m = None"
    and held: "k8s_ContainsFinalizer E (om_Finalizers (m_Meta m)) machineFinalizerName"
    and role: "omniRoleLabel E (ms_Role (m_Spec m)) = Inr role"
    and bind: "EnsureMachineSetNode E (ms_ClusterName (m_Spec m)) (ms_MachineSetID (m_Spec m)) (m_Name m) role
        (w\<lparr>env := e\<rparr>) = (Inl err, w1)"
    and conds: "conds = k8s_SetStatusCondition E (env w1) (mst_Conditions (m_Status m))
        (new_condition ''Ready'' ConditionFalse ''BindFailed'' (err_msg err) (m_Generation m))"
  shows "fst (MachineReconcile E (OmniClient E) True ns name w) = Inr \<lparr>Requeue = False, RequeueAfter = requeueShort\<rparr> \<and>
    made (MachineReconcile E (OmniClient E) True ns name) w =
      made (EnsureMachineSetNode E (ms_ClusterName (m_Spec m)) (ms_MachineSetID (m_Spec m)) (m_Name m) role) (w\<lparr>env := e\<rparr>) @
      [EmitEvent EventTypeWarning ''BindFailed'' (err_msg err)] @
      (if m_Status m = failed_status m ''BindFailed'' err conds then []
       else [UpdateMachineStatus (m\<lparr>m_Status := failed_status m ''BindFailed'' err conds\<rparr>)]) \<and>
    mst_LastRebootTime (failed_status m ''BindFailed'' err conds) = mst_LastRebootTime (m_Status m)"
proof -
  let ?v = "w\<lparr>env := e\<rparr>"
  let ?ensure = "EnsureMachineSetNode E (ms_ClusterName (m_Spec m)) (ms_MachineSetID (m_Spec m)) (m_Name m) role"
  let ?fail = "machine_setFailure E True m (m_Status m) ''BindFailed'' err"
  have run: "MachineReconcile E (OmniClient E) True ns name w = ?fail w1"
    unfolding run_MachineReconcile [OF get] using live held role bind
    by (simp add: reconcileMachine_def convergeMachine_def Let_def run_try)
  have fail: "fst (?fail w1) = Inr \<lparr>Requeue = False, RequeueAfter = requeueShort\<rparr> \<and>
    calls (snd (?fail w1)) = calls w1 @ [EmitEvent EventTypeWarning ''BindFailed'' (err_msg err)] @
      (if m_Status m = failed_status m ''BindFailed'' err conds then []
       else [UpdateMachineStatus (m\<lparr>m_Status := failed_status m ''BindFailed'' err conds\<rparr>)])"
    unfolding conds
    by (auto simp: machine_setFailure_def Let_def eventf_def set_condition_def write_if_def io_defs failed_status_def
        machineStatusNeedsUpdate_def semantic_eq_machine_status_def split: prod.splits)
  have w1: "calls w1 = calls w @ made ?ensure ?v"
    using calls_made [OF ensureMachineSetNode_op.writes_type, of E _ _ _ role ?v] bind by (metis snd_conv world.select_convs(2) world.surjective world.update_convs(1))
  show ?thesis
    using run fail w1 by (simp add: made_def failed_status_def)
qed

definition rebound_world :: "memory world" where
  "rebound_world = world_of (empty_memory\<lparr>mem_machines := [sample_machine],
     mem_resources := [\<lparr>r_ID = ''m1'', r_Labels = [(''cluster'', ''c2''), (''machine-set'', ''c2-w'')], r_Spec = MachineSetNodeSpec\<rparr>]\<rparr>)"

lemma bound_elsewhere:
  "isl (fst (EnsureMachineSetNode memory_ops ''c1'' ''c1-w'' ''m1'' ''role-worker'' rebound_world))"
  by code_simp

theorem machine_bind_failure_recorded_witness:
  "fst (MachineReconcile memory_ops (OmniClient memory_ops) True ''ns'' ''m1'' rebound_world) =
     Inr \<lparr>Requeue = False, RequeueAfter = requeueShort\<rparr>"
proof -
  let ?w = rebound_world
  obtain err w1 where bind: "EnsureMachineSetNode memory_ops ''c1'' ''c1-w'' ''m1'' ''role-worker'' ?w = (Inl err, w1)"
    using bound_elsewhere by (cases "EnsureMachineSetNode memory_ops ''c1'' ''c1-w'' ''m1'' ''role-worker'' ?w") (auto simp: isl_def)
  have w: "?w\<lparr>env := env ?w\<rparr> = ?w"
    by simp
  have role: "omniRoleLabel memory_ops (ms_Role (m_Spec sample_machine)) = Inr ''role-worker''"
    by code_simp
  have get: "k8s_GetMachine memory_ops ''ns'' ''m1'' (env ?w) = (Inr sample_machine, env ?w)"
    by (simp add: rebound_world_def memory_fields found_def object_named_def)
  from machine_bind_failure_recorded [OF get _ _ role _ refl, of err w1] bind show ?thesis
    by (simp add: memory_fields)
qed

lemma replace_condition_idem:
  "replace_condition (replace_condition cs (c\<lparr>cond_LastTransitionTime := t\<rparr>)) (c\<lparr>cond_LastTransitionTime := t'\<rparr>) =
   replace_condition cs (c\<lparr>cond_LastTransitionTime := t\<rparr>)"
  by (induction cs) auto

section \<open>What a reconcile touches\<close>

text \<open>The calls of a machine reconcile: the three per-machine resource types, and the rest by kind.\<close>

fun machine_scoped :: "call \<Rightarrow> bool" where
  "machine_scoped (UpdateMachine m) = True"
| "machine_scoped (UpdateMachineStatus m) = True"
| "machine_scoped (RebootRPC c a) = True"
| "machine_scoped (EmitEvent t r m) = True"
| "machine_scoped c = (call_type c \<in> {Some MachineSetNodeType, Some ConfigPatchType, Some KernelArgsType})"

text \<open>C31: A \<open>Machine\<close> reconcile never touches cluster- or machine-set-scoped state: every call is on a
  machine set node, a config patch or kernel arguments, a reboot, an event, or a write of the
  \<open>Machine\<close> object itself.\<close>

theorem machine_touches_only_machine_scope:
  "list_all machine_scoped (made (MachineReconcile E (OmniClient E) recorder ns name) w)"
proof -
  have "configures (\<lambda>c. \<not> machine_scoped c)"
    unfolding configures_def
  proof (intro allI impI)
    fix c
    show "\<not> machine_scoped c \<Longrightarrow> call_type c \<noteq> Some MachineSetNodeType \<and> call_type c \<noteq> Some ConfigPatchType \<and>
        call_type c \<noteq> Some KernelArgsType"
      by (cases c) auto
  qed
  then have "never (\<lambda>c. \<not> machine_scoped c) (MachineReconcile E (OmniClient E) recorder ns name)"
    by (rule omni.never_MachineReconcile) simp_all
  from never_made [OF this] show ?thesis
    by (auto simp: list_all_iff)
qed

section \<open>Binding\<close>

text \<open>C19: Over a lawful COSI store, \<open>EnsureMachineSetNode\<close> never moves a machine: it succeeds, with the
  machine bound to the set asked for, exactly when the machine was unbound or bound to that set;
  a machine bound elsewhere, or by a node without the set's label, stays as it is and the call
  fails. No other resource changes.\<close>

theorem ensure_node_never_rebinds:
  assumes store: "cosi_store E V" and new: "omni_constructors E"
    and run: "EnsureMachineSetNode E cn s m role w = (res, w')"
  shows "(case V (env w) (MachineSetNodeType, m) of
      None \<Rightarrow> res = Inr () \<and>
        (\<exists>r. V (env w') = (V (env w))((MachineSetNodeType, m) \<mapsto> r) \<and>
             get_label (omni_LabelMachineSet E) r = Some s)
    | Some r \<Rightarrow> V (env w') = V (env w) \<and>
        (res = Inr () \<longleftrightarrow> get_label (omni_LabelMachineSet E) r = Some s))"
proof (cases "V (env w) (MachineSetNodeType, m)")
  case None
  obtain r where "res = Inr ()" "V (env w') = (V (env w))((MachineSetNodeType, m) \<mapsto> r)"
      "get_label (omni_LabelMachineSet E) r = Some s"
    using run_EnsureMachineSetNode [OF store new, of cn s m role w] None run by auto
  with None show ?thesis by auto
next
  case (Some r)
  then show ?thesis
    using run_EnsureMachineSetNode [OF store new, of cn s m role w] run
    by (auto simp: map_upd_same)
qed

theorem ensure_node_never_rebinds_witness:
  "fst (EnsureMachineSetNode memory_ops ''c1'' ''c1-w'' ''m1'' ''role-worker'' (world_of empty_memory)) = Inr ()"
  using ensure_node_never_rebinds [OF memory_store memory_constructors, of "''c1''" "''c1-w''" "''m1''" "''role-worker''"
    "world_of empty_memory"]
  by (cases "EnsureMachineSetNode memory_ops ''c1'' ''c1-w'' ''m1'' ''role-worker'' (world_of empty_memory)")
    (auto simp: mem_view_def empty_memory_def)

end
