(* ===== verification/Machine_Convergence.thy ===== *)
theory Machine_Convergence
  imports Machine_Properties
begin

text \<open>
  A whole pass of the \<open>Machine\<close> reconciler over a lawful COSI store. \<open>machine_configured\<close> is what the
  spec of a machine asks of Omni, as a predicate on the store; a pass establishes it, changes nothing
  else, and finds nothing to do where it holds already.
\<close>

section \<open>What the spec of a machine asks of Omni\<close>

definition declared_id :: "machine \<Rightarrow> config_patch \<Rightarrow> string" where
  "declared_id m p = patch_id (ms_ClusterName (m_Spec m)) (m_Name m) (cp_Name p)"

definition node_configured :: "'e ops \<Rightarrow> store \<Rightarrow> machine \<Rightarrow> bool" where
  "node_configured E s m \<longleftrightarrow> (\<exists>r. s (MachineSetNodeType, m_Name m) = Some r \<and>
     get_label (omni_LabelMachineSet E) r = Some (ms_MachineSetID (m_Spec m)))"

definition patches_configured :: "'e ops \<Rightarrow> store \<Rightarrow> machine \<Rightarrow> bool" where
  "patches_configured E s m \<longleftrightarrow>
     (\<forall>p \<in> set (ms_ConfigPatches (m_Spec m)). \<exists>r. s (ConfigPatchType, declared_id m p) = Some r \<and>
        patch_carries E (RawMessage_MarshalJSON (cp_Inline p)) r) \<and>
     machine_patches E s (ms_ClusterName (m_Spec m)) (m_Name m) \<subseteq>
       declared_id m ` set (ms_ConfigPatches (m_Spec m))"

definition args_configured :: "store \<Rightarrow> machine \<Rightarrow> bool" where
  "args_configured s m \<longleftrightarrow>
     (if ms_KernelArgs (m_Spec m) = [] then s (KernelArgsType, m_Name m) = None
      else \<exists>r. s (KernelArgsType, m_Name m) = Some r \<and> r_Spec r = KernelArgsSpec (ms_KernelArgs (m_Spec m)))"

definition machine_configured :: "'e ops \<Rightarrow> store \<Rightarrow> machine \<Rightarrow> bool" where
  "machine_configured E s m \<longleftrightarrow> node_configured E s m \<and> patches_configured E s m \<and> args_configured s m"

text \<open>The keys of the store a pass for the machine may change.\<close>

definition patch_keys :: "'e ops \<Rightarrow> store \<Rightarrow> machine \<Rightarrow> (rtype \<times> string) set" where
  "patch_keys E s m = Pair ConfigPatchType ` (declared_id m ` set (ms_ConfigPatches (m_Spec m)) \<union>
     machine_patches E s (ms_ClusterName (m_Spec m)) (m_Name m))"

definition machine_keys :: "'e ops \<Rightarrow> store \<Rightarrow> machine \<Rightarrow> (rtype \<times> string) set" where
  "machine_keys E s m =
     {(MachineSetNodeType, m_Name m), (KernelArgsType, m_Name m)} \<union> patch_keys E s m"

text \<open>What has to go: patches of the machine that are not declared, and kernel arguments if none are.\<close>

definition orphaned_patches :: "'e ops \<Rightarrow> store \<Rightarrow> machine \<Rightarrow> (rtype \<times> string) set" where
  "orphaned_patches E s m = Pair ConfigPatchType ` (machine_patches E s (ms_ClusterName (m_Spec m)) (m_Name m) -
     declared_id m ` set (ms_ConfigPatches (m_Spec m)))"

definition stale_keys :: "'e ops \<Rightarrow> store \<Rightarrow> machine \<Rightarrow> (rtype \<times> string) set" where
  "stale_keys E s m = orphaned_patches E s m \<union>
     (if ms_KernelArgs (m_Spec m) = [] then {(KernelArgsType, m_Name m)} else {})"

text \<open>Each part of the predicate reads the resources of one type only.\<close>

lemma machine_patches_cong:
  "(\<And>i. s (ConfigPatchType, i) = s' (ConfigPatchType, i)) \<Longrightarrow> machine_patches E s cn n = machine_patches E s' cn n"
  by (simp add: machine_patches_def)

lemma patches_configured_cong:
  assumes "\<And>i. s (ConfigPatchType, i) = s' (ConfigPatchType, i)"
  shows "patches_configured E s m = patches_configured E s' m"
  unfolding patches_configured_def using assms machine_patches_cong [of s s' E, OF assms] by simp

lemma readable_patches_cong:
  "(\<And>i. s (ConfigPatchType, i) = s' (ConfigPatchType, i)) \<Longrightarrow> readable_patches E s = readable_patches E s'"
  by (simp add: readable_patches_def)

lemma node_configured_cong:
  "s (MachineSetNodeType, m_Name m) = s' (MachineSetNodeType, m_Name m) \<Longrightarrow>
   node_configured E s m = node_configured E s' m"
  by (simp add: node_configured_def)

section \<open>Each step of the pass\<close>

lemma distinct_declared_ids:
  "distinct (map cp_Name (ms_ConfigPatches (m_Spec m))) \<Longrightarrow>
   distinct (map (declared_id m) (ms_ConfigPatches (m_Spec m)))"
  by (auto simp: distinct_map inj_on_def declared_id_def patch_id_def)

lemma applyConfigPatches_declared:
  "applyConfigPatches oc m =
     io_bind
       (io_for (ms_ConfigPatches (m_Spec m))
         (\<lambda>p. io_wrap (\<lambda>e. Wrapf (''ensure patch '' @ go_quote (cp_Name p) @ '': '') e '''')
            (mc_EnsureConfigPatch oc (declared_id m p) (ms_ClusterName (m_Spec m))
               (ms_MachineSetID (m_Spec m)) (m_Name m) (cp_Inline p))))
       (\<lambda>_. io_wrap (\<lambda>e. Wrapf (''prune patches for machine '' @ m_Name m @ '': '') e '''')
          (mc_PruneOrphanedConfigPatches oc (ms_ClusterName (m_Spec m)) (m_Name m)
             (map (declared_id m) (ms_ConfigPatches (m_Spec m)))))"
  unfolding applyConfigPatches_def Let_def declared_id_def ..

definition patches_labelled :: "'e ops \<Rightarrow> store \<Rightarrow> store \<Rightarrow> machine \<Rightarrow> bool" where
  "patches_labelled E s s' m \<longleftrightarrow> (\<forall>p \<in> set (ms_ConfigPatches (m_Spec m)). \<exists>r.
     s' (ConfigPatchType, declared_id m p) = Some r \<and>
     r_Labels r = labels_from E (ms_ClusterName (m_Spec m)) (ms_MachineSetID (m_Spec m)) (m_Name m)
       (s (ConfigPatchType, declared_id m p)))"

lemma patches_labelled_cong:
  assumes "\<And>i. s (ConfigPatchType, i) = t (ConfigPatchType, i)" and "\<And>i. s' (ConfigPatchType, i) = t' (ConfigPatchType, i)"
  shows "patches_labelled E s s' m = patches_labelled E t t' m"
  unfolding patches_labelled_def assms ..

lemma run_applyConfigPatches:
  assumes store: "cosi_store E V" and new: "omni_constructors E"
    and readable: "readable_patches E (V (env w))"
    and unique: "distinct (map cp_Name (ms_ConfigPatches (m_Spec m)))"
    and unheld: "unheld E V (orphaned_patches E (V (env w)) m)"
  obtains w' where "applyConfigPatches (OmniClient E) m w = (Inr (), w')"
    and "patches_configured E (V (env w')) m" and "patches_labelled E (V (env w)) (V (env w')) m"
    and "\<forall>k. k \<notin> patch_keys E (V (env w)) m \<longrightarrow> V (env w') k = V (env w) k"
proof -
  let ?cn = "ms_ClusterName (m_Spec m)" and ?ps = "ms_ConfigPatches (m_Spec m)"
  let ?old = "machine_patches E (V (env w)) ?cn (m_Name m)"
  obtain w1 where w1: "io_for ?ps (\<lambda>p. io_wrap (\<lambda>e. Wrapf (''ensure patch '' @ go_quote (cp_Name p) @ '': '') e '''')
        (EnsureConfigPatch E (declared_id m p) ?cn (ms_MachineSetID (m_Spec m)) (m_Name m) (cp_Inline p))) w = (Inr (), w1)"
      "\<forall>p \<in> set ?ps. \<exists>r. V (env w1) (ConfigPatchType, declared_id m p) = Some r \<and>
        patch_carries E (RawMessage_MarshalJSON (cp_Inline p)) r \<and>
        r_Labels r = labels_from E ?cn (ms_MachineSetID (m_Spec m)) (m_Name m) (V (env w) (ConfigPatchType, declared_id m p))"
      "\<forall>k. k \<notin> Pair ConfigPatchType ` declared_id m ` set ?ps \<longrightarrow> V (env w1) k = V (env w) k"
    using run_ensure_patches [OF store new readable distinct_declared_ids [OF unique],
        where f = "\<lambda>p e. Wrapf (''ensure patch '' @ go_quote (cp_Name p) @ '': '') e ''''"] by blast
  let ?orphans = "machine_patches E (V (env w1)) ?cn (m_Name m) - set (map (declared_id m) ?ps)"
  have orphans: "?orphans = ?old - declared_id m ` set ?ps"
  proof (rule set_eqI)
    fix i
    have "V (env w1) (ConfigPatchType, i) = V (env w) (ConfigPatchType, i)" if "i \<notin> declared_id m ` set ?ps"
      using w1(3) that by blast
    then show "i \<in> ?orphans \<longleftrightarrow> i \<in> ?old - declared_id m ` set ?ps"
      by (cases "i \<in> declared_id m ` set ?ps") (simp_all add: machine_patches_def)
  qed
  have "unheld E V (Pair ConfigPatchType ` ?orphans)"
    using unheld unfolding orphans orphaned_patches_def by simp
  then obtain w' where w': "PruneOrphanedConfigPatches E ?cn (m_Name m) (map (declared_id m) ?ps) w1 = (Inr (), w')"
      "V (env w') = V (env w1) |` (- Pair ConfigPatchType ` ?orphans)"
    by - (rule run_PruneOrphanedConfigPatches [OF store refl, where w = w1 and cn = ?cn and m = "m_Name m" and
        keep = "map (declared_id m) ?ps"]; blast)
  have "applyConfigPatches (OmniClient E) m w = (Inr (), w')"
    using w1(1) w'(1) by (simp add: applyConfigPatches_declared run_bind run_wrap)
  moreover have "patches_configured E (V (env w')) m"
    unfolding patches_configured_def
  proof
    show "\<forall>p \<in> set ?ps. \<exists>r. V (env w') (ConfigPatchType, declared_id m p) = Some r \<and>
        patch_carries E (RawMessage_MarshalJSON (cp_Inline p)) r"
      using w1(2) unfolding w'(2) by (fastforce simp: restrict_map_def)
    show "machine_patches E (V (env w')) ?cn (m_Name m) \<subseteq> declared_id m ` set ?ps"
      unfolding w'(2) by (auto simp: machine_patches_def restrict_map_def split: if_splits)
  qed
  moreover have "patches_labelled E (V (env w)) (V (env w')) m"
    using w1(2) unfolding patches_labelled_def w'(2) by (fastforce simp: restrict_map_def)
  moreover have "\<forall>k. k \<notin> patch_keys E (V (env w)) m \<longrightarrow> V (env w') k = V (env w) k"
  proof (intro allI impI)
    fix k
    assume "k \<notin> patch_keys E (V (env w)) m"
    then have "k \<notin> Pair ConfigPatchType ` declared_id m ` set ?ps" "k \<notin> Pair ConfigPatchType ` ?orphans"
      unfolding orphans patch_keys_def by blast+
    then show "V (env w') k = V (env w) k"
      using w1(3) [rule_format, of k] unfolding w'(2) by (simp add: restrict_map_def)
  qed
  ultimately show ?thesis
    by (rule that)
qed

lemma run_reconcileKernelArgs:
  assumes store: "cosi_store E V" and new: "omni_constructors E"
    and unheld: "ms_KernelArgs (m_Spec m) = [] \<Longrightarrow> unheld E V {(KernelArgsType, m_Name m)}"
  obtains w' where "reconcileKernelArgs (OmniClient E) m w = (Inr (), w')" and "args_configured (V (env w')) m"
    and "\<forall>k. k \<noteq> (KernelArgsType, m_Name m) \<longrightarrow> V (env w') k = V (env w) k"
proof (cases "ms_KernelArgs (m_Spec m) = []")
  case True
  obtain w' where "DeleteKernelArgsForMachine E (m_Name m) w = (Inr (), w')"
      "V (env w') = (V (env w))((KernelArgsType, m_Name m) := None)"
    using run_DeleteKernelArgsForMachine [OF store, of "m_Name m" w] unheld [OF True] by metis
  with True show ?thesis
    by (intro that [of w']) (simp_all add: reconcileKernelArgs_def args_configured_def)
next
  case False
  obtain r w' where "EnsureMachineKernelArgs E (m_Name m) (ms_KernelArgs (m_Spec m)) w = (Inr (), w')"
      "V (env w') = (V (env w))((KernelArgsType, m_Name m) \<mapsto> r)"
      "r_Spec r = KernelArgsSpec (ms_KernelArgs (m_Spec m))"
    using run_EnsureMachineKernelArgs [OF store new] .
  with False show ?thesis
    by (intro that [of w']) (simp_all add: reconcileKernelArgs_def args_configured_def)
qed

lemma run_bind_machine:
  assumes store: "cosi_store E V" and new: "omni_constructors E"
    and free: "V (env w) (MachineSetNodeType, m_Name m) = None \<or> node_configured E (V (env w)) m"
  obtains w' where "EnsureMachineSetNode E cn (ms_MachineSetID (m_Spec m)) (m_Name m) role w = (Inr (), w')"
    and "node_configured E (V (env w')) m"
    and "\<forall>k. k \<noteq> (MachineSetNodeType, m_Name m) \<longrightarrow> V (env w') k = V (env w) k"
proof (rule run_EnsureMachineSetNode [OF store new, of cn "ms_MachineSetID (m_Spec m)" "m_Name m" role w])
  fix r w'
  assume "EnsureMachineSetNode E cn (ms_MachineSetID (m_Spec m)) (m_Name m) role w = (Inr (), w')"
    and "V (env w') = (V (env w))((MachineSetNodeType, m_Name m) \<mapsto> r)"
    and "get_label (omni_LabelMachineSet E) r = Some (ms_MachineSetID (m_Spec m))"
  then show thesis
    by (intro that [of w']) (simp_all add: node_configured_def)
next
  fix r err w'
  assume "V (env w) (MachineSetNodeType, m_Name m) = Some r"
    and "get_label (omni_LabelMachineSet E) r \<noteq> Some (ms_MachineSetID (m_Spec m))"
  with free show thesis
    by (simp add: node_configured_def)
qed

section \<open>The pass\<close>

lemma run_reconcileMachine_live:
  assumes "m_DeletionTimestamp m = None"
    and "k8s_ContainsFinalizer E (om_Finalizers (m_Meta m)) machineFinalizerName"
  shows "reconcileMachine E oc recorder m = convergeMachine E oc recorder m"
  using assms by (simp add: reconcileMachine_def Let_def)

text \<open>C14: A pass for a live \<open>Machine\<close> with its finalizer, a known role and patches of different names,
  over a lawful COSI store in which the machine is not bound to another set, the patches can be read
  and nobody holds what has to go (the machine's patches that are not declared, and its kernel
  arguments if none are), reaches the reboot and status steps with Omni configured as the spec asks:
  the machine bound to its set, exactly the declared config patches with the declared content, and
  exactly the declared kernel arguments. A patch the pass makes carries the cluster, the machine set
  and the machine as labels; a patch that was there keeps its labels. Every resource that is not this
  machine's is as it was, where a patch is the machine's if it carries its labels or has the ID of a
  declared patch, even should another machine declare the same ID.\<close>

theorem machine_converges:
  assumes store: "cosi_store E V" and new: "omni_constructors E"
    and get: "k8s_GetMachine E ns name (env w) = (Inr m, e)"
    and live: "m_DeletionTimestamp m = None"
    and held: "k8s_ContainsFinalizer E (om_Finalizers (m_Meta m)) machineFinalizerName"
    and role: "omniRoleLabel E (ms_Role (m_Spec m)) = Inr role"
    and free: "V e (MachineSetNodeType, m_Name m) = None \<or> node_configured E (V e) m"
    and readable: "readable_patches E (V e)"
    and unique: "distinct (map cp_Name (ms_ConfigPatches (m_Spec m)))"
    and unheld: "unheld E V (stale_keys E (V e) m)"
  shows "\<exists>w'. MachineReconcile E (OmniClient E) recorder ns name w =
      rebootAndFinish E (OmniClient E) recorder m w' \<and>
    machine_configured E (V (env w')) m \<and>
    (\<forall>p \<in> set (ms_ConfigPatches (m_Spec m)). \<exists>r. V (env w') (ConfigPatchType, declared_id m p) = Some r \<and>
      r_Labels r = (case V e (ConfigPatchType, declared_id m p) of
        None \<Rightarrow> [(omni_LabelCluster E, ms_ClusterName (m_Spec m)), (omni_LabelMachineSet E, ms_MachineSetID (m_Spec m)),
          (omni_LabelClusterMachine E, m_Name m)]
      | Some old \<Rightarrow> r_Labels old)) \<and>
    (\<forall>k. k \<notin> machine_keys E (V e) m \<longrightarrow> V (env w') k = V e k)"
proof -
  obtain w1 where w1: "EnsureMachineSetNode E (ms_ClusterName (m_Spec m)) (ms_MachineSetID (m_Spec m)) (m_Name m)
        role (w\<lparr>env := e\<rparr>) = (Inr (), w1)"
      "node_configured E (V (env w1)) m"
      "\<forall>k. k \<noteq> (MachineSetNodeType, m_Name m) \<longrightarrow> V (env w1) k = V e k"
    using run_bind_machine [OF store new, of "w\<lparr>env := e\<rparr>" m] free by auto
  have patches1: "V (env w1) (ConfigPatchType, i) = V e (ConfigPatchType, i)" for i
    using w1(3) by simp
  have same: "readable_patches E (V (env w1)) = readable_patches E (V e)" "machine_patches E (V (env w1)) = machine_patches E (V e)"
    using readable_patches_cong [of "V (env w1)" "V e" E, OF patches1]
      machine_patches_cong [of "V (env w1)" "V e" E, OF patches1] by (auto simp: fun_eq_iff)
  then have keys: "patch_keys E (V (env w1)) m = patch_keys E (V e) m"
      "orphaned_patches E (V (env w1)) m = orphaned_patches E (V e) m"
    by (simp_all add: patch_keys_def orphaned_patches_def)
  then have unheld1: "unheld E V (orphaned_patches E (V (env w1)) m)"
    using unheld_mono [OF unheld] by (simp add: stale_keys_def)
  obtain w2 where w2: "applyConfigPatches (OmniClient E) m w1 = (Inr (), w2)" "patches_configured E (V (env w2)) m"
      "patches_labelled E (V (env w1)) (V (env w2)) m"
      "\<forall>k. k \<notin> patch_keys E (V (env w1)) m \<longrightarrow> V (env w2) k = V (env w1) k"
    using run_applyConfigPatches [OF store new _ unique unheld1] readable same(1) by blast
  obtain w3 where w3: "reconcileKernelArgs (OmniClient E) m w2 = (Inr (), w3)" "args_configured (V (env w3)) m"
      "\<forall>k. k \<noteq> (KernelArgsType, m_Name m) \<longrightarrow> V (env w3) k = V (env w2) k"
    using run_reconcileKernelArgs [OF store new, of m w2] unheld_mono [OF unheld] by (auto simp: stale_keys_def)
  have "MachineReconcile E (OmniClient E) recorder ns name w = rebootAndFinish E (OmniClient E) recorder m w3"
    unfolding run_MachineReconcile [OF get] run_reconcileMachine_live [OF live held]
    using role w1(1) w2(1) w3(1) by (simp add: convergeMachine_def Let_def run_try)
  moreover have "V (env w3) (MachineSetNodeType, m_Name m) = V (env w1) (MachineSetNodeType, m_Name m)"
    using w3(3) w2(4) by (auto simp: patch_keys_def)
  then have "node_configured E (V (env w3)) m"
    using w1(2) node_configured_cong by blast
  moreover have "patches_configured E (V (env w3)) m" "patches_labelled E (V e) (V (env w3)) m"
    using w2(2,3) patches_configured_cong [of "V (env w3)" "V (env w2)" E m]
      patches_labelled_cong [of "V (env w1)" "V e" "V (env w2)" "V (env w3)" E m] patches1 w3(3) by simp_all
  moreover have "V (env w3) k = V e k" if "k \<notin> machine_keys E (V e) m" for k
    using that w1(3) [rule_format, of k] w2(4) [rule_format, of k] w3(3) [rule_format, of k]
    unfolding keys machine_keys_def by simp
  ultimately show ?thesis
    using w3(2) unfolding machine_configured_def patches_labelled_def labels_from_def by blast
qed

lemma sample_role: "omniRoleLabel memory_ops (ms_Role (m_Spec sample_machine)) = Inr ''role-worker''"
  by code_simp

theorem machine_converges_witness:
  "\<exists>w'. MachineReconcile memory_ops (OmniClient memory_ops) True ''ns'' ''m1'' (machine_world sample_machine) =
      rebootAndFinish memory_ops (OmniClient memory_ops) True sample_machine w' \<and>
    machine_configured memory_ops (mem_view (env w')) sample_machine"
proof -
  have get: "k8s_GetMachine memory_ops ''ns'' ''m1'' (env (machine_world sample_machine)) =
      (Inr sample_machine, env (machine_world sample_machine))"
    by simp
  have "mem_view (env (machine_world sample_machine)) = Map.empty"
    by (simp add: machine_world_def mem_view_def empty_memory_def fun_eq_iff)
  then have free: "mem_view (env (machine_world sample_machine)) (MachineSetNodeType, m_Name sample_machine) = None \<or>
      node_configured memory_ops (mem_view (env (machine_world sample_machine))) sample_machine"
    and readable: "readable_patches memory_ops (mem_view (env (machine_world sample_machine)))"
    by (simp_all add: readable_patches_def)
  have held: "k8s_ContainsFinalizer memory_ops (om_Finalizers (m_Meta sample_machine)) machineFinalizerName"
    and unique: "distinct (map cp_Name (ms_ConfigPatches (m_Spec sample_machine)))"
    by (simp_all add: memory_fields sample_machine_def)
  from machine_converges [OF memory_store memory_constructors get _ held sample_role free readable unique memory_unheld,
      where recorder = True] show ?thesis
    by simp blast
qed

section \<open>A pass where nothing is left to do\<close>

lemma silent_calls: "never (\<lambda>_. True) m \<Longrightarrow> calls (snd (m w)) = calls w"
  using atmostD [of 0 "\<lambda>_. True" m w] by auto

lemma run_EnsureMachineSetNode_bound:
  assumes store: "cosi_store E V" and new: "omni_constructors E"
    and r: "V (env w) (MachineSetNodeType, m) = Some r" "get_label (omni_LabelMachineSet E) r = Some s"
  obtains w' where "EnsureMachineSetNode E cn s m role w = (Inr (), w')" and "V (env w') = V (env w)"
    and "calls w' = calls w @ [CreateResource (machine_set_node E cn s m role)]"
proof -
  let ?n = "machine_set_node E cn s m role"
  obtain msg w1 where create: "StateCreate E ?n w = (Inl (CosiError ResourceConflict msg), w1)"
      "V (env w1) = V (env w)" "calls w1 = calls w @ [CreateResource ?n]"
    using run_StateCreate_exists [OF store, of w ?n] r(1) key_of_machine_set_node(1) [OF new]
    by (metis option.distinct(1))
  obtain w2 where get: "StateGet E MachineSetNodeType m w1 = (Inr r, w2)" "V (env w2) = V (env w1)"
      "calls w2 = calls w1"
    using run_StateGet_found [OF store, of w1] create(2) r(1) by metis
  from create get r(2) show ?thesis
    by (intro that [of w2]) (simp_all add: EnsureMachineSetNode_def run_try run_bind run_wrap io_ret_def)
qed

lemma run_EnsureConfigPatch_current:
  assumes store: "cosi_store E V" and r: "V (env w) (ConfigPatchType, p) = Some r"
    and carries: "patch_carries E (RawMessage_MarshalJSON inline) r"
    and json: "json_Unmarshal E (RawMessage_MarshalJSON inline) \<noteq> None"
  obtains w' where "EnsureConfigPatch E p cn s m inline w = (Inr (), w')" and "V (env w') = V (env w)"
    and "calls w' = calls w"
proof -
  obtain w1 where get: "StateGet E ConfigPatchType p w = (Inr r, w1)" "V (env w1) = V (env w)" "calls w1 = calls w"
    using run_StateGet_found [OF store r] .
  obtain buf where "omni_GetUncompressedData E (patch_data (r_Spec r)) = Inr buf"
      "jsonEqual E buf (RawMessage_MarshalJSON inline)"
    using carries json unfolding patch_carries_def by (auto simp: jsonEqual_def)
  with get show ?thesis
    by (intro that [of w1]) (simp_all add: EnsureConfigPatch_def run_try Let_def io_defs)
qed

lemma run_ensure_patches_current:
  assumes store: "cosi_store E V"
    and "\<forall>p \<in> set ps. \<exists>r. V (env w) (ConfigPatchType, idOf p) = Some r \<and>
      patch_carries E (RawMessage_MarshalJSON (cp_Inline p)) r"
    and "\<forall>p \<in> set ps. json_Unmarshal E (RawMessage_MarshalJSON (cp_Inline p)) \<noteq> None"
  shows "\<exists>w'. io_for ps (\<lambda>p. io_wrap (f p) (EnsureConfigPatch E (idOf p) cn s m (cp_Inline p))) w = (Inr (), w') \<and>
    V (env w') = V (env w) \<and> calls w' = calls w"
  using assms(2,3)
proof (induction ps arbitrary: w)
  case Nil
  then show ?case by (simp add: io_ret_def)
next
  case (Cons p ps)
  obtain r where r: "V (env w) (ConfigPatchType, idOf p) = Some r"
      "patch_carries E (RawMessage_MarshalJSON (cp_Inline p)) r"
      "json_Unmarshal E (RawMessage_MarshalJSON (cp_Inline p)) \<noteq> None"
    using Cons.prems by auto
  obtain w1 where w1: "EnsureConfigPatch E (idOf p) cn s m (cp_Inline p) w = (Inr (), w1)"
      "V (env w1) = V (env w)" "calls w1 = calls w"
    using run_EnsureConfigPatch_current [OF store r] .
  then show ?case
    using Cons.IH [of w1] Cons.prems by (auto simp: run_bind run_wrap)
qed

lemma run_applyConfigPatches_current:
  assumes store: "cosi_store E V" and configured: "patches_configured E (V (env w)) m"
    and json: "\<forall>p \<in> set (ms_ConfigPatches (m_Spec m)). json_Unmarshal E (RawMessage_MarshalJSON (cp_Inline p)) \<noteq> None"
  obtains w' where "applyConfigPatches (OmniClient E) m w = (Inr (), w')" and "V (env w') = V (env w)"
    and "calls w' = calls w"
proof -
  let ?cn = "ms_ClusterName (m_Spec m)" and ?ps = "ms_ConfigPatches (m_Spec m)"
  obtain w1 where w1: "io_for ?ps (\<lambda>p. io_wrap (\<lambda>e. Wrapf (''ensure patch '' @ go_quote (cp_Name p) @ '': '') e '''')
        (EnsureConfigPatch E (declared_id m p) ?cn (ms_MachineSetID (m_Spec m)) (m_Name m) (cp_Inline p))) w = (Inr (), w1)"
      "V (env w1) = V (env w)" "calls w1 = calls w"
    using run_ensure_patches_current [OF store,
        where w = w and ps = ?ps and idOf = "declared_id m" and f = "\<lambda>p e. Wrapf (''ensure patch '' @ go_quote (cp_Name p) @ '': '') e ''''"]
      configured json unfolding patches_configured_def by blast
  obtain rs w2 where rs: "patches_of_machine E ?cn (m_Name m) w1 = (Inr rs, w2)" "V (env w2) = V (env w1)"
      "set (map r_ID rs) = machine_patches E (V (env w1)) ?cn (m_Name m)"
    using run_patches_of_machine [OF store] .
  have "calls w2 = calls w1"
    using silent_calls [OF atmost_patches_of_machine, of E ?cn "m_Name m" w1] rs(1) by simp
  moreover have "filter (\<lambda>p. r_ID p \<notin> set (map (declared_id m) ?ps)) rs = []"
    using rs(3) configured unfolding w1(2) patches_configured_def by (auto simp: filter_empty_conv)
  ultimately show ?thesis
    using w1 rs(1,2)
    by (intro that [of w2]) (simp_all add: applyConfigPatches_declared PruneOrphanedConfigPatches_def
        run_bind run_wrap io_ret_def)
qed

lemma run_reconcileKernelArgs_current:
  assumes store: "cosi_store E V" and configured: "args_configured (V (env w)) m"
  obtains w' where "reconcileKernelArgs (OmniClient E) m w = (Inr (), w')" and "V (env w') = V (env w)"
    and "calls w' = calls w @
      (if ms_KernelArgs (m_Spec m) = [] then [TeardownResource KernelArgsType (m_Name m)] else [])"
proof (cases "ms_KernelArgs (m_Spec m) = []")
  case True
  then have absent: "V (env w) (KernelArgsType, m_Name m) = None"
    using configured by (simp add: args_configured_def)
  then have "refuses V (cosi_Teardown E KernelArgsType (m_Name m) (env w)) ResourceNotFound (V (env w))"
    using store unfolding cosi_store_def cosi_removes_def by blast
  then obtain msg e where "cosi_Teardown E KernelArgsType (m_Name m) (env w) = (Inl (CosiError ResourceNotFound msg), e)"
      "V e = V (env w)"
    by (rule refusesE)
  then show ?thesis
    using True by (intro that [of "w\<lparr>env := e, calls := calls w @ [TeardownResource KernelArgsType (m_Name m)]\<rparr>"])
      (simp_all add: reconcileKernelArgs_def DeleteKernelArgsForMachine_def teardownAndDestroy_def
        StateTeardown_def io_defs)
next
  case False
  then obtain r where r: "V (env w) (KernelArgsType, m_Name m) = Some r"
      "r_Spec r = KernelArgsSpec (ms_KernelArgs (m_Spec m))"
    using configured by (auto simp: args_configured_def)
  obtain w1 where "StateGet E KernelArgsType (m_Name m) w = (Inr r, w1)" "V (env w1) = V (env w)" "calls w1 = calls w"
    using run_StateGet_found [OF store r(1)] .
  with False r(2) show ?thesis
    by (intro that [of w1]) (simp_all add: reconcileKernelArgs_def EnsureMachineKernelArgs_def run_try
        stringSlicesEqual_iff io_ret_def)
qed

text \<open>The status steps, where the status a pass computes has been stored.\<close>

lemma finishReconcile_silent:
  assumes idem: "\<And>e e' cs c. k8s_SetStatusCondition E e' (k8s_SetStatusCondition E e cs c) c = k8s_SetStatusCondition E e cs c"
    and stored: "m = m0\<lparr>m_Status := settled_status m0 failed
        (k8s_SetStatusCondition E e (mst_Conditions (m_Status m0)) (settled_condition m0 failed))\<rparr>"
  shows "finishReconcile E m (m_Status m) failed w =
    (Inr (if failed then \<lparr>Requeue = False, RequeueAfter = requeueShort\<rparr> else zero_result), w)"
proof -
  have "settled_condition m failed = settled_condition m0 failed"
    by (simp add: stored settled_condition_def)
  then have "settled_status m failed (k8s_SetStatusCondition E (env w) (mst_Conditions (m_Status m)) (settled_condition m failed))
      = m_Status m"
    unfolding stored by (simp add: settled_status_def idem)
  then show ?thesis
    by (simp add: finishReconcile_def set_condition_def Let_def io_defs machine_gate.no_self_update write_if_def)
qed

text \<open>C40: A second look at a converged machine settles. Where Omni is configured as the spec asks, no
  reboot is owed, the declared patches are JSON texts and the status a pass computes has been stored,
  a pass succeeds with no requeue, changes no resource and writes no status: all it does is one
  create of the node Omni refuses and, if no kernel arguments are declared, one teardown Omni finds
  nothing for. The API's \<open>SetStatusCondition\<close> is relied on to be idempotent.\<close>

theorem machine_settled_pass_is_silent:
  assumes store: "cosi_store E V" and new: "omni_constructors E"
    and get: "k8s_GetMachine E ns name (env w) = (Inr m, e)"
    and live: "m_DeletionTimestamp m = None"
    and held: "k8s_ContainsFinalizer E (om_Finalizers (m_Meta m)) machineFinalizerName"
    and role: "omniRoleLabel E (ms_Role (m_Spec m)) = Inr role"
    and configured: "machine_configured E (V e) m"
    and json: "\<forall>p \<in> set (ms_ConfigPatches (m_Spec m)). json_Unmarshal E (RawMessage_MarshalJSON (cp_Inline p)) \<noteq> None"
    and idle: "\<not> rebootOwed (m_Spec m) (m_Status m)"
    and idem: "\<And>e e' cs c. k8s_SetStatusCondition E e' (k8s_SetStatusCondition E e cs c) c = k8s_SetStatusCondition E e cs c"
    and stored: "m = m0\<lparr>m_Status := settled_status m0 False
        (k8s_SetStatusCondition E e0 (mst_Conditions (m_Status m0)) (settled_condition m0 False))\<rparr>"
  shows "\<exists>w'. MachineReconcile E (OmniClient E) recorder ns name w = (Inr zero_result, w') \<and> V (env w') = V e \<and>
    calls w' = calls w @
      [CreateResource (machine_set_node E (ms_ClusterName (m_Spec m)) (ms_MachineSetID (m_Spec m)) (m_Name m) role)] @
      (if ms_KernelArgs (m_Spec m) = [] then [TeardownResource KernelArgsType (m_Name m)] else [])"
proof -
  have parts: "node_configured E (V e) m" "patches_configured E (V e) m" "args_configured (V e) m"
    using configured by (simp_all add: machine_configured_def)
  obtain r where r: "V (env (w\<lparr>env := e\<rparr>)) (MachineSetNodeType, m_Name m) = Some r"
      "get_label (omni_LabelMachineSet E) r = Some (ms_MachineSetID (m_Spec m))"
    using parts(1) by (auto simp: node_configured_def)
  let ?node = "machine_set_node E (ms_ClusterName (m_Spec m)) (ms_MachineSetID (m_Spec m)) (m_Name m) role"
  obtain w1 where w1: "EnsureMachineSetNode E (ms_ClusterName (m_Spec m)) (ms_MachineSetID (m_Spec m)) (m_Name m)
        role (w\<lparr>env := e\<rparr>) = (Inr (), w1)" "V (env w1) = V e" "calls w1 = calls w @ [CreateResource ?node]"
    using run_EnsureMachineSetNode_bound [OF store new r, of "ms_ClusterName (m_Spec m)" role] by auto
  obtain w2 where w2: "applyConfigPatches (OmniClient E) m w1 = (Inr (), w2)" "V (env w2) = V (env w1)"
      "calls w2 = calls w1"
    by (rule run_applyConfigPatches_current [OF store _ json, of w1]) (simp_all add: w1(2) parts)
  obtain w3 where w3: "reconcileKernelArgs (OmniClient E) m w2 = (Inr (), w3)" "V (env w3) = V (env w2)"
      "calls w3 = calls w2 @ (if ms_KernelArgs (m_Spec m) = [] then [TeardownResource KernelArgsType (m_Name m)] else [])"
    by (rule run_reconcileKernelArgs_current [OF store, of w2 m]) (simp_all add: w1(2) w2(2) parts)
  have "MachineReconcile E (OmniClient E) recorder ns name w = rebootAndFinish E (OmniClient E) recorder m w3"
    unfolding run_MachineReconcile [OF get] run_reconcileMachine_live [OF live held]
    using role w1(1) w2(1) w3(1) by (simp add: convergeMachine_def Let_def run_try)
  moreover have "rebootAndFinish E (OmniClient E) recorder m w3 = finishReconcile E m (m_Status m) False w3"
    using idle by (simp add: rebootAndFinish_def rebootWhenOwed_def io_bind_def io_ret_def)
  ultimately show ?thesis
    using finishReconcile_silent [OF idem stored, of w3] w1(2,3) w2(2,3) w3(2,3) by simp
qed

definition calm_machine :: machine where
  "calm_machine = sample_machine\<lparr>m_Spec := (m_Spec sample_machine)\<lparr>ms_RebootRequestedAt := None\<rparr>\<rparr>"

definition settled_machine :: machine where
  "settled_machine = calm_machine\<lparr>m_Status := settled_status calm_machine False
     (k8s_SetStatusCondition memory_ops empty_memory (mst_Conditions (m_Status calm_machine))
       (settled_condition calm_machine False))\<rparr>"

definition settled_world :: "memory world" where
  "settled_world = world_of (empty_memory\<lparr>mem_machines := [settled_machine], mem_resources :=
     [\<lparr>r_ID = ''m1'', r_Labels = [(''machine-set'', ''c1-w'')], r_Spec = MachineSetNodeSpec\<rparr>,
      \<lparr>r_ID = ''c1-m1-p'', r_Labels = [(''cluster'', ''c1''), (''cluster-machine'', ''m1'')],
       r_Spec = ConfigPatchSpec ''data''\<rparr>]\<rparr>)"

lemma settled_machine_simps:
  "m_Spec settled_machine = (m_Spec sample_machine)\<lparr>ms_RebootRequestedAt := None\<rparr>"
  "m_Meta settled_machine = m_Meta sample_machine"
  by (simp_all add: settled_machine_def calm_machine_def)

lemma settled_world_configured:
  "machine_configured memory_ops (mem_view (env settled_world)) settled_machine"
  unfolding machine_configured_def
  by (simp add: node_configured_def patches_configured_def args_configured_def settled_world_def
      settled_machine_simps mem_view_def key_of_def memory_fields get_label_def declared_id_def patch_id_def
      patch_carries_def machine_patches_def sample_machine_def empty_meta_def zero_machine_spec_def
      RawMessage_MarshalJSON_def subset_iff)

theorem machine_settled_pass_is_silent_witness:
  "\<exists>w'. MachineReconcile memory_ops (OmniClient memory_ops) True ''ns'' ''m1'' settled_world = (Inr zero_result, w') \<and>
     mem_view (env w') = mem_view (env settled_world) \<and> length (calls w') = 2"
proof -
  have idem: "k8s_SetStatusCondition memory_ops e' (k8s_SetStatusCondition memory_ops e cs c) c =
      k8s_SetStatusCondition memory_ops e cs c" for e e' cs c
    by (simp add: memory_fields replace_condition_idem)
  have get: "k8s_GetMachine memory_ops ''ns'' ''m1'' (env settled_world) = (Inr settled_machine, env settled_world)"
    by (simp add: settled_world_def memory_fields found_def object_named_def settled_machine_simps
        sample_machine_def empty_meta_def)
  have role: "omniRoleLabel memory_ops (ms_Role (m_Spec settled_machine)) = Inr ''role-worker''"
    using sample_role by (simp add: settled_machine_simps)
  have live: "m_DeletionTimestamp settled_machine = None"
    and held: "k8s_ContainsFinalizer memory_ops (om_Finalizers (m_Meta settled_machine)) machineFinalizerName"
    and idle: "\<not> rebootOwed (m_Spec settled_machine) (m_Status settled_machine)"
    and json: "\<forall>p \<in> set (ms_ConfigPatches (m_Spec settled_machine)).
      json_Unmarshal memory_ops (RawMessage_MarshalJSON (cp_Inline p)) \<noteq> None"
    and args: "ms_KernelArgs (m_Spec settled_machine) = []"
    by (simp_all add: settled_machine_simps memory_fields rebootOwed_def sample_machine_def empty_meta_def
        RawMessage_MarshalJSON_def zero_machine_spec_def)
  from machine_settled_pass_is_silent [OF memory_store memory_constructors get live held role
      settled_world_configured json idle idem settled_machine_def, where recorder = True] args
  show ?thesis
    by (auto simp: settled_world_def)
qed

end
