(* ===== verification/Allocation.thy ===== *)
theory Allocation
  imports Omni_Client Common
begin

text \<open>
  The allocation half of \<open>controllers/omnicluster_controller.go\<close>: the \<open>Machine\<close> objects of one
  machine set are brought to the replica count of its spec, by adopting what Omni already has
  bound, creating, or deleting, and kept in step with the spec.

  \<open>existing\<close> and \<open>active\<close> are lists of machines in the code's order, \<open>claimed\<close> is the shared set
  of machine UUIDs as a list without duplicates.
\<close>

section \<open>Machine objects\<close>

definition listClusterMachines :: "'e ops \<Rightarrow> string \<Rightarrow> string \<Rightarrow> ('e, machine list) io" where
  "listClusterMachines E ns clusterName =
     ext [] (k8s_ListMachines E ns [(labelCluster, clusterName)])"

definition listMachineSetMachines ::
  "'e ops \<Rightarrow> string \<Rightarrow> string \<Rightarrow> string \<Rightarrow> ('e, machine list) io" where
  "listMachineSetMachines E ns clusterName machineSetID =
     ext [] (k8s_ListMachines E ns [(labelCluster, clusterName), (labelMachineSet, machineSetID)])"

definition deleteMachine :: "'e ops \<Rightarrow> machine \<Rightarrow> ('e, unit) io" where
  "deleteMachine E machine =
     (if m_DeletionTimestamp machine \<noteq> None then io_ret ()
      else IgnoreNotFound
             (ext [DeleteMachine (m_Namespace machine) (m_Name machine)]
               (k8s_DeleteMachine E (m_Namespace machine) (m_Name machine))))"

definition deleteMachineSetMachines ::
  "'e ops \<Rightarrow> omni_cluster \<Rightarrow> string \<Rightarrow> string \<Rightarrow> ('e, nat) io" where
  "deleteMachineSetMachines E cluster clusterName machineSetID =
     io_bind (io_wrap (\<lambda>e. Wrapf (''list machines for '' @ machineSetID @ '': '') e '''')
                (listMachineSetMachines E (oc_Namespace cluster) clusterName machineSetID)) (\<lambda>machines.
     io_bind (io_for machines (\<lambda>m.
                io_wrap (\<lambda>e. Wrapf (''delete machine '' @ m_Name m @ '': '') e '''') (deleteMachine E m)))
       (\<lambda>_. io_ret (length machines)))"

definition desiredMachineSpec :: "string \<Rightarrow> string \<Rightarrow> string \<Rightarrow> machine_set_spec \<Rightarrow> machine_spec" where
  "desiredMachineSpec clusterName machineSetID role spec =
     \<lparr>ms_ClusterName = clusterName, ms_MachineSetID = machineSetID, ms_Role = role,
      ms_ConfigPatches = mss_ConfigPatches spec, ms_KernelArgs = mss_KernelArgs spec,
      ms_RebootRequestedAt = None, ms_ManagementAddress = ''''\<rparr>"

definition allocation_labels :: "string \<Rightarrow> string \<Rightarrow> (string, string) gomap" where
  "allocation_labels clusterName machineSetID =
     [(labelCluster, clusterName), (labelMachineSet, machineSetID)]"

definition newMachine ::
  "string \<Rightarrow> string \<Rightarrow> string \<Rightarrow> string \<Rightarrow> string \<Rightarrow> machine_set_spec \<Rightarrow> machine" where
  "newMachine ns clusterName machineSetID role machineID spec =
     \<lparr>m_Meta = (empty_meta machineID ns)\<lparr>om_Labels := allocation_labels clusterName machineSetID\<rparr>,
      m_Spec = desiredMachineSpec clusterName machineSetID role spec,
      m_Status = zero_machine_status\<rparr>"

definition createMachine ::
  "'e ops \<Rightarrow> omni_cluster \<Rightarrow> string \<Rightarrow> string \<Rightarrow> string \<Rightarrow> string \<Rightarrow> machine_set_spec \<Rightarrow> ('e, unit) io"
  where
  "createMachine E cluster clusterName machineSetID role machineID spec =
     io_bind (io_wrap (\<lambda>e. Wrapf ''set controller reference: '' e '''')
                (io_lift (k8s_SetControllerReference E cluster
                   (newMachine (oc_Namespace cluster) clusterName machineSetID role machineID spec)))) (\<lambda>m.
     io_bind (io_try (ext [CreateMachine m] (k8s_CreateMachine E m))) (\<lambda>r.
       case r of
         Inl e \<Rightarrow> if IsAlreadyExists e then io_ret () else io_raise e
       | Inr _ \<Rightarrow> io_ret ()))"

definition syncedMachine ::
  "machine \<Rightarrow> string \<Rightarrow> string \<Rightarrow> string \<Rightarrow> machine_set_spec \<Rightarrow> machine" where
  "syncedMachine machine clusterName machineSetID role spec =
     (let want = desiredMachineSpec clusterName machineSetID role spec;
          labels = AList.update labelMachineSet machineSetID
                     (AList.update labelCluster clusterName (om_Labels (m_Meta machine)))
      in machine
           \<lparr>m_Spec := (m_Spec machine)
              \<lparr>ms_ClusterName := ms_ClusterName want, ms_MachineSetID := ms_MachineSetID want,
               ms_Role := ms_Role want, ms_ConfigPatches := ms_ConfigPatches want,
               ms_KernelArgs := ms_KernelArgs want\<rparr>,
            m_Meta := (m_Meta machine)\<lparr>om_Labels := labels\<rparr>\<rparr>)"

definition syncMachineSpec ::
  "'e ops \<Rightarrow> machine \<Rightarrow> string \<Rightarrow> string \<Rightarrow> string \<Rightarrow> machine_set_spec \<Rightarrow> ('e, unit) io" where
  "syncMachineSpec E machine clusterName machineSetID role spec =
     (let updated = syncedMachine machine clusterName machineSetID role spec
      in if semantic_eq_machine_spec (m_Spec machine) (m_Spec updated) \<and>
            gomap_eq (om_Labels (m_Meta machine)) (om_Labels (m_Meta updated))
         then io_ret ()
         else ext [UpdateMachine updated] (k8s_UpdateMachine E updated))"

section \<open>The order of removal\<close>

text \<open>
  The comparison of the scale-down sort as the order of a type: unhealthy before healthy, then
  by name. \<open>sort.SliceStable\<close> with that comparison is \<open>sort_key\<close>, which is stable.
\<close>

datatype removal_rank = RemovalRank bool string

fun removed_before :: "removal_rank \<Rightarrow> removal_rank \<Rightarrow> bool" where
  "removed_before (RemovalRank hi ni) (RemovalRank hj nj) = (if hi \<noteq> hj then \<not> hi else ni < nj)"

instantiation removal_rank :: linorder
begin

definition less_removal_rank :: "removal_rank \<Rightarrow> removal_rank \<Rightarrow> bool" where
  [simp]: "less_removal_rank = removed_before"

definition less_eq_removal_rank :: "removal_rank \<Rightarrow> removal_rank \<Rightarrow> bool" where
  "less_eq_removal_rank a b \<longleftrightarrow> a < b \<or> a = b"

instance
proof
  fix x y z :: removal_rank
  show "(x < y) = (x \<le> y \<and> \<not> y \<le> x)"
    by (cases x; cases y) (auto simp: less_eq_removal_rank_def)
  show "x \<le> x"
    by (simp add: less_eq_removal_rank_def)
  show "x \<le> y \<Longrightarrow> y \<le> z \<Longrightarrow> x \<le> z"
    by (cases x; cases y; cases z) (auto simp: less_eq_removal_rank_def split: if_splits)
  show "x \<le> y \<Longrightarrow> y \<le> x \<Longrightarrow> x = y"
    by (cases x; cases y) (auto simp: less_eq_removal_rank_def split: if_splits)
  show "x \<le> y \<or> y \<le> x"
    by (cases x; cases y) (auto simp: less_eq_removal_rank_def)
qed

end

definition machineHealthy :: "(string, MachineHealth) gomap \<Rightarrow> string \<Rightarrow> bool" where
  "machineHealthy health i =
     (case map_of health i of None \<Rightarrow> False | Some h \<Rightarrow> mh_Connected h \<and> mh_Ready h)"

definition removal_rank :: "(string, MachineHealth) gomap \<Rightarrow> machine \<Rightarrow> removal_rank" where
  "removal_rank health m = RemovalRank (machineHealthy health (m_Name m)) (m_Name m)"

definition sort_for_removal :: "(string, MachineHealth) gomap \<Rightarrow> machine list \<Rightarrow> machine list" where
  "sort_for_removal health active = sort_key (removal_rank health) active"

section \<open>Allocation of one machine set\<close>

text \<open>A machine appended in memory for one just created, without resource version.\<close>

definition synthetic_machine :: "string \<Rightarrow> string \<Rightarrow> machine" where
  "synthetic_machine ns machineID =
     \<lparr>m_Meta = empty_meta machineID ns, m_Spec = zero_machine_spec, m_Status = zero_machine_status\<rparr>"

fun adoptBindings ::
  "'e ops \<Rightarrow> bool \<Rightarrow> omni_cluster \<Rightarrow> string \<Rightarrow> string \<Rightarrow> string \<Rightarrow> machine_set_spec \<Rightarrow>
   string list \<Rightarrow> string list \<Rightarrow> machine list \<Rightarrow> ('e, machine list) io" where
  "adoptBindings E recorder cluster clusterName machineSetID role spec [] haveObject existing =
     io_ret existing"
| "adoptBindings E recorder cluster clusterName machineSetID role spec (machineID # bound) haveObject existing =
     (if machineID \<in> set haveObject
      then adoptBindings E recorder cluster clusterName machineSetID role spec bound haveObject existing
      else io_bind
             (io_wrap (\<lambda>e. Wrapf (''adopt machine '' @ machineID @ '' into '' @ machineSetID @ '': '') e '''')
                (createMachine E cluster clusterName machineSetID role machineID spec)) (\<lambda>_.
           io_bind
             (eventf recorder EventTypeNormal ''MachineAdopted''
                (''Adopted pre-existing Omni binding '' @ machineID @ '' into '' @ machineSetID)) (\<lambda>_.
           adoptBindings E recorder cluster clusterName machineSetID role spec bound
             (machineID # haveObject)
             (existing @ [synthetic_machine (oc_Namespace cluster) machineID]))))"

definition claim :: "string \<Rightarrow> string list \<Rightarrow> string list" where
  "claim i claimed = (if i \<in> set claimed then claimed else claimed @ [i])"

definition claim_all :: "string list \<Rightarrow> string list \<Rightarrow> string list" where
  "claim_all is claimed = fold claim is claimed"

definition active_of :: "machine list \<Rightarrow> machine list" where
  "active_of existing = filter (\<lambda>m. m_DeletionTimestamp m = None) existing"

definition deleting_of :: "machine list \<Rightarrow> nat" where
  "deleting_of existing = length (filter (\<lambda>m. m_DeletionTimestamp m \<noteq> None) existing)"

fun pickFresh :: "nat \<Rightarrow> string list \<Rightarrow> string list \<Rightarrow> string list \<Rightarrow> string list" where
  "pickFresh needed claimed [] fresh = fresh"
| "pickFresh needed claimed (i # candidates) fresh =
     (if i \<in> set claimed then pickFresh needed claimed candidates fresh
      else let fresh' = fresh @ [i]
           in if needed \<le> length fresh' then fresh'
              else pickFresh needed claimed candidates fresh')"

fun createFresh ::
  "'e ops \<Rightarrow> omni_cluster \<Rightarrow> string \<Rightarrow> string \<Rightarrow> string \<Rightarrow> machine_set_spec \<Rightarrow>
   string list \<Rightarrow> machine list \<Rightarrow> string list \<Rightarrow> ('e, machine list \<times> string list) io" where
  "createFresh E cluster clusterName machineSetID role spec [] active claimed = io_ret (active, claimed)"
| "createFresh E cluster clusterName machineSetID role spec (machineID # fresh) active claimed =
     io_bind
       (io_wrap (\<lambda>e. Wrapf (''create machine '' @ machineID @ '' for '' @ machineSetID @ '': '') e '''')
          (createMachine E cluster clusterName machineSetID role machineID spec))
       (\<lambda>_. createFresh E cluster clusterName machineSetID role spec fresh
              (active @ [synthetic_machine '''' machineID]) (claim machineID claimed))"

definition scaleUp ::
  "'e ops \<Rightarrow> bool \<Rightarrow> omni_cluster \<Rightarrow> string \<Rightarrow> string \<Rightarrow> string \<Rightarrow> machine_set_spec \<Rightarrow>
   machine list \<Rightarrow> string list \<Rightarrow> ('e, machine list \<times> string list) io" where
  "scaleUp E recorder cluster clusterName machineSetID role spec active claimed =
     (let needed = nat (mss_Replicas spec - int (length active))
      in io_bind
           (io_wrap (\<lambda>e. Wrapf (''select machines for '' @ machineSetID @ '': '') e '''')
              (SelectAvailableMachines E (mss_MachineSelector spec) (needed + length claimed)))
           (\<lambda>candidates.
              let fresh = pickFresh needed claimed candidates []
              in if length fresh < needed
                 then io_raise (Errorf
                   (''not enough available machines for '' @ machineSetID @ '': need '' @ show_nat needed @
                    '' more, found '' @ show_nat (length fresh) @ '' candidates''))
                 else io_bind
                   (createFresh E cluster clusterName machineSetID role spec fresh active claimed) (\<lambda>r.
                 io_bind
                   (eventf recorder EventTypeNormal ''MachinesAllocated''
                      (''Allocated '' @ show_nat (length fresh) @ '' machine(s) to '' @ machineSetID))
                   (\<lambda>_. io_ret r))))"

text \<open>
  How many machines a scale-down removes, and whether it refused to remove a healthy
  control-plane member. \<open>active\<close> is already in the order of removal.
\<close>

definition removalCount ::
  "string \<Rightarrow> int \<Rightarrow> nat \<Rightarrow> (string, MachineHealth) gomap \<Rightarrow> machine list \<Rightarrow> nat \<Rightarrow> goerror + nat \<times> bool"
  where
  "removalCount role desired deleting health active toRemove =
     (if role = roleControlPlane
      then if desired < 1 then Inl (Errorf ''control plane cannot scale below 1 replica'')
           else let capped = (if 0 < deleting then 0 else if 1 < toRemove then 1 else toRemove)
                in if 0 < capped
                   then case active of
                          [] \<Rightarrow> Inl (Panic ''index out of range'')
                        | a # _ \<Rightarrow> if machineHealthy health (m_Name a) then Inr (0, True)
                                  else Inr (capped, False)
                   else Inr (0, False)
      else Inr (toRemove, False))"

definition evict ::
  "'e ops \<Rightarrow> bool \<Rightarrow> string \<Rightarrow> machine list \<Rightarrow> nat \<Rightarrow> ('e, machine list) io" where
  "evict E recorder machineSetID active toRemove =
     (if 0 < toRemove
      then if length active < toRemove then io_raise (Panic ''slice bounds out of range'')
           else io_bind
                  (io_for (take toRemove active) (\<lambda>m.
                     io_wrap (\<lambda>e. Wrapf (''evict machine '' @ m_Name m @ '' from '' @ machineSetID @ '': '') e '''')
                       (deleteMachine E m))) (\<lambda>_.
                io_bind
                  (eventf recorder EventTypeNormal ''MachinesReleased''
                     (''Released '' @ show_nat toRemove @ '' machine(s) from '' @ machineSetID))
                  (\<lambda>_. io_ret (drop toRemove active)))
      else io_ret active)"

definition over_allocated_message :: "string \<Rightarrow> nat \<Rightarrow> int \<Rightarrow> string" where
  "over_allocated_message machineSetID current desired =
     ''Control plane '' @ machineSetID @ '' has '' @ show_nat current @ '' members but desires '' @
     show_int desired @
     ''; all are healthy, so removing one unattended risks etcd quorum '' @
     [char_of (226::nat), char_of (128::nat), char_of (148::nat)] @
     '' remove a member manually''"

definition scaleDown ::
  "'e ops \<Rightarrow> bool \<Rightarrow> string \<Rightarrow> string \<Rightarrow> machine_set_spec \<Rightarrow> machine list \<Rightarrow> nat \<Rightarrow> ('e, machine list) io"
  where
  "scaleDown E recorder machineSetID role spec active deleting =
     (let desired = mss_Replicas spec;
          current = length active
      in io_bind
           (io_wrap (\<lambda>e. Wrapf (''machine health for '' @ machineSetID @ '': '') e '''')
              (MachineSetNodeHealth E machineSetID)) (\<lambda>health.
         let ordered = sort_for_removal health active
         in io_bind
              (io_lift (removalCount role desired deleting health ordered (nat (int current - desired))))
              (\<lambda>(toRemove, refused).
                 io_bind
                   (if refused
                    then eventf recorder EventTypeWarning ''ControlPlaneOverAllocated''
                           (over_allocated_message machineSetID current desired)
                    else io_ret ())
                   (\<lambda>_. evict E recorder machineSetID ordered toRemove))))"

definition syncSpecs ::
  "'e ops \<Rightarrow> string \<Rightarrow> string \<Rightarrow> string \<Rightarrow> machine_set_spec \<Rightarrow> machine list \<Rightarrow> ('e, unit) io" where
  "syncSpecs E clusterName machineSetID role spec active =
     io_for active (\<lambda>m.
       if om_ResourceVersion (m_Meta m) = '''' then io_ret ()
       else io_wrap (\<lambda>e. Wrapf (''sync machine '' @ m_Name m @ '' spec: '') e '''')
              (syncMachineSpec E m clusterName machineSetID role spec))"

definition reconcileExtensions ::
  "'e ops \<Rightarrow> string \<Rightarrow> string \<Rightarrow> machine_set_spec \<Rightarrow> ('e, unit) io" where
  "reconcileExtensions E clusterName machineSetID spec =
     (if mss_MachineExtensions spec \<noteq> []
      then io_wrap (\<lambda>e. Wrapf (''extensions configuration for '' @ machineSetID @ '': '') e '''')
             (EnsureMachineSetExtensionsConfiguration E clusterName machineSetID (mss_MachineExtensions spec))
      else io_wrap (\<lambda>e. Wrapf (''delete extensions configuration for '' @ machineSetID @ '': '') e '''')
             (DeleteExtensionsConfigurationForMachineSet E machineSetID))"

definition scaleTo ::
  "'e ops \<Rightarrow> bool \<Rightarrow> omni_cluster \<Rightarrow> string \<Rightarrow> string \<Rightarrow> string \<Rightarrow> machine_set_spec \<Rightarrow>
   machine list \<Rightarrow> nat \<Rightarrow> string list \<Rightarrow> ('e, machine list \<times> string list) io" where
  "scaleTo E recorder cluster clusterName machineSetID role spec active deleting claimed =
     (if int (length active) < mss_Replicas spec
      then scaleUp E recorder cluster clusterName machineSetID role spec active claimed
      else if int (length active) > mss_Replicas spec
      then io_bind (scaleDown E recorder machineSetID role spec active deleting)
             (\<lambda>kept. io_ret (kept, claimed))
      else io_ret (active, claimed))"

definition reconcileMachineSetAllocation ::
  "'e ops \<Rightarrow> bool \<Rightarrow> omni_cluster \<Rightarrow> string \<Rightarrow> string \<Rightarrow> string \<Rightarrow> machine_set_spec \<Rightarrow> string list \<Rightarrow>
   ('e, string list \<times> string list) io" where
  "reconcileMachineSetAllocation E recorder cluster clusterName machineSetID role spec claimed =
     io_bind (io_wrap (\<lambda>e. Wrapf (''list machines for '' @ machineSetID @ '': '') e '''')
                (listMachineSetMachines E (oc_Namespace cluster) clusterName machineSetID)) (\<lambda>listed.
     io_bind (io_wrap (\<lambda>e. Wrapf (''list omni bindings for '' @ machineSetID @ '': '') e '''')
                (AllocatedMachineSetNodes E machineSetID)) (\<lambda>bound.
     io_bind (adoptBindings E recorder cluster clusterName machineSetID role spec bound
                (map m_Name listed) listed) (\<lambda>existing.
     io_bind (scaleTo E recorder cluster clusterName machineSetID role spec
                (active_of existing) (deleting_of existing)
                (claim_all (map m_Name existing) claimed)) (\<lambda>(active, claimed').
     io_bind (syncSpecs E clusterName machineSetID role spec active) (\<lambda>_.
     io_bind (reconcileExtensions E clusterName machineSetID spec) (\<lambda>_.
     io_ret (map m_Name active, claimed')))))))"

section \<open>What each step may do\<close>

lemma never_listMachineSetMachines [effects]: "never Q (listMachineSetMachines E ns cn s)"
  by (simp add: listMachineSetMachines_def atmost_ext)

lemma never_listClusterMachines [effects]: "never Q (listClusterMachines E ns cn)"
  by (simp add: listClusterMachines_def atmost_ext)

lemma never_deleteMachine [effects]:
  "(m_DeletionTimestamp m = None \<Longrightarrow> \<not> Q (DeleteMachine (m_Namespace m) (m_Name m))) \<Longrightarrow> never Q (deleteMachine E m)"
  unfolding deleteMachine_def by (intro effects; simp)

lemma never_deleteMachineSetMachines [effects]:
  "(\<And>ns n. \<not> Q (DeleteMachine ns n)) \<Longrightarrow> never Q (deleteMachineSetMachines E cluster cn s)"
  unfolding deleteMachineSetMachines_def by (intro effects) simp_all

lemma never_createMachine [effects]:
  "(\<And>m. \<not> Q (CreateMachine m)) \<Longrightarrow> never Q (createMachine E cluster cn s role i spec)"
  unfolding createMachine_def by (intro effects; simp)

lemma never_syncMachineSpec [effects]:
  "(\<And>m. \<not> Q (UpdateMachine m)) \<Longrightarrow> never Q (syncMachineSpec E m cn s role spec)"
  unfolding syncMachineSpec_def Let_def by (intro effects; simp)

lemma never_adoptBindings [effects]:
  "(\<And>m. \<not> Q (CreateMachine m)) \<Longrightarrow> (\<And>t r m. \<not> Q (EmitEvent t r m)) \<Longrightarrow>
   never Q (adoptBindings E recorder cluster cn s role spec bound have existing)"
  by (induction bound arbitrary: "have" existing) (simp_all add: effects)

lemma never_createFresh [effects]:
  "(\<And>m. \<not> Q (CreateMachine m)) \<Longrightarrow> never Q (createFresh E cluster cn s role spec fresh active claimed)"
  by (induction fresh arbitrary: active claimed) (simp_all add: effects)

lemma never_scaleUp [effects]:
  "(\<And>m. \<not> Q (CreateMachine m)) \<Longrightarrow> (\<And>t r m. \<not> Q (EmitEvent t r m)) \<Longrightarrow>
   never Q (scaleUp E recorder cluster cn s role spec active claimed)"
  unfolding scaleUp_def Let_def by (intro effects) simp_all

lemma never_evict [effects]:
  "(\<And>m. m \<in> set (take n active) \<Longrightarrow> m_DeletionTimestamp m = None \<Longrightarrow> \<not> Q (DeleteMachine (m_Namespace m) (m_Name m))) \<Longrightarrow>
   (\<And>t r m. \<not> Q (EmitEvent t r m)) \<Longrightarrow> never Q (evict E recorder s active n)"
  unfolding evict_def by (intro effects) simp_all

lemma never_scaleDown [effects]:
  "(\<And>ns n. \<not> Q (DeleteMachine ns n)) \<Longrightarrow> (\<And>t r m. \<not> Q (EmitEvent t r m)) \<Longrightarrow>
   never Q (scaleDown E recorder s role spec active deleting)"
  unfolding scaleDown_def Let_def by (intro effects) simp_all

lemma never_syncSpecs [effects]:
  "(\<And>m. \<not> Q (UpdateMachine m)) \<Longrightarrow> never Q (syncSpecs E cn s role spec active)"
  unfolding syncSpecs_def by (intro effects; simp)

lemma never_reconcileExtensions [effects]:
  "(\<And>c. call_type c = Some ExtensionsConfigurationType \<Longrightarrow> \<not> Q c) \<Longrightarrow> never Q (reconcileExtensions E cn s spec)"
  unfolding reconcileExtensions_def DeleteExtensionsConfigurationForMachineSet_def
  by (intro effects atmost_mono [OF ensureExtensions_op.writes_type]) auto

lemma never_scaleTo [effects]:
  "(\<And>ns n. \<not> Q (DeleteMachine ns n)) \<Longrightarrow> (\<And>m. \<not> Q (CreateMachine m)) \<Longrightarrow> (\<And>t r m. \<not> Q (EmitEvent t r m)) \<Longrightarrow>
   never Q (scaleTo E recorder cluster cn s role spec active deleting claimed)"
  unfolding scaleTo_def by (intro effects) simp_all

lemma never_reconcileMachineSetAllocation [effects]:
  assumes "\<And>ns n. \<not> Q (DeleteMachine ns n)" and "\<And>m. \<not> Q (CreateMachine m)" and "\<And>m. \<not> Q (UpdateMachine m)"
    and "\<And>t r m. \<not> Q (EmitEvent t r m)" and "\<And>c. call_type c = Some ExtensionsConfigurationType \<Longrightarrow> \<not> Q c"
  shows "never Q (reconcileMachineSetAllocation E recorder cluster cn s role spec claimed)"
  unfolding reconcileMachineSetAllocation_def by (intro effects; simp add: assms)

section \<open>Bounds on removals\<close>

lemma atmost_for: "(\<And>x. x \<in> set xs \<Longrightarrow> atmost 1 Q (f x)) \<Longrightarrow> atmost (length xs) Q (io_for xs f)"
proof (induction xs)
  case Nil
  show ?case by (simp add: atmost_ret)
next
  case (Cons x xs)
  then show ?case
    by (auto intro!: atmost_bind_sum [where k = 1 and l = "length xs"])
qed

lemma atmost_one_deleteMachine: "atmost 1 Q (deleteMachine E m)"
  unfolding deleteMachine_def IgnoreNotFound_def
  by (intro atmost_if atmost_ret, rule atmost_bind_last, rule atmost_try, rule atmost_ext)
    (simp, intro effects)

lemma removalCount_le:
  "removalCount role desired deleting health active n = Inr (k, refused) \<Longrightarrow> k \<le> n"
  by (auto simp: removalCount_def Let_def split: if_splits list.splits)

lemma removalCount_control_plane:
  "removalCount roleControlPlane desired deleting health active n = Inr (k, refused) \<Longrightarrow>
   k \<le> 1 \<and> 1 \<le> desired \<and>
   (0 < k \<longrightarrow> deleting = 0 \<and> \<not> refused \<and> (\<exists>a rest. active = a # rest \<and> \<not> machineHealthy health (m_Name a)))"
  by (auto simp: removalCount_def Let_def split: if_splits list.splits)

lemma removalCount_worker:
  "role \<noteq> roleControlPlane \<Longrightarrow> removalCount role desired deleting health active n = Inr (n, False)"
  by (simp add: removalCount_def)

lemma atmost_evict: "atmost n is_delete_machine (evict E recorder s active n)"
proof (cases "0 < n \<and> n \<le> length active")
  case True
  have "atmost n is_delete_machine (io_for (take n active) (\<lambda>m.
      io_wrap (\<lambda>e. Wrapf (''evict machine '' @ m_Name m @ '' from '' @ s @ '': '') e '''') (deleteMachine E m)))"
    by (rule atmost_weaken [OF atmost_for], rule atmost_wrap, rule atmost_one_deleteMachine, simp)
  then show ?thesis
    using True unfolding evict_def by (simp, intro atmost_bind_last) (simp_all add: effects)
qed (auto simp: evict_def effects)

lemma one_delete_scaleDown:
  "atmost 1 is_delete_machine (scaleDown E recorder s roleControlPlane spec active deleting)"
  unfolding scaleDown_def Let_def
proof (rule atmost_bind_first, (intro effects; simp), rule atmost_bind_first, (intro effects; simp), rule atmost_prod,
    rule atmost_bind_first, (intro effects; simp))
  fix health p k refused and w w' :: "'a world"
  assume "io_lift (removalCount roleControlPlane (mss_Replicas spec) deleting health (sort_for_removal health active)
      (nat (int (length active) - mss_Replicas spec))) w = (Inr p, w')" and "p = (k, refused)"
  then have "k \<le> 1"
    using removalCount_control_plane by (auto simp: io_iff)
  with atmost_evict [of k E recorder s "sort_for_removal health active"]
  show "atmost 1 is_delete_machine (evict E recorder s (sort_for_removal health active) k)"
    by (rule atmost_weaken)
qed

lemma one_delete_allocation:
  "atmost 1 is_delete_machine
     (reconcileMachineSetAllocation E recorder cluster cn s roleControlPlane spec claimed)"
proof -
  have scale: "atmost 1 is_delete_machine
      (scaleTo E recorder cluster cn s roleControlPlane spec active deleting claimed')" for active deleting claimed'
    unfolding scaleTo_def
    by (intro atmost_if atmost_bind_last one_delete_scaleDown never_atmost [OF never_scaleUp] atmost_ret) simp_all
  have sync: "never is_delete_machine (syncSpecs E cn s roleControlPlane spec active)" for active
    by (intro effects) simp
  have ext: "never is_delete_machine (reconcileExtensions E cn s spec)"
    by (intro effects) (auto elim: is_delete_machine.elims)
  show ?thesis
    unfolding reconcileMachineSetAllocation_def
    by (rule atmost_bind_first, intro effects, rule atmost_bind_first, intro effects,
        rule atmost_bind_first, (intro effects; simp), rule atmost_bind_last [OF scale],
        intro effects sync ext)
qed


end
