(* ===== verification/Omni_Properties.thy ===== *)
theory Omni_Properties
  imports Memory_Env Allocation
begin

text \<open>
  What the operations of the Omni client guarantee by themselves: ownership of the cluster
  resource, the selection of free machines, the removal protocol, pruning and machine health.
\<close>

section \<open>Ownership\<close>

text \<open>\<open>EnsureCluster\<close> refuses an Omni cluster stamped with another owner: it writes nothing, and its
  error is the ownership conflict, which names the cluster and both owners.\<close>

theorem ensure_cluster_refuses_foreign_owner:
  assumes got: "StateGet E ClusterType name w = (Inr existing, w1)"
    and foreign: "get_label ownerLabel existing = Some other" "other \<noteq> owner"
  shows "\<exists>err. EnsureCluster E name owner kube talos w = (Inl err, w1) \<and> IsOwnershipConflict err \<and>
    made (EnsureCluster E name owner kube talos) w = [] \<and>
    err_msg err = ''omni cluster ownership conflict: omni cluster '' @ go_quote name @ '' is owned by '' @ other @
      '', refusing to adopt (this OmniCluster is '' @ owner @ '')''"
proof -
  have "calls w1 = calls w"
    using got by (auto simp: StateGet_def io_defs split: prod.splits sum.splits if_splits)
  then show ?thesis
    using assms by (simp add: EnsureCluster_def run_try Let_def io_raise_def made_def)
qed

definition owned_cluster :: resource where
  "owned_cluster = \<lparr>r_ID = ''c1'', r_Labels = [(ownerLabel, ''ns/c1'')], r_Spec = ClusterSpec ''1.30.0'' ''v1.8.0''\<rparr>"

definition owned_world :: "memory world" where
  "owned_world = world_of (empty_memory\<lparr>mem_resources := [owned_cluster]\<rparr>)"

lemma owned_world_get: "StateGet memory_ops ClusterType ''c1'' owned_world = (Inr owned_cluster, owned_world)"
  by (simp add: StateGet_def io_defs memory_simps owned_world_def owned_cluster_def empty_memory_def)

theorem ensure_cluster_refuses_foreign_owner_witness:
  "\<exists>err. EnsureCluster memory_ops ''c1'' ''other/c1'' ''1.30.0'' ''v1.8.0'' owned_world = (Inl err, owned_world) \<and>
     IsOwnershipConflict err"
  using ensure_cluster_refuses_foreign_owner [OF owned_world_get, of "''ns/c1''" "''other/c1''" "''1.30.0''" "''v1.8.0''"]
  by (auto simp: owned_cluster_def get_label_def)

section \<open>Selection\<close>

text \<open>C23: \<open>SelectAvailableMachines\<close> returns, in increasing order and at most \<open>limit\<close> of them, machines from
  the list Omni gave that the selector matches; a matching machine it leaves out is not smaller than
  any it returned, and is left out only because the limit was reached.\<close>

theorem select_returns_least_matching:
  assumes run: "SelectAvailableMachines E sel limit w = (Inr ids, w')"
  shows "\<exists>selector rs. k8s_LabelSelectorAsSelector E sel = Inr selector \<and>
    StateListAll E MachineStatusType (selector_query E sel) w = (Inr rs, w') \<and>
    sorted ids \<and> length ids \<le> limit \<and>
    set ids \<subseteq> {r_ID r |r. r \<in> set rs \<and> selector (r_Labels r)} \<and>
    (\<forall>r \<in> set rs. selector (r_Labels r) \<longrightarrow>
       r_ID r \<in> set ids \<or> length ids = limit \<and> (\<forall>i \<in> set ids. i \<le> r_ID r))"
proof -
  obtain selector rs where sel: "k8s_LabelSelectorAsSelector E sel = Inr selector"
      and rs: "StateListAll E MachineStatusType (selector_query E sel) w = (Inr rs, w')"
      and ids: "ids = take limit (sort (matching_ids selector rs))"
    using run by (auto simp: SelectAvailableMachines_def Let_def io_iff)
  let ?all = "sort (matching_ids selector rs)"
  have all: "set ?all = {r_ID r |r. r \<in> set rs \<and> selector (r_Labels r)}"
    by (auto simp: matching_ids_def)
  have sub: "set ids \<subseteq> set ?all"
    unfolding ids by (rule set_take_subset)
  have rest: "r_ID r \<in> set ids \<or> length ids = limit \<and> (\<forall>i \<in> set ids. i \<le> r_ID r)"
    if "r \<in> set rs" "selector (r_Labels r)" for r
  proof (rule disjCI)
    assume miss: "\<not> (length ids = limit \<and> (\<forall>i \<in> set ids. i \<le> r_ID r))"
    have "r_ID r \<in> set (take limit ?all @ drop limit ?all)"
      unfolding append_take_drop_id all using that by auto
    moreover have "r_ID r \<notin> set (drop limit ?all)"
    proof
      assume "r_ID r \<in> set (drop limit ?all)"
      moreover from this have "limit < length ?all"
        by (metis drop_all empty_iff list.set(1) not_le)
      ultimately show False
        using miss sorted_map_take_drop [of id ?all _ limit "r_ID r"] unfolding ids by auto
    qed
    ultimately show "r_ID r \<in> set ids"
      unfolding ids set_append by blast
  qed
  show ?thesis
    using sel rs sub all rest unfolding ids
    by (intro exI [of _ selector] exI [of _ rs]) (auto simp: sorted_wrt_take)
qed

definition free_machine :: "string \<Rightarrow> resource" where
  "free_machine i = \<lparr>r_ID = i, r_Labels = [(''available'', '''')], r_Spec = MachineStatusSpec True\<rparr>"

definition free_world :: "memory world" where
  "free_world = world_of (empty_memory\<lparr>mem_resources := [free_machine ''m2'', free_machine ''m3'', free_machine ''m1'']\<rparr>)"

definition any_selector :: label_selector where
  "any_selector = \<lparr>ls_MatchLabels = [], ls_MatchExpressions = []\<rparr>"

lemma free_selection: "SelectAvailableMachines memory_ops any_selector 2 free_world = (Inr [''m1'', ''m2''], free_world)"
proof -
  have "SelectAvailableMachines memory_ops any_selector 2 free_world =
      (fst (SelectAvailableMachines memory_ops any_selector 2 free_world),
       snd (SelectAvailableMachines memory_ops any_selector 2 free_world))"
    by simp
  moreover have "fst (SelectAvailableMachines memory_ops any_selector 2 free_world) = Inr [''m1'', ''m2'']"
    by code_simp
  moreover have "snd (SelectAvailableMachines memory_ops any_selector 2 free_world) = free_world"
    by (simp add: SelectAvailableMachines_def StateListAll_def io_defs memory_fields mem_List_def Let_def
        free_world_def world_of_def split: if_splits)
  ultimately show ?thesis by simp
qed

theorem select_returns_least_matching_witness: "sorted [''m1'', ''m2''] \<and> length [''m1'', ''m2''] \<le> (2::nat)"
  using select_returns_least_matching [OF free_selection] by blast

section \<open>Removal\<close>

lemma teardown_patches_attempts_all:
  "p \<in> set ps \<Longrightarrow> TeardownResource ConfigPatchType (r_ID p) \<in> set (made (teardown_patches E d ps) w)"
proof (induction ps arbitrary: w)
  case (Cons q ps)
  let ?first = "teardownAndDestroy E ConfigPatchType (r_ID q) (d @ r_ID q)"
  obtain r w1 where w1: "?first w = (r, w1)" by (cases "?first w")
  have grows_first: "grows ?first" and grows_rest: "grows (teardown_patches E d ps)"
    by (intro effects; simp)+
  have "made (teardown_patches E d (q # ps)) w = made ?first w @ made (teardown_patches E d ps) w1"
    unfolding teardown_patches.simps using w1 grows_first grows_rest
    by (subst made_bind_try) (auto intro: effects)
  moreover have "TeardownResource ConfigPatchType (r_ID q) \<in> set (made ?first w)"
  proof -
    obtain r1 v1 where v1: "StateTeardown E ConfigPatchType (r_ID q) w = (r1, v1)"
      by (cases "StateTeardown E ConfigPatchType (r_ID q) w")
    have calls: "calls v1 = calls w @ [TeardownResource ConfigPatchType (r_ID q)]"
      using v1 by (auto simp: StateTeardown_def ext_def split: prod.splits)
    obtain d1 v2 where "StateDestroy E ConfigPatchType (r_ID q) v1 = (d1, v2)"
      by (cases "StateDestroy E ConfigPatchType (r_ID q) v1")
    moreover from this have "calls v2 = calls v1 @ [DestroyResource ConfigPatchType (r_ID q)]"
      by (auto simp: StateDestroy_def ext_def split: prod.splits)
    ultimately show ?thesis
      using v1 calls
      by (auto simp: teardownAndDestroy_def run_try made_def io_raise_def io_ret_def split: sum.splits)
  qed
  ultimately show ?case
    using Cons by auto
qed simp

definition patch_removal :: "string list \<Rightarrow> call \<Rightarrow> bool" where
  "patch_removal keep c =
     (case c of TeardownResource t i \<Rightarrow> t = ConfigPatchType \<and> i \<notin> set keep
      | DestroyResource t i \<Rightarrow> t = ConfigPatchType \<and> i \<notin> set keep | _ \<Rightarrow> False)"

lemma never_teardown_patches_in:
  "(\<And>p. p \<in> set ps \<Longrightarrow> \<not> Q (TeardownResource ConfigPatchType (r_ID p)) \<and> \<not> Q (DestroyResource ConfigPatchType (r_ID p)))
   \<Longrightarrow> never Q (teardown_patches E d ps)"
proof (induction ps)
  case Nil
  show ?case by (simp add: atmost_ret)
next
  case (Cons p ps)
  then show ?case
    unfolding teardown_patches.simps by (intro never_bind atmost_try never_teardownAndDestroy atmost_ret) simp_all
qed

text \<open>C39: Pruning a machine's config patches removes nothing but config patches outside the list to keep,
  and tries every one of those Omni listed, also after one of them failed.\<close>

theorem prune_removes_exactly_orphans:
  assumes listed: "patches_of_machine E cn m w = (Inr ps, w1)"
  shows "list_all (patch_removal keep) (made (PruneOrphanedConfigPatches E cn m keep) w) \<and>
    (\<forall>p \<in> set ps. r_ID p \<notin> set keep \<longrightarrow>
       TeardownResource ConfigPatchType (r_ID p) \<in> set (made (PruneOrphanedConfigPatches E cn m keep) w))"
proof -
  let ?orphans = "filter (\<lambda>p. r_ID p \<notin> set keep) ps"
  have only: "never (\<lambda>c. \<not> patch_removal keep c) (PruneOrphanedConfigPatches E cn m keep)"
    unfolding PruneOrphanedConfigPatches_def
    by (intro never_bind never_teardown_patches_in atmost_if atmost_raise atmost_ret atmost_patches_of_machine)
      (auto simp: patch_removal_def)
  have calls: "calls w1 = calls w"
    using listed
    by (auto simp: patches_of_machine_def StateListAll_def io_defs split: prod.splits sum.splits if_splits)
  have "made (PruneOrphanedConfigPatches E cn m keep) w = made (teardown_patches E ''orphaned config patch '' ?orphans) w1"
    using listed calls
    by (auto simp: PruneOrphanedConfigPatches_def made_def io_bind_def io_ret_def io_raise_def
        split: prod.splits sum.splits)
  then have "TeardownResource ConfigPatchType (r_ID p) \<in> set (made (PruneOrphanedConfigPatches E cn m keep) w)"
    if "p \<in> set ps" "r_ID p \<notin> set keep" for p
    using teardown_patches_attempts_all [of p ?orphans] that by simp
  moreover have "list_all (patch_removal keep) (made (PruneOrphanedConfigPatches E cn m keep) w)"
    using never_made [OF only] by (auto simp: list_all_iff)
  ultimately show ?thesis by blast
qed

definition patched_world :: "memory world" where
  "patched_world = world_of (empty_memory\<lparr>mem_resources :=
     [\<lparr>r_ID = ''c1-m1-old'', r_Labels = [(''cluster'', ''c1''), (''cluster-machine'', ''m1'')], r_Spec = ConfigPatchSpec ''x''\<rparr>]\<rparr>)"

theorem prune_removes_exactly_orphans_witness:
  "TeardownResource ConfigPatchType ''c1-m1-old'' \<in>
     set (made (PruneOrphanedConfigPatches memory_ops ''c1'' ''m1'' []) patched_world)"
proof -
  let ?p = "\<lparr>r_ID = ''c1-m1-old'', r_Labels = [(''cluster'', ''c1''), (''cluster-machine'', ''m1'')], r_Spec = ConfigPatchSpec ''x''\<rparr>"
  have "patches_of_machine memory_ops ''c1'' ''m1'' patched_world = (Inr [?p], patched_world)"
    by (simp add: patches_of_machine_def StateListAll_def io_defs memory_simps patched_world_def empty_memory_def
        get_label_def world_of_def)
  from prune_removes_exactly_orphans [OF this, of "[]"] show ?thesis
    by simp
qed


section \<open>Health\<close>

lemma map_of_fold_record_ready:
  assumes "distinct (map r_ID rs)"
  shows "map_of (fold record_ready rs health) i =
    (case find (\<lambda>r. r_ID r = i) rs of
       None \<Rightarrow> map_of health i
     | Some r \<Rightarrow> Some ((health_at health i)\<lparr>mh_Ready := cms_healthy (cms (r_Spec r))\<rparr>))"
  using assms
proof (induction rs arbitrary: health)
  case (Cons r rs)
  have fresh: "find (\<lambda>q. r_ID q = r_ID r) rs = None"
    using Cons.prems by (simp add: find_None_iff) (metis image_eqI)
  have other: "health_at (record_ready r health) i = health_at health i" if "i \<noteq> r_ID r"
    using that by (simp add: health_at_def record_ready_def Let_def)
  show ?case
    using Cons fresh other
    by (cases "r_ID r = i") (auto simp: record_ready_def Let_def cms_healthy_def conj_commute split: option.splits)
qed simp

lemma run_record_connected:
  assumes store: "cosi_store E V"
  shows "\<exists>health' w'. record_connected E is health w = (Inr health', w') \<and> V (env w') = V (env w) \<and>
    (\<forall>i. map_of health' i =
      (case V (env w) (MachineStatusType, i) of
         None \<Rightarrow> map_of health i
       | Some ms \<Rightarrow> if i \<in> set is then Some ((health_at health i)\<lparr>mh_Connected := Connected (r_Spec ms)\<rparr>)
                   else map_of health i))"
proof (induction "is" arbitrary: health w)
  case Nil
  show ?case by (auto simp: io_ret_def split: option.splits)
next
  case (Cons j js)
  show ?case
  proof (cases "V (env w) (MachineStatusType, j)")
    case None
    obtain m w1 where w1: "StateGet E MachineStatusType j w = (Inl (CosiError ResourceNotFound m), w1)" "V (env w1) = V (env w)"
      using run_StateGet_absent [OF store None] .
    obtain health' w' where rest: "record_connected E js health w1 = (Inr health', w')" "V (env w') = V (env w1)"
        "\<And>i. map_of health' i = (case V (env w1) (MachineStatusType, i) of
           None \<Rightarrow> map_of health i
         | Some ms \<Rightarrow> if i \<in> set js then Some ((health_at health i)\<lparr>mh_Connected := Connected (r_Spec ms)\<rparr>) else map_of health i)"
      using Cons [of health w1] by blast
    have "record_connected E (j # js) health w = (Inr health', w')"
      using w1 rest(1) by (simp add: run_try)
    moreover have "map_of health' i = (case V (env w) (MachineStatusType, i) of
         None \<Rightarrow> map_of health i
       | Some ms \<Rightarrow> if i \<in> set (j # js) then Some ((health_at health i)\<lparr>mh_Connected := Connected (r_Spec ms)\<rparr>)
                   else map_of health i)" for i
      using rest(3) [of i] w1(2) None by (cases "i = j") (auto split: option.splits)
    ultimately show ?thesis
      using rest(2) w1(2) by (intro exI [of _ health'] exI [of _ w'] conjI allI) (simp_all only:)
  next
    case (Some ms)
    obtain w1 where w1: "StateGet E MachineStatusType j w = (Inr ms, w1)" "V (env w1) = V (env w)"
      using run_StateGet_found [OF store Some] .
    let ?h = "AList.update j ((health_at health j)\<lparr>mh_Connected := Connected (r_Spec ms)\<rparr>) health"
    obtain health' w' where rest: "record_connected E js ?h w1 = (Inr health', w')" "V (env w') = V (env w1)"
        "\<And>i. map_of health' i = (case V (env w1) (MachineStatusType, i) of
           None \<Rightarrow> map_of ?h i
         | Some ms \<Rightarrow> if i \<in> set js then Some ((health_at ?h i)\<lparr>mh_Connected := Connected (r_Spec ms)\<rparr>) else map_of ?h i)"
      using Cons [of ?h w1] by blast
    have at: "health_at ?h i = (if i = j then (health_at health j)\<lparr>mh_Connected := Connected (r_Spec ms)\<rparr> else health_at health i)" for i
      by (simp add: health_at_def)
    have "record_connected E (j # js) health w = (Inr health', w')"
      using w1 rest(1) by (simp add: run_try)
    moreover have "map_of health' i = (case V (env w) (MachineStatusType, i) of
         None \<Rightarrow> map_of health i
       | Some ms \<Rightarrow> if i \<in> set (j # js) then Some ((health_at health i)\<lparr>mh_Connected := Connected (r_Spec ms)\<rparr>)
                   else map_of health i)" for i
      using rest(3) [of i] w1(2) Some at [of i] by (auto split: option.splits)
    ultimately show ?thesis
      using rest(2) w1(2) by (intro exI [of _ health'] exI [of _ w'] conjI allI) (simp_all only:)
  qed
qed

text \<open>C20: Over a lawful COSI store, a machine counts as healthy in a machine set exactly when Omni has a
  cluster machine status for it in that set which is ready and running, and a machine status that
  says it is connected; a machine Omni knows nothing of is unhealthy.\<close>

theorem machine_health_characterised:
  assumes store: "cosi_store E V" and order: "\<And>ks. set (map_order E ks) = set ks"
  shows "\<exists>health w'. MachineSetNodeHealth E s w = (Inr health, w') \<and>
    (\<forall>i. machineHealthy health i \<longleftrightarrow>
      (\<exists>r. V (env w) (ClusterMachineStatusType, i) = Some r \<and> get_label (omni_LabelMachineSet E) r = Some s \<and>
         cms_Ready (cms (r_Spec r)) \<and> cms_Stage (cms (r_Spec r)) = RUNNING) \<and>
      (\<exists>ms. V (env w) (MachineStatusType, i) = Some ms \<and> Connected (r_Spec ms)))"
proof -
  obtain rs w1 where list: "StateListAll E ClusterMachineStatusType [LabelEqual (omni_LabelMachineSet E) s] w = (Inr rs, w1)"
      "V (env w1) = V (env w)" "distinct (map r_ID rs)"
      "set rs = {r. V (env w) (ClusterMachineStatusType, r_ID r) = Some r \<and>
         list_all (term_holds r) [LabelEqual (omni_LabelMachineSet E) s]}"
    using run_StateListAll [OF store] .
  let ?h = "fold record_ready rs []"
  have h: "map_of ?h i = map_option (\<lambda>r. \<lparr>mh_Connected = False, mh_Ready = cms_healthy (cms (r_Spec r))\<rparr>)
      (find (\<lambda>r. r_ID r = i) rs)" for i
    using map_of_fold_record_ready [OF list(3), of "[]" i] by (auto simp: health_at_def split: option.splits)
  have find: "find (\<lambda>r. r_ID r = i) rs = Some r \<longleftrightarrow> r \<in> set rs \<and> r_ID r = i" for i r
    using list(3) by (induction rs) auto
  have mem: "r \<in> set rs \<and> r_ID r = i \<longleftrightarrow>
      V (env w) (ClusterMachineStatusType, i) = Some r \<and> get_label (omni_LabelMachineSet E) r = Some s" for r i
    unfolding list(4) using cosi_store_typed [OF store, of "env w" ClusterMachineStatusType i r] by auto
  obtain health w' where run: "record_connected E (map_order E (map fst ?h)) ?h w1 = (Inr health, w')"
      "\<forall>i. map_of health i =
      (case V (env w1) (MachineStatusType, i) of
         None \<Rightarrow> map_of ?h i
       | Some ms \<Rightarrow> if i \<in> set (map_order E (map fst ?h)) then Some ((health_at ?h i)\<lparr>mh_Connected := Connected (r_Spec ms)\<rparr>)
                   else map_of ?h i)"
    using run_record_connected [OF store, of "map_order E (map fst ?h)" ?h w1] by blast
  have keys: "i \<in> set (map_order E (map fst ?h)) \<longleftrightarrow> map_of ?h i \<noteq> None" for i
    unfolding order by (simp add: map_of_eq_None_iff)
  have char: "machineHealthy health i \<longleftrightarrow>
      (\<exists>r. find (\<lambda>r. r_ID r = i) rs = Some r \<and> cms_healthy (cms (r_Spec r))) \<and>
      (\<exists>ms. V (env w) (MachineStatusType, i) = Some ms \<and> Connected (r_Spec ms))" for i
    using run(2) [rule_format, of i] keys [of i] h [of i]
    by (auto simp: machineHealthy_def health_at_def list(2) split: option.splits)
  have "MachineSetNodeHealth E s w = (Inr health, w')"
    using list(1) run(1) by (simp add: MachineSetNodeHealth_def Let_def run_bind run_wrap)
  then show ?thesis
    using char unfolding find mem cms_healthy_def by (intro exI [of _ health] exI [of _ w']) auto
qed

definition health_world :: "memory world" where
  "health_world = world_of (empty_memory\<lparr>mem_resources :=
     [\<lparr>r_ID = ''m1'', r_Labels = [(''machine-set'', ''s'')],
       r_Spec = ClusterMachineStatusSpec \<lparr>cms_Stage = RUNNING, cms_Ready = True, cms_ConfigUpToDate = True,
         cms_LastConfigError = '''', cms_ManagementAddress = ''''\<rparr>\<rparr>,
      \<lparr>r_ID = ''m1'', r_Labels = [], r_Spec = MachineStatusSpec True\<rparr>]\<rparr>)"

theorem machine_health_characterised_witness:
  "\<exists>health w'. MachineSetNodeHealth memory_ops ''s'' health_world = (Inr health, w') \<and>
     machineHealthy health ''m1'' \<and> \<not> machineHealthy health ''m2''"
proof -
  have order: "set (map_order memory_ops ks) = set ks" for ks
    by (simp add: memory_fields)
  obtain health w' where run: "MachineSetNodeHealth memory_ops ''s'' health_world = (Inr health, w')"
    and char: "\<And>i. machineHealthy health i \<longleftrightarrow>
      (\<exists>r. mem_view (env health_world) (ClusterMachineStatusType, i) = Some r \<and>
         get_label (omni_LabelMachineSet memory_ops) r = Some ''s'' \<and>
         cms_Ready (cms (r_Spec r)) \<and> cms_Stage (cms (r_Spec r)) = RUNNING) \<and>
      (\<exists>ms. mem_view (env health_world) (MachineStatusType, i) = Some ms \<and> Connected (r_Spec ms))"
    using machine_health_characterised [OF memory_store order, of "''s''" health_world] by blast
  have "machineHealthy health ''m1''" "\<not> machineHealthy health ''m2''"
    unfolding char by (simp_all add: health_world_def mem_view_def key_of_def get_label_def memory_fields)
  with run show ?thesis by blast
qed

end
