(* ===== verification/Allocation_Properties.thy ===== *)
theory Allocation_Properties
  imports Omni_Properties Machine_Controller
begin

text \<open>
  What the allocation of one machine set guarantees: how many machines it ends with, which it
  removes and in which order, which it may pick, that it adopts what Omni has bound before it picks
  more, and that it keeps the reboot request of a machine whose spec it rewrites.
\<close>

section \<open>The runs of the steps\<close>

lemma set_claim_all [simp]: "set (claim_all is claimed) = set claimed \<union> set is"
  unfolding claim_all_def by (induction "is" arbitrary: claimed) (auto simp: claim_def)

lemma run_adoptBindings:
  assumes "adoptBindings E recorder cluster cn s role spec bound have existing w = (Inr existing', w')"
  shows "\<exists>adopted. existing' = existing @ map (synthetic_machine (oc_Namespace cluster)) adopted \<and>
    distinct adopted \<and> set adopted = set bound - set have"
  using assms
proof (induction bound arbitrary: "have" existing w)
  case Nil
  then show ?case by (simp add: io_ret_def)
next
  case (Cons i bound)
  show ?case
  proof (cases "i \<in> set have")
    case True
    with Cons.prems Cons.IH [of "have" existing w] show ?thesis
      by (auto simp: insert_Diff_if)
  next
    case False
    obtain w1 where "adoptBindings E recorder cluster cn s role spec bound (i # have)
        (existing @ [synthetic_machine (oc_Namespace cluster) i]) w1 = (Inr existing', w')"
      using Cons.prems False by (auto simp: io_iff)
    from Cons.IH [OF this] obtain adopted where adopted:
        "existing' = (existing @ [synthetic_machine (oc_Namespace cluster) i]) @
           map (synthetic_machine (oc_Namespace cluster)) adopted"
        "distinct adopted" "set adopted = set bound - set (i # have)"
      by blast
    with False show ?thesis
      by (intro exI [of _ "i # adopted"]) auto
  qed
qed

lemma pickFresh_eq:
  "length fresh < needed \<Longrightarrow>
   pickFresh needed claimed candidates fresh =
     fresh @ take (needed - length fresh) (filter (\<lambda>i. i \<notin> set claimed) candidates)"
proof (induction candidates arbitrary: fresh)
  case (Cons i candidates)
  show ?case
  proof (cases "i \<in> set claimed \<or> needed \<le> Suc (length fresh)")
    case True
    then show ?thesis
      using Cons by (auto simp: Let_def le_Suc_eq Suc_diff_Suc take_Cons' le_antisym)
  next
    case False
    then have "needed - length fresh = Suc (needed - length (fresh @ [i]))"
      unfolding length_append_singleton by arith
    then show ?thesis
      using False Cons.IH [of "fresh @ [i]"] by (simp add: Let_def)
  qed
qed simp

lemma run_createFresh:
  "createFresh E cluster cn s role spec fresh active claimed w = (Inr (active', claimed'), w') \<Longrightarrow>
   active' = active @ map (synthetic_machine '''') fresh \<and> claimed' = claim_all fresh claimed"
proof (induction fresh arbitrary: active claimed w)
  case (Cons i fresh)
  then obtain w1 where "createFresh E cluster cn s role spec fresh (active @ [synthetic_machine '''' i])
      (claim i claimed) w1 = (Inr (active', claimed'), w')"
    by (auto simp: io_iff)
  from Cons.IH [OF this] show ?case
    by (simp add: claim_all_def)
qed (simp add: io_iff claim_all_def)

lemma run_scaleUp:
  assumes run: "scaleUp E recorder cluster cn s role spec active claimed w = (Inr (active', claimed'), w')"
    and short: "int (length active) < mss_Replicas spec"
    and needed: "needed = nat (mss_Replicas spec - int (length active))"
  obtains candidates w1 fresh where
    "SelectAvailableMachines E (mss_MachineSelector spec) (needed + length claimed) w = (Inr candidates, w1)"
    and "fresh = take needed (filter (\<lambda>i. i \<notin> set claimed) candidates)" and "length fresh = needed"
    and "active' = active @ map (synthetic_machine '''') fresh" and "claimed' = claim_all fresh claimed"
proof -
  obtain candidates w1 w2 where sel:
      "SelectAvailableMachines E (mss_MachineSelector spec) (needed + length claimed) w = (Inr candidates, w1)"
      and enough: "\<not> length (pickFresh needed claimed candidates []) < needed"
      and create: "createFresh E cluster cn s role spec (pickFresh needed claimed candidates []) active claimed w1 =
        (Inr (active', claimed'), w2)"
    using run unfolding scaleUp_def Let_def needed [symmetric] by (auto simp: io_iff split: if_splits)
  have "0 < needed"
    using short needed by simp
  then have fresh: "pickFresh needed claimed candidates [] = take needed (filter (\<lambda>i. i \<notin> set claimed) candidates)"
    by (simp add: pickFresh_eq)
  show ?thesis
    using enough run_createFresh [OF create] unfolding fresh
    by (intro that [OF sel refl]) auto
qed

lemma run_evict:
  assumes "evict E recorder s active n w = (Inr kept, w')"
  shows "n \<le> length active \<and> kept = drop n active"
  using assms by (auto simp: evict_def io_iff split: if_splits)

lemma run_scaleDown:
  assumes run: "scaleDown E recorder s role spec active deleting w = (Inr kept, w')"
  obtains health k refused w1 w2 where "MachineSetNodeHealth E s w = (Inr health, w1)"
    and "removalCount role (mss_Replicas spec) deleting health (sort_for_removal health active)
      (nat (int (length active) - mss_Replicas spec)) = Inr (k, refused)"
    and "evict E recorder s (sort_for_removal health active) k w2 = (Inr kept, w')"
    and "kept = drop k (sort_for_removal health active)" and "k \<le> length active"
proof -
  obtain health k refused w1 w2 where parts: "MachineSetNodeHealth E s w = (Inr health, w1)"
      "removalCount role (mss_Replicas spec) deleting health (sort_for_removal health active)
        (nat (int (length active) - mss_Replicas spec)) = Inr (k, refused)"
      "evict E recorder s (sort_for_removal health active) k w2 = (Inr kept, w')"
    using run by (auto simp: scaleDown_def Let_def io_iff)
  show ?thesis
    using run_evict [OF parts(3)] by (intro that [OF parts]) (auto simp: sort_for_removal_def)
qed

lemma length_kept:
  assumes run: "scaleDown E recorder s role spec active deleting w = (Inr kept, w')"
    and over: "mss_Replicas spec < int (length active)" and pos: "0 \<le> mss_Replicas spec"
  shows "mss_Replicas spec \<le> int (length kept) \<and>
    (role \<noteq> roleControlPlane \<longrightarrow> int (length kept) = mss_Replicas spec)"
proof -
  obtain health k refused where k: "removalCount role (mss_Replicas spec) deleting health (sort_for_removal health active)
      (nat (int (length active) - mss_Replicas spec)) = Inr (k, refused)"
      "kept = drop k (sort_for_removal health active)" "k \<le> length active"
    using run_scaleDown [OF run] by metis
  have len: "length kept = length active - k"
    using k by (simp add: sort_for_removal_def)
  have "k \<le> nat (int (length active) - mss_Replicas spec)"
    using removalCount_le [OF k(1)] .
  moreover have "k = nat (int (length active) - mss_Replicas spec)" if "role \<noteq> roleControlPlane"
    using k(1) removalCount_worker [OF that] by simp
  ultimately show ?thesis
    using len over pos k(3) by auto
qed

text \<open>What a successful allocation went through.\<close>

lemma run_allocation:
  assumes "reconcileMachineSetAllocation E recorder cluster cn s role spec claimed w = (Inr (allocated, claimed'), w')"
  obtains listed bound adopted existing active w1 w2 w4 w5 where
    "listMachineSetMachines E (oc_Namespace cluster) cn s w = (Inr listed, w1)"
    and "AllocatedMachineSetNodes E s w1 = (Inr bound, w2)"
    and "existing = listed @ map (synthetic_machine (oc_Namespace cluster)) adopted"
    and "distinct adopted" and "set adopted = set bound - m_Name ` set listed"
    and "scaleTo E recorder cluster cn s role spec (active_of existing) (deleting_of existing)
      (claim_all (map m_Name existing) claimed) w4 = (Inr (active, claimed'), w5)"
    and "allocated = map m_Name active"
proof -
  obtain listed bound existing active w1 w2 w3 w4 w5 where parts:
      "listMachineSetMachines E (oc_Namespace cluster) cn s w = (Inr listed, w1)"
      "AllocatedMachineSetNodes E s w1 = (Inr bound, w2)"
      "adoptBindings E recorder cluster cn s role spec bound (map m_Name listed) listed w2 = (Inr existing, w3)"
      "scaleTo E recorder cluster cn s role spec (active_of existing) (deleting_of existing)
        (claim_all (map m_Name existing) claimed) w3 = (Inr (active, claimed'), w5)"
      "allocated = map m_Name active"
    using assms unfolding reconcileMachineSetAllocation_def by (auto simp: io_iff)
  obtain adopted where "existing = listed @ map (synthetic_machine (oc_Namespace cluster)) adopted"
      "distinct adopted" "set adopted = set bound - set (map m_Name listed)"
    using run_adoptBindings [OF parts(3)] by blast
  with parts show ?thesis
    by (intro that) auto
qed

lemma synthetic_simps [simp]:
  "m_Name (synthetic_machine ns i) = i" "m_DeletionTimestamp (synthetic_machine ns i) = None"
  by (simp_all add: synthetic_machine_def empty_meta_def)

lemma active_of_adopted [simp]:
  "active_of (listed @ map (synthetic_machine ns) adopted) = active_of listed @ map (synthetic_machine ns) adopted"
  "deleting_of (listed @ map (synthetic_machine ns) adopted) = deleting_of listed"
  by (simp_all add: active_of_def deleting_of_def filter_map comp_def)


lemma run_scaleTo_length:
  assumes run: "scaleTo E recorder cluster cn s role spec active deleting claimed w = (Inr (active', claimed'), w')"
    and pos: "0 \<le> mss_Replicas spec"
  shows "mss_Replicas spec \<le> int (length active') \<and>
    (role \<noteq> roleControlPlane \<longrightarrow> int (length active') = mss_Replicas spec)"
proof (cases "int (length active)" "mss_Replicas spec" rule: linorder_cases)
  case less
  with run have "scaleUp E recorder cluster cn s role spec active claimed w = (Inr (active', claimed'), w')"
    by (simp add: scaleTo_def)
  from run_scaleUp [OF this less refl] obtain fresh where
      "length fresh = nat (mss_Replicas spec - int (length active))" "active' = active @ map (synthetic_machine '''') fresh"
    by metis
  with less show ?thesis by simp
next
  case equal
  with run show ?thesis by (simp add: scaleTo_def io_iff)
next
  case greater
  with run obtain w1 where "scaleDown E recorder s role spec active deleting w = (Inr active', w1)"
    by (auto simp: scaleTo_def io_iff)
  with greater pos show ?thesis
    using length_kept by blast
qed

section \<open>How many machines a set ends with\<close>

text \<open>C9: When the allocation of a machine set succeeds, it reports exactly as many machines as the spec
  asks for; for a control plane at least as many, as members may be kept to protect etcd quorum.
  Admission guarantees that the replica count is not negative.\<close>

theorem allocation_reaches_replicas:
  assumes run: "reconcileMachineSetAllocation E recorder cluster cn s role spec claimed w = (Inr (allocated, claimed'), w')"
    and valid: "valid_machine_set_spec spec"
  shows "mss_Replicas spec \<le> int (length allocated) \<and>
    (role \<noteq> roleControlPlane \<longrightarrow> int (length allocated) = mss_Replicas spec)"
proof -
  obtain listed bound adopted existing active w1 w2 w4 w5 where
      "listMachineSetMachines E (oc_Namespace cluster) cn s w = (Inr listed, w1)"
      "AllocatedMachineSetNodes E s w1 = (Inr bound, w2)"
      "existing = listed @ map (synthetic_machine (oc_Namespace cluster)) adopted"
      "distinct adopted" "set adopted = set bound - m_Name ` set listed"
    and scale: "scaleTo E recorder cluster cn s role spec (active_of existing) (deleting_of existing)
      (claim_all (map m_Name existing) claimed) w4 = (Inr (active, claimed'), w5)"
    and names: "allocated = map m_Name active"
    using run_allocation [OF run] .
  show ?thesis
    using run_scaleTo_length [OF scale] valid unfolding names valid_machine_set_spec_def by simp
qed

definition sample_set :: "int \<Rightarrow> machine_set_spec" where
  "sample_set n = \<lparr>mss_Replicas = n, mss_MachineSelector = any_selector, mss_MachineExtensions = [],
     mss_KernelArgs = [], mss_ConfigPatches = []\<rparr>"

definition sample_cluster :: omni_cluster where
  "sample_cluster =
     \<lparr>oc_Meta = empty_meta ''c1'' ''ns'',
      oc_Spec = \<lparr>ocs_KubernetesVersion = ''1.30.0'', ocs_TalosVersion = ''v1.8.0'', ocs_ControlPlane = sample_set 1,
        ocs_Workers = []\<rparr>,
      oc_Status = \<lparr>ost_ObservedGeneration = 0, ost_Phase = '''', ost_Ready = False, ost_AllocatedMachines = [],
        ost_FailureReason = None, ost_FailureMessage = None, ost_Conditions = []\<rparr>\<rparr>"

abbreviation sample_allocation :: "(memory, string list \<times> string list) io" where
  "sample_allocation \<equiv>
     reconcileMachineSetAllocation memory_ops True sample_cluster ''c1'' ''c1-w'' roleWorker (sample_set 2) [''m1'']"

lemma sample_allocated: "fst (sample_allocation free_world) = Inr ([''m2'', ''m3''], [''m1'', ''m2'', ''m3''])"
  by code_simp

theorem allocation_reaches_replicas_witness: "int (length [''m2'', ''m3'']) = mss_Replicas (sample_set 2)"
proof -
  have "sample_allocation free_world = (Inr ([''m2'', ''m3''], [''m1'', ''m2'', ''m3'']), snd (sample_allocation free_world))"
    using sample_allocated by (metis prod.collapse)
  from allocation_reaches_replicas [OF this] show ?thesis
    by (simp add: valid_machine_set_spec_def sample_set_def roleWorker_def roleControlPlane_def)
qed

section \<open>The control plane\<close>

text \<open>C29: However many members a control plane has too many, and whatever is returned by the API server
  and Omni, one reconcile of it deletes at most one \<open>Machine\<close>.\<close>

theorem control_plane_one_removal:
  "length (filter is_delete_machine
     (made (reconcileMachineSetAllocation E recorder cluster cn s roleControlPlane spec claimed) w)) \<le> 1"
  by (rule atmost_made [OF one_delete_allocation])


lemma delete_in_evict:
  assumes "DeleteMachine ns n \<in> set (made (evict E recorder s active k) w)"
  shows "\<exists>m \<in> set (take k active). m_DeletionTimestamp m = None \<and> ns = m_Namespace m \<and> n = m_Name m"
proof (rule ccontr)
  assume "\<not> ?thesis"
  then have "never (\<lambda>c. c = DeleteMachine ns n) (evict E recorder s active k)"
    by (intro never_evict) auto
  from never_made [OF this assms] show False by simp
qed

lemma delete_in_scaleDown:
  assumes c: "DeleteMachine ns n \<in> set (made (scaleDown E recorder s role spec active deleting) w)"
  obtains health k refused v m where "fst (MachineSetNodeHealth E s w) = Inr health"
    and "removalCount role (mss_Replicas spec) deleting health (sort_for_removal health active)
      (nat (int (length active) - mss_Replicas spec)) = Inr (k, refused)"
    and "DeleteMachine ns n \<in> set (made (evict E recorder s (sort_for_removal health active) k) v)"
    and "m \<in> set (take k (sort_for_removal health active))" and "n = m_Name m" and "ns = m_Namespace m"
proof -
  let ?toRemove = "\<lambda>health. removalCount role (mss_Replicas spec) deleting health (sort_for_removal health active)
      (nat (int (length active) - mss_Replicas spec))"
  obtain health w1 where health: "MachineSetNodeHealth E s w = (Inr health, w1)"
      and c1: "DeleteMachine ns n \<in> set (made (io_bind (io_lift (?toRemove health)) (\<lambda>(toRemove, refused).
                 io_bind
                   (if refused
                    then eventf recorder EventTypeWarning ''ControlPlaneOverAllocated''
                           (over_allocated_message s (length active) (mss_Replicas spec))
                    else io_ret ())
                   (\<lambda>_. evict E recorder s (sort_for_removal health active) toRemove))) w1)"
    using c unfolding scaleDown_def Let_def
    by (rule made_rest) ((intro effects; simp), (intro effects; simp), simp only: io_wrap_iff)
  obtain k refused where count: "?toRemove health = Inr (k, refused)"
      and c2: "DeleteMachine ns n \<in> set (made (io_bind
                   (if refused
                    then eventf recorder EventTypeWarning ''ControlPlaneOverAllocated''
                           (over_allocated_message s (length active) (mss_Replicas spec))
                    else io_ret ())
                   (\<lambda>_. evict E recorder s (sort_for_removal health active) k)) w1)"
    using c1 by (rule made_rest) ((intro effects; simp), (intro effects; simp), auto simp only: io_lift_iff prod.case)
  obtain v where c3: "DeleteMachine ns n \<in> set (made (evict E recorder s (sort_for_removal health active) k) v)"
    using c2 by (rule made_rest) ((intro effects; simp), (intro effects; simp), simp only:)
  obtain m where "m \<in> set (take k (sort_for_removal health active))" "n = m_Name m" "ns = m_Namespace m"
    using delete_in_evict [OF c3] by blast
  with health count c3 show ?thesis
    by (intro that) simp_all
qed


lemma delete_in_scaleTo:
  assumes c: "DeleteMachine ns n \<in> set (made (scaleTo E recorder cluster cn s role spec active deleting claimed) w)"
  shows "mss_Replicas spec < int (length active) \<and>
    DeleteMachine ns n \<in> set (made (scaleDown E recorder s role spec active deleting) w)"
proof -
  have up: "DeleteMachine ns n \<notin> set (made (scaleUp E recorder cluster cn s role spec active claimed) w)"
    using never_made [OF never_scaleUp, of is_delete_machine] by fastforce
  show ?thesis
    using c up unfolding scaleTo_def by (auto split: if_splits)
qed

lemma delete_in_allocation:
  assumes c: "DeleteMachine ns n \<in> set (made (reconcileMachineSetAllocation E recorder cluster cn s role spec claimed) w)"
  obtains listed bound adopted existing w1 w2 v where
    "listMachineSetMachines E (oc_Namespace cluster) cn s w = (Inr listed, w1)"
    and "AllocatedMachineSetNodes E s w1 = (Inr bound, w2)"
    and "adoptBindings E recorder cluster cn s role spec bound (map m_Name listed) listed w2 = (Inr existing, v)"
    and "existing = listed @ map (synthetic_machine (oc_Namespace cluster)) adopted"
    and "distinct adopted" and "set adopted = set bound - m_Name ` set listed"
    and "mss_Replicas spec < int (length (active_of existing))"
    and "DeleteMachine ns n \<in> set (made (scaleDown E recorder s role spec (active_of existing) (deleting_of existing)) v)"
proof -
  let ?rest = "\<lambda>(active, claimed').
     io_bind (syncSpecs E cn s role spec active) (\<lambda>_.
     io_bind (reconcileExtensions E cn s spec) (\<lambda>_.
     io_ret (map m_Name active, claimed')))"
  let ?scale = "\<lambda>existing. io_bind (scaleTo E recorder cluster cn s role spec (active_of existing)
     (deleting_of existing) (claim_all (map m_Name existing) claimed)) ?rest"
  have grows_scale: "grows (?scale existing)" for existing
    by (intro effects; simp)
  obtain listed w1 where listed: "listMachineSetMachines E (oc_Namespace cluster) cn s w = (Inr listed, w1)"
      and c1: "DeleteMachine ns n \<in> set (made (io_bind
        (io_wrap (\<lambda>e. Wrapf (''list omni bindings for '' @ s @ '': '') e '''') (AllocatedMachineSetNodes E s)) (\<lambda>bound.
         io_bind (adoptBindings E recorder cluster cn s role spec bound (map m_Name listed) listed) ?scale)) w1)"
    using c unfolding reconcileMachineSetAllocation_def
    by (rule made_rest) ((intro effects; simp), (intro effects grows_scale; simp), simp only: io_wrap_iff)
  obtain bound w2 where bound: "AllocatedMachineSetNodes E s w1 = (Inr bound, w2)"
      and c2: "DeleteMachine ns n \<in> set (made
        (io_bind (adoptBindings E recorder cluster cn s role spec bound (map m_Name listed) listed) ?scale) w2)"
    using c1 by (rule made_rest) ((intro effects; simp), (intro effects grows_scale; simp), simp only: io_wrap_iff)
  obtain existing v where adopt: "adoptBindings E recorder cluster cn s role spec bound (map m_Name listed) listed w2 =
        (Inr existing, v)"
      and c3: "DeleteMachine ns n \<in> set (made (?scale existing) v)"
    using c2 by (rule made_rest) ((intro effects; simp), rule grows_scale, simp only:)
  have "DeleteMachine ns n \<in> set (made (scaleTo E recorder cluster cn s role spec (active_of existing)
     (deleting_of existing) (claim_all (map m_Name existing) claimed)) v)"
    using c3 by (rule made_first) (intro effects; auto)+
  from delete_in_scaleTo [OF this] run_adoptBindings [OF adopt] adopt listed bound show ?thesis
    by (auto intro: that)
qed

text \<open>C4: A control plane loses a member only if no member of the set is still being torn down, the set has
  more members than the spec asks for and the spec asks for at least one, Omni's health report for the
  set, read in this pass once the pass has adopted what Omni has bound, counts the member as
  unhealthy, and the member is one of the set: a listed \<open>Machine\<close> or a binding in Omni.\<close>

theorem control_plane_removal_is_safe:
  assumes c: "DeleteMachine ns n \<in>
    set (made (reconcileMachineSetAllocation E recorder cluster cn s roleControlPlane spec claimed) w)"
  shows "\<exists>listed bound members health w1 w2 w3 w4.
    listMachineSetMachines E (oc_Namespace cluster) cn s w = (Inr listed, w1) \<and>
    AllocatedMachineSetNodes E s w1 = (Inr bound, w2) \<and>
    adoptBindings E recorder cluster cn s roleControlPlane spec bound (map m_Name listed) listed w2 = (Inr members, w3) \<and>
    MachineSetNodeHealth E s w3 = (Inr health, w4) \<and> \<not> machineHealthy health n \<and>
    list_all (\<lambda>m. m_DeletionTimestamp m = None) listed \<and>
    1 \<le> mss_Replicas spec \<and> mss_Replicas spec < int (length members) \<and>
    n \<in> m_Name ` set listed \<union> set bound"
proof -
  obtain listed bound adopted existing w1 w2 v where
      listed: "listMachineSetMachines E (oc_Namespace cluster) cn s w = (Inr listed, w1)"
    and bound: "AllocatedMachineSetNodes E s w1 = (Inr bound, w2)"
    and adopt: "adoptBindings E recorder cluster cn s roleControlPlane spec bound (map m_Name listed) listed w2 = (Inr existing, v)"
    and existing: "existing = listed @ map (synthetic_machine (oc_Namespace cluster)) adopted"
    and "distinct adopted" and adopted: "set adopted = set bound - m_Name ` set listed"
    and over: "mss_Replicas spec < int (length (active_of existing))"
    and c1: "DeleteMachine ns n \<in> set (made (scaleDown E recorder s roleControlPlane spec (active_of existing) (deleting_of existing)) v)"
    using delete_in_allocation [OF c] .
  obtain health k refused v' m where "fst (MachineSetNodeHealth E s v) = Inr health"
    and count: "removalCount roleControlPlane (mss_Replicas spec) (deleting_of existing) health
        (sort_for_removal health (active_of existing))
        (nat (int (length (active_of existing)) - mss_Replicas spec)) = Inr (k, refused)"
    and "DeleteMachine ns n \<in> set (made (evict E recorder s (sort_for_removal health (active_of existing)) k) v')"
    and m: "m \<in> set (take k (sort_for_removal health (active_of existing)))" "n = m_Name m" "ns = m_Namespace m"
    using delete_in_scaleDown [OF c1] .
  then obtain w4 where health: "MachineSetNodeHealth E s v = (Inr health, w4)" by (metis prod.collapse)
  from m(1) have "0 < k" by (cases k) auto
  with removalCount_control_plane [OF count] obtain a rest where k: "k = 1" "1 \<le> mss_Replicas spec"
      "deleting_of existing = 0" "sort_for_removal health (active_of existing) = a # rest"
      "\<not> machineHealthy health (m_Name a)"
    by auto
  have "m = a"
    using m(1) k by simp
  moreover have "a \<in> set (active_of existing)"
  proof -
    have "set (sort_for_removal health (active_of existing)) = set (active_of existing)"
      by (simp add: sort_for_removal_def)
    with k(4) show ?thesis by auto
  qed
  then have "m_Name a \<in> m_Name ` set listed \<union> set bound"
    using adopted unfolding existing by (auto simp: active_of_def)
  moreover have "list_all (\<lambda>m. m_DeletionTimestamp m = None) listed"
    using k(3) unfolding existing by (auto simp: deleting_of_def list_all_iff filter_empty_conv)
  moreover have "length (active_of existing) \<le> length existing"
    unfolding active_of_def by (rule length_filter_le)
  ultimately show ?thesis
    using listed bound adopt health k m(2) over by fastforce
qed

definition member_node :: "string \<Rightarrow> resource" where
  "member_node i = \<lparr>r_ID = i, r_Labels = [(''machine-set'', ''c1-cp'')], r_Spec = MachineSetNodeSpec\<rparr>"

definition over_allocated_world :: "memory world" where
  "over_allocated_world = world_of (empty_memory\<lparr>mem_resources := [member_node ''m1'', member_node ''m2'']\<rparr>)"

lemma over_allocated_evicts:
  "list_ex (\<lambda>c. c = DeleteMachine ''ns'' ''m1'') (made (reconcileMachineSetAllocation memory_ops True sample_cluster
     ''c1'' ''c1-cp'' roleControlPlane (sample_set 1) []) over_allocated_world)"
  by code_simp

theorem control_plane_removal_is_safe_witness:
  "\<exists>health v v'. MachineSetNodeHealth memory_ops ''c1-cp'' v = (Inr health, v') \<and> \<not> machineHealthy health ''m1''"
proof -
  have "DeleteMachine ''ns'' ''m1'' \<in> set (made (reconcileMachineSetAllocation memory_ops True sample_cluster
     ''c1'' ''c1-cp'' roleControlPlane (sample_set 1) []) over_allocated_world)"
    using over_allocated_evicts unfolding list_ex_iff by blast
  from control_plane_removal_is_safe [OF this] show ?thesis
    by blast
qed

section \<open>The order of removal\<close>

lemma made_deletes:
  assumes "io_for ms (\<lambda>m. io_wrap (f m) (deleteMachine E m)) w = (Inr (), w')"
    and "\<forall>m \<in> set ms. m_DeletionTimestamp m = None"
  shows "calls w' = calls w @ map (\<lambda>m. DeleteMachine (m_Namespace m) (m_Name m)) ms"
  using assms
proof (induction ms arbitrary: w)
  case Nil
  then show ?case by (simp add: io_ret_def)
next
  case (Cons m ms)
  obtain w1 where w1: "deleteMachine E m w = (Inr (), w1)"
      and rest: "io_for ms (\<lambda>m. io_wrap (f m) (deleteMachine E m)) w1 = (Inr (), w')"
    using Cons.prems(1) by (auto simp: io_iff)
  have "calls w1 = calls w @ [DeleteMachine (m_Namespace m) (m_Name m)]"
    using w1 Cons.prems(2)
    by (auto simp: deleteMachine_def IgnoreNotFound_def io_defs split: prod.splits sum.splits if_splits)
  with Cons.IH [OF rest] Cons.prems(2) show ?case by simp
qed

lemma eventf_deletes_nothing:
  assumes "eventf recorder t r m w = (x, w')"
  shows "\<exists>cs. calls w' = calls w @ cs \<and> filter is_delete_machine cs = []"
  using assms by (auto simp: eventf_def ext_def io_ret_def split: if_splits)

lemma evict_deletes:
  assumes run: "evict E recorder s active n w = (Inr kept, w')"
    and live: "\<forall>m \<in> set (take n active). m_DeletionTimestamp m = None"
  shows "\<exists>cs. calls w' = calls w @ cs \<and>
    filter is_delete_machine cs = map (\<lambda>m. DeleteMachine (m_Namespace m) (m_Name m)) (take n active)"
proof (cases "0 < n")
  case True
  obtain w1 where loop: "io_for (take n active) (\<lambda>m.
        io_wrap (\<lambda>e. Wrapf (''evict machine '' @ m_Name m @ '' from '' @ s @ '': '') e '''') (deleteMachine E m)) w =
        (Inr (), w1)"
      and said: "eventf recorder EventTypeNormal ''MachinesReleased''
        (''Released '' @ show_nat n @ '' machine(s) from '' @ s) w1 = (Inr (), w')"
    using run True unfolding evict_def by (simp only: io_iff if_True split: if_splits) auto
  have "filter is_delete_machine (map (\<lambda>m. DeleteMachine (m_Namespace m) (m_Name m)) ms) =
      map (\<lambda>m. DeleteMachine (m_Namespace m) (m_Name m)) ms" for ms
    by (induction ms) auto
  with made_deletes [OF loop live] eventf_deletes_nothing [OF said] show ?thesis
    by auto
next
  case False
  with run show ?thesis by (simp add: evict_def io_ret_def)
qed

lemma removal_rank_le:
  "removal_rank health a \<le> removal_rank health b \<longleftrightarrow>
     (machineHealthy health (m_Name a) = machineHealthy health (m_Name b) \<and> m_Name a \<le> m_Name b) \<or>
     (\<not> machineHealthy health (m_Name a) \<and> machineHealthy health (m_Name b))"
  by (auto simp: removal_rank_def less_eq_removal_rank_def)

text \<open>C21: A scale-down that succeeds splits the machines of the set into those it keeps and those it
  evicts, and its \<open>Delete\<close> calls are exactly one for each evicted machine, in order. No healthy
  machine is evicted while an unhealthy one is kept, and among machines of the same health the
  evicted ones come first by name, so that the choice is the same in every pass.\<close>

theorem scale_down_evicts_unhealthy_first:
  assumes run: "scaleDown E recorder s role spec active deleting w = (Inr kept, w')"
    and live: "\<forall>m \<in> set active. m_DeletionTimestamp m = None"
  shows "\<exists>health evicted. fst (MachineSetNodeHealth E s w) = Inr health \<and> mset active = mset (evicted @ kept) \<and>
    filter is_delete_machine (made (scaleDown E recorder s role spec active deleting) w) =
      map (\<lambda>m. DeleteMachine (m_Namespace m) (m_Name m)) evicted \<and>
    (\<forall>a \<in> set evicted. \<forall>b \<in> set kept.
       (machineHealthy health (m_Name a) = machineHealthy health (m_Name b) \<and> m_Name a \<le> m_Name b) \<or>
       (\<not> machineHealthy health (m_Name a) \<and> machineHealthy health (m_Name b)))"
proof -
  obtain health k refused w1 w2 where health: "MachineSetNodeHealth E s w = (Inr health, w1)"
    and count: "removalCount role (mss_Replicas spec) deleting health (sort_for_removal health active)
      (nat (int (length active) - mss_Replicas spec)) = Inr (k, refused)"
    and kept: "kept = drop k (sort_for_removal health active)" "k \<le> length active"
    using run_scaleDown [OF run] by metis
  let ?ordered = "sort_for_removal health active"
  let ?say = "if refused
     then eventf recorder EventTypeWarning ''ControlPlaneOverAllocated''
            (over_allocated_message s (length active) (mss_Replicas spec))
     else io_ret ()"
  obtain w3 where said: "?say w1 = (Inr (), w3)" and evict: "evict E recorder s ?ordered k w3 = (Inr kept, w')"
    using run health count by (auto simp: scaleDown_def Let_def io_iff split: if_splits)
  have live': "\<forall>m \<in> set (take k ?ordered). m_DeletionTimestamp m = None"
    using live by (auto simp: sort_for_removal_def dest: in_set_takeD)
  have "filter is_delete_machine (drop (length (calls w)) (calls w1)) = []"
    using never_made [OF atmost_MachineSetNodeHealth [of is_delete_machine E s], of _ w] health
    by (auto simp: made_def filter_empty_conv)
  moreover have "\<exists>cs. calls w3 = calls w1 @ cs \<and> filter is_delete_machine cs = []"
    using said eventf_deletes_nothing by (auto simp: io_ret_def split: if_splits)
  moreover have "\<exists>cs. calls w' = calls w3 @ cs \<and> filter is_delete_machine cs =
      map (\<lambda>m. DeleteMachine (m_Namespace m) (m_Name m)) (take k ?ordered)"
    using evict_deletes [OF evict live'] .
  moreover have "\<exists>cs. calls w1 = calls w @ cs"
    using calls_run [OF health atmost_MachineSetNodeHealth] by blast
  ultimately have "filter is_delete_machine (made (scaleDown E recorder s role spec active deleting) w) =
      map (\<lambda>m. DeleteMachine (m_Namespace m) (m_Name m)) (take k ?ordered)"
    using run by (auto simp: made_def)
  moreover have "mset active = mset (take k ?ordered @ kept)"
    unfolding kept append_take_drop_id by (simp add: sort_for_removal_def)
  moreover have "removal_rank health a \<le> removal_rank health b" if "a \<in> set (take k ?ordered)" "b \<in> set kept" for a b
    using that unfolding kept
    by (intro sorted_map_take_drop [where xs = ?ordered and n = k]) (simp_all add: sort_for_removal_def)
  ultimately show ?thesis
    using health unfolding removal_rank_le by (intro exI [of _ health] exI [of _ "take k ?ordered"]) auto
qed


definition named :: "string \<Rightarrow> machine" where
  "named i = synthetic_machine ''ns'' i"

abbreviation sample_scale_down :: "(memory, machine list) io" where
  "sample_scale_down \<equiv> scaleDown memory_ops False ''s'' roleWorker (sample_set 1) [named ''m1'', named ''m2''] 0"

lemma sample_scaled_down: "map_sum (\<lambda>_. ()) (map m_Name) (fst (sample_scale_down health_world)) = Inr [''m1'']"
  by code_simp

theorem scale_down_evicts_unhealthy_first_witness:
  "\<exists>kept w' evicted. sample_scale_down health_world = (Inr kept, w') \<and> map m_Name kept = [''m1''] \<and>
     filter is_delete_machine (made sample_scale_down health_world) =
       map (\<lambda>m. DeleteMachine (m_Namespace m) (m_Name m)) evicted"
proof -
  obtain kept w' where run: "sample_scale_down health_world = (Inr kept, w')" and kept: "map m_Name kept = [''m1'']"
    using sample_scaled_down by (cases "sample_scale_down health_world"; cases "fst (sample_scale_down health_world)") auto
  have live: "\<forall>m \<in> set [named ''m1'', named ''m2'']. m_DeletionTimestamp m = None"
    by (simp add: named_def)
  from scale_down_evicts_unhealthy_first [OF run live] obtain evicted where
      "filter is_delete_machine (made sample_scale_down health_world) =
         map (\<lambda>m. DeleteMachine (m_Namespace m) (m_Name m)) evicted"
    by (elim exE conjE)
  with run kept show ?thesis
    by (intro exI conjI)
qed

lemma removal_in_range:
  assumes over: "mss_Replicas spec < int (length active)" and valid: "valid_machine_set_spec spec"
  shows "case removalCount role (mss_Replicas spec) deleting health (sort_for_removal health active)
      (nat (int (length active) - mss_Replicas spec)) of
    Inl err \<Rightarrow> err = Errorf ''control plane cannot scale below 1 replica''
  | Inr (k, refused) \<Rightarrow> k \<le> length (sort_for_removal health active)"
proof -
  have "sort_for_removal health active \<noteq> []"
  proof
    assume "sort_for_removal health active = []"
    then have "length (sort_for_removal health active) = 0" by simp
    with over valid show False by (simp add: sort_for_removal_def valid_machine_set_spec_def)
  qed
  moreover have "nat (int (length active) - mss_Replicas spec) \<le> length (sort_for_removal health active)"
    using valid by (simp add: sort_for_removal_def valid_machine_set_spec_def)
  ultimately show ?thesis
    using valid by (auto simp: removalCount_def Let_def valid_machine_set_spec_def split: list.splits)
qed

lemma io_for_raises:
  "io_for xs f w = (Inl err, w') \<Longrightarrow> \<exists>x v v'. x \<in> set xs \<and> f x v = (Inl err, v')"
proof (induction xs arbitrary: w)
  case (Cons x xs)
  then show ?case
    by (cases "f x w"; cases "fst (f x w)") (fastforce simp: run_steps)+
qed (simp add: io_ret_def)

lemma eventf_succeeds: "eventf recorder t r x v \<noteq> (Inl e, v')"
  by (auto simp: eventf_def ext_def io_ret_def split: if_splits)

lemma evict_in_range:
  assumes "k \<le> length active"
  shows "fst (evict E recorder s active k w) \<noteq> Inl (Panic p)"
proof
  assume "fst (evict E recorder s active k w) = Inl (Panic p)"
  then obtain w' where run: "evict E recorder s active k w = (Inl (Panic p), w')" by (metis prod.collapse)
  have "io_for (take k active) (\<lambda>m. io_wrap (\<lambda>e. Wrapf (''evict machine '' @ m_Name m @ '' from '' @ s @ '': '') e '''')
      (deleteMachine E m)) w = (Inl (Panic p), w')"
    using run assms unfolding evict_def
    by (auto simp: eventf_succeeds io_bind_def io_ret_def split: if_splits prod.splits sum.splits)
  from io_for_raises [OF this] obtain m v v' where
      "io_wrap (\<lambda>e. Wrapf (''evict machine '' @ m_Name m @ '' from '' @ s @ '': '') e '''') (deleteMachine E m) v = (Inl (Panic p), v')"
    by blast
  then show False
    by (cases "deleteMachine E m v"; cases "fst (deleteMachine E m v)") (auto simp: io_wrap_def)
qed

text \<open>C38: A scale-down from more machines than the spec asks for never slices or indexes out of range,
  whatever Omni and the API server return: no run of it panics, as long as the replica count is what
  admission lets through. Without admission's bound it would: a worker set that asks for fewer than no
  machines has more to remove than there are, and the scale-down panics as soon as it has read the
  health of the set.\<close>

theorem scale_down_stays_in_range:
  assumes over: "mss_Replicas spec < int (length active)"
  shows "(valid_machine_set_spec spec \<longrightarrow>
      (\<forall>p. fst (scaleDown E recorder s role spec active deleting w) \<noteq> Inl (Panic p))) \<and>
    (mss_Replicas spec < 0 \<and> role \<noteq> roleControlPlane \<longrightarrow>
      (\<forall>health w1. MachineSetNodeHealth E s w = (Inr health, w1) \<longrightarrow>
        scaleDown E recorder s role spec active deleting w = (Inl (Panic ''slice bounds out of range''), w1)))"
proof (intro conjI impI allI)
  fix p
  assume valid: "valid_machine_set_spec spec"
  let ?count = "\<lambda>health. removalCount role (mss_Replicas spec) deleting health (sort_for_removal health active)
    (nat (int (length active) - mss_Replicas spec))"
  obtain r w1 where r: "MachineSetNodeHealth E s w = (r, w1)" by fastforce
  show "fst (scaleDown E recorder s role spec active deleting w) \<noteq> Inl (Panic p)"
  proof (cases r)
    case (Inl err)
    with r show ?thesis by (simp add: scaleDown_def Let_def run_steps)
  next
    case (Inr health)
    show ?thesis
    proof (cases "?count health")
      case (Inl err)
      with removal_in_range [OF over valid, where role = role and deleting = deleting and health = health] r Inr show ?thesis
        by (simp add: scaleDown_def Let_def run_steps io_lift_def io_bind_def)
    next
      case (Inr x)
      obtain k refused where x: "x = (k, refused)" by fastforce
      with removal_in_range [OF over valid, where role = role and deleting = deleting and health = health] Inr
      have "k \<le> length (sort_for_removal health active)" by simp
      note safe = evict_in_range [OF this]
      then show ?thesis
        using r \<open>r = Inr health\<close> Inr x
        by (auto simp: safe scaleDown_def Let_def run_steps io_lift_def io_bind_def io_wrap_def eventf_def ext_def io_ret_def)
    qed
  qed
next
  fix health w1
  assume neg: "mss_Replicas spec < 0 \<and> role \<noteq> roleControlPlane" and health: "MachineSetNodeHealth E s w = (Inr health, w1)"
  have "length (sort_for_removal health active) < nat (int (length active) - mss_Replicas spec)"
    using neg by (simp add: sort_for_removal_def zless_nat_eq_int_zless)
  with neg health show "scaleDown E recorder s role spec active deleting w = (Inl (Panic ''slice bounds out of range''), w1)"
    by (simp add: scaleDown_def Let_def run_steps removalCount_worker io_lift_def io_bind_def io_ret_def io_raise_def
        evict_def io_wrap_def)
qed

theorem scale_down_stays_in_range_witness:
  "fst (scaleDown memory_ops False ''s'' roleWorker (sample_set 1) [named ''m1'', named ''m2''] 0 health_world)
     \<noteq> Inl (Panic ''slice bounds out of range'') \<and>
   fst (scaleDown memory_ops False ''s'' roleWorker (sample_set (- 1)) [named ''m1''] 0 health_world)
     = Inl (Panic ''slice bounds out of range'')"
proof -
  have read: "\<exists>health w1. MachineSetNodeHealth memory_ops ''s'' health_world = (Inr health, w1)"
  proof -
    have "isl (fst (MachineSetNodeHealth memory_ops ''s'' health_world)) = False" by code_simp
    then show ?thesis by (metis isl_def prod.collapse sum.exhaust_disc sum.collapse(2))
  qed
  have "mss_Replicas (sample_set 1) < int (length [named ''m1'', named ''m2''])"
    "mss_Replicas (sample_set (- 1)) < int (length [named ''m1''])"
    by (simp_all add: sample_set_def)
  note both = this [THEN scale_down_stays_in_range, where E = memory_ops and recorder = False and s = "''s''"
      and role = roleWorker and deleting = 0 and w = health_world]
  have "roleWorker \<noteq> roleControlPlane" "valid_machine_set_spec (sample_set 1)" "mss_Replicas (sample_set (- 1)) < 0"
    by (simp_all add: roleWorker_def roleControlPlane_def valid_machine_set_spec_def sample_set_def)
  with both read show ?thesis by (metis fst_conv)
qed

section \<open>Picking machines\<close>

text \<open>Omni's lists name a machine once.\<close>

definition lists_distinct :: "'e ops \<Rightarrow> bool" where
  "lists_distinct E \<longleftrightarrow> (\<forall>t q e rs. fst (cosi_List E t q e) = Inr rs \<longrightarrow> distinct (map r_ID rs))"

lemma StateListAll_distinct:
  assumes "lists_distinct E" and "StateListAll E t q w = (Inr rs, w')"
  shows "distinct (map r_ID rs)"
  using assms unfolding lists_distinct_def
  by (auto simp: StateListAll_def io_defs split: prod.splits sum.splits if_splits) (metis fst_conv)

lemma memory_lists_distinct: "lists_distinct memory_ops"
  using memory_store unfolding lists_distinct_def cosi_store_def cosi_lists_def yields_def
  by (metis sum.inject(2))

lemma distinct_matching: "distinct (map r_ID rs) \<Longrightarrow> distinct (matching_ids selector rs)"
  unfolding matching_ids_def by (rule distinct_map_filter)

text \<open>A scale-up that succeeds adds exactly the missing number of machines, pairwise different, none
  of which is claimed, each one matching the set's selector among the machines Omni reports; all of
  them are claimed afterwards, and nothing that was claimed is given up.\<close>

theorem scale_up_picks_unclaimed:
  assumes omni: "lists_distinct E"
    and short: "int (length active) < mss_Replicas spec"
    and run: "scaleUp E recorder cluster cn s role spec active claimed w = (Inr (active', claimed'), w')"
  shows "\<exists>fresh selector rs w1. active' = active @ map (synthetic_machine '''') fresh \<and>
    int (length active') = mss_Replicas spec \<and> distinct fresh \<and> set fresh \<inter> set claimed = {} \<and>
    set claimed' = set claimed \<union> set fresh \<and>
    k8s_LabelSelectorAsSelector E (mss_MachineSelector spec) = Inr selector \<and>
    StateListAll E MachineStatusType (selector_query E (mss_MachineSelector spec)) w = (Inr rs, w1) \<and>
    set fresh \<subseteq> {r_ID r |r. r \<in> set rs \<and> selector (r_Labels r)}"
proof -
  let ?needed = "nat (mss_Replicas spec - int (length active))"
  obtain candidates w1 fresh where sel:
      "SelectAvailableMachines E (mss_MachineSelector spec) (?needed + length claimed) w = (Inr candidates, w1)"
    and fresh: "fresh = take ?needed (filter (\<lambda>i. i \<notin> set claimed) candidates)" "length fresh = ?needed"
    and result: "active' = active @ map (synthetic_machine '''') fresh" "claimed' = claim_all fresh claimed"
    using run_scaleUp [OF run short refl] .
  obtain selector rs where selector: "k8s_LabelSelectorAsSelector E (mss_MachineSelector spec) = Inr selector"
    and rs: "StateListAll E MachineStatusType (selector_query E (mss_MachineSelector spec)) w = (Inr rs, w1)"
    and candidates: "candidates = take (?needed + length claimed) (sort (matching_ids selector rs))"
    using sel by (auto simp: SelectAvailableMachines_def Let_def io_iff)
  have "distinct candidates"
    unfolding candidates using distinct_matching [OF StateListAll_distinct [OF omni rs]] by (intro distinct_take) simp
  then have "distinct fresh"
    unfolding fresh by (intro distinct_take distinct_filter)
  moreover have "set fresh \<subseteq> set (filter (\<lambda>i. i \<notin> set claimed) candidates)"
    unfolding fresh by (rule set_take_subset)
  moreover have "set candidates \<subseteq> set (sort (matching_ids selector rs))"
    unfolding candidates by (rule set_take_subset)
  ultimately show ?thesis
    using short fresh(2) result selector rs
    by (intro exI [of _ fresh] exI [of _ selector] exI [of _ rs] exI [of _ w1])
      (auto simp: matching_ids_def subset_iff)
qed

abbreviation sample_scale_up :: "(memory, machine list \<times> string list) io" where
  "sample_scale_up \<equiv> scaleUp memory_ops False sample_cluster ''c1'' ''c1-w'' roleWorker (sample_set 2) [named ''m9''] [''m1'', ''m9'']"

lemma sample_scaled_up: "isl (fst (sample_scale_up free_world)) = False"
  by code_simp

theorem scale_up_picks_unclaimed_witness:
  "\<exists>active' claimed' w' fresh. sample_scale_up free_world = (Inr (active', claimed'), w') \<and>
     active' = [named ''m9''] @ map (synthetic_machine '''') fresh \<and> set fresh \<inter> {''m1'', ''m9''} = {}"
proof -
  obtain active' claimed' w' where run: "sample_scale_up free_world = (Inr (active', claimed'), w')"
    using sample_scaled_up by (cases "sample_scale_up free_world"; cases "fst (sample_scale_up free_world)") auto
  have "int (length [named ''m9'']) < mss_Replicas (sample_set 2)"
    by (simp add: sample_set_def)
  from scale_up_picks_unclaimed [OF memory_lists_distinct this run] run show ?thesis
    by auto
qed





section \<open>Adoption and claims\<close>

lemma create_in_adopt:
  assumes "CreateMachine m \<in> set (made (adoptBindings E recorder cluster cn s role spec bound have existing) w)"
  shows "\<exists>i \<in> set bound - set have.
    k8s_SetControllerReference E cluster (newMachine (oc_Namespace cluster) cn s role i spec) = Inr m"
proof (rule ccontr)
  assume other: "\<not> ?thesis"
  have create: "never (\<lambda>c. c = CreateMachine m) (createMachine E cluster cn s role i spec)"
    if "i \<in> set bound - set have" for i
    using that other unfolding createMachine_def by (intro effects; auto simp: io_iff)
  have "never (\<lambda>c. c = CreateMachine m) (adoptBindings E recorder cluster cn s role spec bs have' ex)"
    if "set bs \<subseteq> set bound" "set have \<subseteq> set have'" for bs have' ex
    using that
  proof (induction bs arbitrary: have' ex)
    case Nil
    show ?case by (simp add: atmost_ret)
  next
    case (Cons b bs)
    have rest: "never (\<lambda>c. c = CreateMachine m) (adoptBindings E recorder cluster cn s role spec bs h e)"
      if "set have \<subseteq> set h" for h e
      using that Cons.prems by (intro Cons.IH) auto
    have "b \<in> set bound - set have" if "b \<notin> set have'"
      using that Cons.prems by auto
    then show ?case
      unfolding adoptBindings.simps using Cons.prems(2)
      by (intro atmost_if never_bind atmost_wrap never_eventf rest create) auto
  qed
  from never_made [OF this assms] show False by simp
qed

text \<open>C5: Machines that Omni already has bound to the set are adopted, not doubled: when the live
  \<open>Machine\<close> objects together with the bindings no object fronts make up the replica count, every
  \<open>Machine\<close> created is for one of those bindings, and none is picked from the free machines.\<close>

theorem adoption_prevents_double_binding:
  assumes listed: "listMachineSetMachines E (oc_Namespace cluster) cn s w = (Inr listed, w1)"
    and bound: "AllocatedMachineSetNodes E s w1 = (Inr bound, w2)"
    and enough: "mss_Replicas spec \<le> int (length (active_of listed) + card (set bound - m_Name ` set listed))"
    and created: "CreateMachine m \<in> set (made (reconcileMachineSetAllocation E recorder cluster cn s role spec claimed) w)"
  shows "\<exists>i \<in> set bound - m_Name ` set listed.
    k8s_SetControllerReference E cluster (newMachine (oc_Namespace cluster) cn s role i spec) = Inr m"
proof -
  let ?adopt = "adoptBindings E recorder cluster cn s role spec bound (map m_Name listed) listed"
  let ?rest = "\<lambda>existing. io_bind (scaleTo E recorder cluster cn s role spec (active_of existing)
     (deleting_of existing) (claim_all (map m_Name existing) claimed)) (\<lambda>(active, claimed').
     io_bind (syncSpecs E cn s role spec active) (\<lambda>_.
     io_bind (reconcileExtensions E cn s spec) (\<lambda>_.
     io_ret (map m_Name active, claimed'))))"
  have quiet: "calls w1 = calls w" "calls w2 = calls w1"
    using listed calls_run [OF bound atmost_AllocatedMachineSetNodes]
      never_made [of "\<lambda>_. True", OF atmost_AllocatedMachineSetNodes, of _ E s w1]
    by (auto simp: listMachineSetMachines_def ext_def split: prod.splits) (metis list.set_intros(1) neq_Nil_conv)
  have run: "reconcileMachineSetAllocation E recorder cluster cn s role spec claimed w = io_bind ?adopt ?rest w2"
    unfolding reconcileMachineSetAllocation_def
    by (simp add: run_bind run_wrap listed bound)
  have c: "CreateMachine m \<in> set (made (io_bind ?adopt ?rest) w2)"
    using created quiet unfolding made_def run by simp
  have rest: "never (\<lambda>c. c = CreateMachine m) (?rest existing)" if adopt: "?adopt v = (Inr existing, v')" for existing v v'
  proof -
    obtain adopted where adopted: "existing = listed @ map (synthetic_machine (oc_Namespace cluster)) adopted"
        "distinct adopted" "set adopted = set bound - set (map m_Name listed)"
      using run_adoptBindings [OF adopt] by blast
    have "length adopted = card (set bound - m_Name ` set listed)"
      using adopted(2,3) distinct_card [of adopted] by simp
    then have "\<not> int (length (active_of existing)) < mss_Replicas spec"
      using enough unfolding adopted(1) by simp
    then show ?thesis
      unfolding scaleTo_def by (intro never_bind atmost_prod atmost_if never_scaleDown never_syncSpecs never_reconcileExtensions atmost_ret)
        auto
  qed
  have "CreateMachine m \<in> set (made ?adopt w2)"
    by (rule made_first [OF c _ rest]) (intro effects; simp)
  from create_in_adopt [OF this] show ?thesis
    by simp
qed


definition bound_world :: "memory world" where
  "bound_world = world_of (empty_memory\<lparr>mem_resources := [member_node ''m1'', free_machine ''m2'']\<rparr>)"

abbreviation sample_adoption :: "(memory, string list \<times> string list) io" where
  "sample_adoption \<equiv>
     reconcileMachineSetAllocation memory_ops False sample_cluster ''c1'' ''c1-cp'' roleControlPlane (sample_set 1) []"

lemma sample_adopted:
  "list_ex (\<lambda>c. case c of CreateMachine m \<Rightarrow> m_Name m = ''m1'' | _ \<Rightarrow> False) (made sample_adoption bound_world)"
  by code_simp

theorem adoption_prevents_double_binding_witness:
  "\<exists>m. CreateMachine m \<in> set (made sample_adoption bound_world) \<and> m_Name m = ''m1'' \<and>
     k8s_SetControllerReference memory_ops sample_cluster
       (newMachine ''ns'' ''c1'' ''c1-cp'' roleControlPlane ''m1'' (sample_set 1)) = Inr m"
proof -
  obtain c where c: "c \<in> set (made sample_adoption bound_world)" "case c of CreateMachine m \<Rightarrow> m_Name m = ''m1'' | _ \<Rightarrow> False"
    using sample_adopted unfolding list_ex_iff by blast
  then obtain m where m: "CreateMachine m \<in> set (made sample_adoption bound_world)" "m_Name m = ''m1''"
    by - (cases c, auto)
  have listed: "listMachineSetMachines memory_ops (oc_Namespace sample_cluster) ''c1'' ''c1-cp'' bound_world = (Inr [], bound_world)"
    by (simp add: listMachineSetMachines_def ext_def memory_fields bound_world_def empty_memory_def world_of_def)
  have bound: "AllocatedMachineSetNodes memory_ops ''c1-cp'' bound_world = (Inr [''m1''], bound_world)"
    by (simp add: AllocatedMachineSetNodes_def StateListAll_def io_defs memory_simps bound_world_def member_node_def
        free_machine_def get_label_def world_of_def empty_memory_def)
  have enough: "mss_Replicas (sample_set 1) \<le> int (length (active_of []) + card (set [''m1''] - m_Name ` set []))"
    by (simp add: sample_set_def)
  from adoption_prevents_double_binding [OF listed bound enough m(1)] m show ?thesis
    by (auto simp: sample_cluster_def empty_meta_def)
qed

lemma scaleTo_claims:
  assumes run: "scaleTo E recorder cluster cn s role spec active deleting claimed w = (Inr (active', claimed'), w')"
  shows "set claimed \<subseteq> set claimed' \<and> set claimed' \<subseteq> set claimed \<union> m_Name ` set active' \<and>
    m_Name ` set active' \<subseteq> m_Name ` set active \<union> set claimed' \<and>
    m_Name ` set active' \<inter> set claimed \<subseteq> m_Name ` set active"
proof (cases "int (length active)" "mss_Replicas spec" rule: linorder_cases)
  case less
  with run have up: "scaleUp E recorder cluster cn s role spec active claimed w = (Inr (active', claimed'), w')"
    by (simp add: scaleTo_def)
  obtain candidates fresh where
      "fresh = take (nat (mss_Replicas spec - int (length active))) (filter (\<lambda>i. i \<notin> set claimed) candidates)"
      "active' = active @ map (synthetic_machine '''') fresh" "claimed' = claim_all fresh claimed"
    using run_scaleUp [OF up less refl] by metis
  then show ?thesis
    by (auto dest: in_set_takeD simp: image_Un image_image)
next
  case equal
  with run show ?thesis by (auto simp: scaleTo_def io_iff)
next
  case greater
  with run have same: "claimed' = claimed"
    and down: "\<exists>v. scaleDown E recorder s role spec active deleting w = (Inr active', v)"
    by (auto simp: scaleTo_def io_iff)
  then obtain health k where "active' = drop k (sort_for_removal health active)"
    using run_scaleDown by metis
  then have "set active' \<subseteq> set active"
    using set_drop_subset [of k "sort_for_removal health active"] by (simp add: sort_for_removal_def)
  with same show ?thesis by auto
qed

text \<open>C8: What the sets of a cluster claim keeps the machines a set picks afresh apart from those of the
  sets before it in the pass: the allocation of a set passes on exactly the claims it was given, the
  machines that were this set's (listed \<open>Machine\<close>s and bindings in Omni) and those it reports; and a
  machine that was claimed before is reported only if it was this set's already, so none of those it
  picks is. (It does not undo a double claim it finds: \<open>control_plane_takes_a_workers_machine\<close>
  in \<open>Divergences\<close>.)\<close>

theorem fresh_picks_respect_claims:
  assumes run: "reconcileMachineSetAllocation E recorder cluster cn s role spec claimed w = (Inr (allocated, claimed'), w')"
    and listed: "listMachineSetMachines E (oc_Namespace cluster) cn s w = (Inr listed, w1)"
    and bound: "AllocatedMachineSetNodes E s w1 = (Inr bound, w2)"
  shows "set claimed' = set claimed \<union> m_Name ` set listed \<union> set bound \<union> set allocated \<and>
    set claimed \<inter> (set allocated - (m_Name ` set listed \<union> set bound)) = {}"
proof -
  obtain listed' bound' adopted existing active v1 v2 w4 w5 where
      l: "listMachineSetMachines E (oc_Namespace cluster) cn s w = (Inr listed', v1)"
    and b: "AllocatedMachineSetNodes E s v1 = (Inr bound', v2)"
    and existing: "existing = listed' @ map (synthetic_machine (oc_Namespace cluster)) adopted"
    and "distinct adopted" and adopted: "set adopted = set bound' - m_Name ` set listed'"
    and scale: "scaleTo E recorder cluster cn s role spec (active_of existing) (deleting_of existing)
      (claim_all (map m_Name existing) claimed) w4 = (Inr (active, claimed'), w5)"
    and names: "allocated = map m_Name active"
    using run_allocation [OF run] .
  have same: "listed' = listed" "bound' = bound"
    using l b listed bound by auto
  have sub: "m_Name ` set (active_of existing) \<subseteq> m_Name ` set existing"
    by (auto simp: active_of_def)
  have all: "m_Name ` set existing = m_Name ` set listed \<union> set bound"
    using adopted unfolding existing same by (auto simp: image_Un image_image)
  have sets: "C' = C \<union> L \<union> N \<union> A \<and> C \<inter> (A - (L \<union> N)) = {}"
    if "C \<union> X \<subseteq> C' \<and> C' \<subseteq> C \<union> X \<union> A \<and> A \<subseteq> B \<union> C' \<and> A \<inter> (C \<union> X) \<subseteq> B" "B \<subseteq> X" "X = L \<union> N"
    for A B C C' L N X :: "string set"
    using that by blast
  show ?thesis
    unfolding names set_map
    by (rule sets [OF scaleTo_claims [OF scale, unfolded set_map set_claim_all] sub all])
qed

theorem fresh_picks_respect_claims_witness:
  "\<exists>allocated claimed' w'. sample_allocation free_world = (Inr (allocated, claimed'), w') \<and>
     set claimed' = {''m1''} \<union> set allocated \<and> {''m1''} \<inter> set allocated = {}"
proof -
  have run: "sample_allocation free_world = (Inr ([''m2'', ''m3''], [''m1'', ''m2'', ''m3'']), snd (sample_allocation free_world))"
    using sample_allocated by (metis prod.collapse)
  have listed: "listMachineSetMachines memory_ops (oc_Namespace sample_cluster) ''c1'' ''c1-w'' free_world = (Inr [], free_world)"
    by (simp add: listMachineSetMachines_def ext_def memory_fields free_world_def empty_memory_def world_of_def)
  have bound: "AllocatedMachineSetNodes memory_ops ''c1-w'' free_world = (Inr [], free_world)"
    by (simp add: AllocatedMachineSetNodes_def StateListAll_def io_defs memory_simps free_world_def
        free_machine_def get_label_def world_of_def empty_memory_def)
  have "set [''m1'', ''m2'', ''m3''] = {''m1''} \<union> set [''m2'', ''m3''] \<and> {''m1''} \<inter> set [''m2'', ''m3''] = {}"
    using fresh_picks_respect_claims [OF run listed bound] by simp
  with run show ?thesis by metis
qed

section \<open>Keeping specs in step\<close>

text \<open>Bringing a \<open>Machine\<close> in step with its set rewrites what the set determines and nothing else: the
  reboot request and the management address, which the drift path owns, survive, as do name, status
  and other labels; and a machine in step is not written again.\<close>

theorem sync_preserves_reboot_request:
  "let m' = syncedMachine m cn s role spec in
     (ms_RebootRequestedAt (m_Spec m') = ms_RebootRequestedAt (m_Spec m) \<and>
      ms_ManagementAddress (m_Spec m') = ms_ManagementAddress (m_Spec m) \<and>
      rebootOwed (m_Spec m') (m_Status m') = rebootOwed (m_Spec m) (m_Status m)) \<and>
     m_Spec m' = (desiredMachineSpec cn s role spec)
       \<lparr>ms_RebootRequestedAt := ms_RebootRequestedAt (m_Spec m), ms_ManagementAddress := ms_ManagementAddress (m_Spec m)\<rparr> \<and>
     m_Status m' = m_Status m \<and> m_Name m' = m_Name m \<and>
     map_of (om_Labels (m_Meta m')) = (map_of (om_Labels (m_Meta m)))(labelCluster \<mapsto> cn, labelMachineSet \<mapsto> s) \<and>
     (made (syncMachineSpec E m cn s role spec) w = [] \<or> made (syncMachineSpec E m cn s role spec) w = [UpdateMachine m']) \<and>
     syncMachineSpec E m' cn s role spec v = (Inr (), v)"
proof -
  let ?m' = "syncedMachine m cn s role spec"
  have twice: "m_Spec (syncedMachine ?m' cn s role spec) = m_Spec ?m'"
    "map_of (om_Labels (m_Meta (syncedMachine ?m' cn s role spec))) = map_of (om_Labels (m_Meta ?m'))"
    by (simp_all add: syncedMachine_def Let_def desiredMachineSpec_def fun_upd_twist)
  have "m_Spec ?m' = (desiredMachineSpec cn s role spec)
       \<lparr>ms_RebootRequestedAt := ms_RebootRequestedAt (m_Spec m), ms_ManagementAddress := ms_ManagementAddress (m_Spec m)\<rparr>"
    by (rule machine_spec.equality) (simp_all add: syncedMachine_def Let_def desiredMachineSpec_def)
  moreover have "syncMachineSpec E ?m' cn s role spec v = (Inr (), v)"
    unfolding syncMachineSpec_def Let_def twice(1) gomap_eq_iff twice(2) by (simp add: io_ret_def)
  moreover have "made (syncMachineSpec E m cn s role spec) w = [] \<or> made (syncMachineSpec E m cn s role spec) w = [UpdateMachine ?m']"
    unfolding syncMachineSpec_def Let_def by simp
  ultimately show ?thesis
    unfolding Let_def
    by (simp add: syncedMachine_def rebootOwed_def Let_def)
qed

end
