(* ===== verification/Rollout.thy ===== *)
theory Rollout
  imports Allocation_Properties
begin

text \<open>
  Scaling a machine set down over many passes: each pass of the cluster controller removes what it may,
  the machine controller finishes the removals one by one, and together they come to rest.
\<close>

text \<open>The set's active machines and the number of those still being torn down. A pass that removes
  nothing leaves this state as it is and is not a step.\<close>

inductive rollout :: "'e ops \<Rightarrow> bool \<Rightarrow> string \<Rightarrow> string \<Rightarrow> machine_set_spec \<Rightarrow>
    machine list \<times> nat \<Rightarrow> machine list \<times> nat \<Rightarrow> bool"
  for E recorder s role spec where
  pass: "mss_Replicas spec < int (length active) \<Longrightarrow>
    scaleDown E recorder s role spec active deleting w = (Inr kept, w') \<Longrightarrow> length kept < length active \<Longrightarrow>
    rollout E recorder s role spec (active, deleting) (kept, deleting + (length active - length kept))"
| gone: "rollout E recorder s role spec (active, Suc deleting) (active, deleting)"

inductive_cases rolloutE: "rollout E recorder s role spec (active, deleting) t"

abbreviation remaining :: "machine list \<times> nat \<Rightarrow> nat" where
  "remaining t \<equiv> 2 * length (fst t) + snd t"

lemma rollout_decreases: "rollout E recorder s role spec t u \<Longrightarrow> remaining u < remaining t"
  by (induction rule: rollout.induct) simp_all

lemma rollout_length:
  "(rollout E recorder s role spec ^^ n) t u \<Longrightarrow> n + remaining u \<le> remaining t"
proof (induction n arbitrary: u)
  case (Suc n)
  then obtain v where "(rollout E recorder s role spec ^^ n) t v" "rollout E recorder s role spec v u"
    by (auto elim: relpowp_Suc_E)
  with Suc.IH [of v] rollout_decreases [of E recorder s role spec v u] show ?case by simp
qed (simp add: relpowp_0_I)

text \<open>What a control plane's pass can remove.\<close>

lemma control_plane_pass:
  assumes "scaleDown E recorder s roleControlPlane spec active deleting w = (Inr kept, w')"
  shows "length active \<le> length kept \<or> deleting = 0 \<and> length active = Suc (length kept)"
proof -
  obtain health k refused where k: "removalCount roleControlPlane (mss_Replicas spec) deleting health
      (sort_for_removal health active) (nat (int (length active) - mss_Replicas spec)) = Inr (k, refused)"
      "kept = drop k (sort_for_removal health active)" "k \<le> length active"
    using run_scaleDown [OF assms] by metis
  then show ?thesis
    by (auto simp: removalCount_def Let_def sort_for_removal_def split: if_splits list.splits)
qed

definition between :: "string \<Rightarrow> machine_set_spec \<Rightarrow> machine list \<times> nat \<Rightarrow> machine list \<times> nat \<Rightarrow> bool" where
  "between role spec t u \<longleftrightarrow> min (mss_Replicas spec) (int (length (fst t))) \<le> int (length (fst u)) \<and>
     (role = roleControlPlane \<longrightarrow> snd u \<le> max 1 (snd t))"

lemma rollout_between:
  assumes "rollout E recorder s role spec t u" "valid_machine_set_spec spec" "between role spec t0 t"
  shows "between role spec t0 u"
  using assms
proof (induction rule: rollout.induct)
  case (pass active deleting w kept w')
  have "mss_Replicas spec \<le> int (length kept)"
    using length_kept [OF pass.hyps(2,1)] pass.prems by (simp add: valid_machine_set_spec_def)
  moreover have "role = roleControlPlane \<Longrightarrow> deleting = 0 \<and> length active = Suc (length kept)"
    using control_plane_pass pass.hyps(2,3) by (metis not_le)
  ultimately show ?case
    using pass.prems by (auto simp: between_def)
qed (auto simp: between_def)

lemma rollouts_between:
  "(rollout E recorder s role spec ^^ n) t u \<Longrightarrow> valid_machine_set_spec spec \<Longrightarrow> between role spec t u"
proof (induction n arbitrary: u)
  case 0
  then show ?case by (simp add: between_def)
next
  case (Suc n)
  then show ?case by (metis relpowp_Suc_E rollout_between)
qed

text \<open>At rest, a pass that succeeds keeps everything, and only the quorum guard makes it.\<close>

lemma pass_at_rest:
  assumes over: "mss_Replicas spec < int (length active)" and valid: "valid_machine_set_spec spec"
    and run: "scaleDown E recorder s role spec active 0 w = (Inr kept, w')" and all: "length active \<le> length kept"
  shows "role = roleControlPlane \<and> (\<exists>health. fst (MachineSetNodeHealth E s w) = Inr health \<and>
    (\<forall>m \<in> set active. machineHealthy health (m_Name m)))"
proof -
  obtain health k refused w1 where health: "MachineSetNodeHealth E s w = (Inr health, w1)"
    and k: "removalCount role (mss_Replicas spec) 0 health (sort_for_removal health active)
      (nat (int (length active) - mss_Replicas spec)) = Inr (k, refused)"
    and kept: "kept = drop k (sort_for_removal health active)" "k \<le> length active"
    using run_scaleDown [OF run] by metis
  have "k = 0"
    using all kept over valid by (simp add: sort_for_removal_def valid_machine_set_spec_def)
  then have cp: "role = roleControlPlane"
    using k over removalCount_worker by fastforce
  obtain a ms where ordered: "sort_for_removal health active = a # ms"
    using over valid by (cases "sort_for_removal health active")
      (auto simp: sort_for_removal_def valid_machine_set_spec_def dest: arg_cong [where f = length])
  have healthy: "machineHealthy health (m_Name a)"
    using k \<open>k = 0\<close> over cp by (auto simp: removalCount_def Let_def ordered split: if_splits)
  have "machineHealthy health (m_Name m)" if "m \<in> set active" for m
  proof -
    have "m \<in> set (a # ms)"
      using that ordered by (metis set_sort sort_for_removal_def)
    moreover have "sorted (map (removal_rank health) (a # ms))"
      using ordered by (metis sort_for_removal_def sorted_sort_key)
    ultimately have "removal_rank health a \<le> removal_rank health m"
      by auto
    with healthy show ?thesis
      by (auto simp: removal_rank_le)
  qed
  with cp health show ?thesis by auto
qed

section \<open>The property\<close>

text \<open>C10: Scaling down terminates and makes progress. From any number of active and leaving machines,
  whatever the outside does in each pass, the steps (passes that remove something, removals that finish)
  are at most twice the active machines plus the leaving ones. None takes the set below its replica
  count, and a control plane never has a second member leaving because of them. While no machine is
  leaving and the set is too large, every pass that succeeds is such a step, except at one place: a
  control plane all of whose members Omni reports healthy, where the quorum guard keeps everything.\<close>

theorem scale_down_comes_to_rest:
  assumes steps: "(rollout E recorder s role spec ^^ n) (active, deleting) (active', deleting')"
    and valid: "valid_machine_set_spec spec"
  shows "n \<le> 2 * length active + deleting \<and>
    min (mss_Replicas spec) (int (length active)) \<le> int (length active') \<and>
    (role = roleControlPlane \<longrightarrow> deleting' \<le> max 1 deleting) \<and>
    (\<forall>w kept w'. deleting' = 0 \<and> mss_Replicas spec < int (length active') \<and>
      scaleDown E recorder s role spec active' deleting' w = (Inr kept, w') \<longrightarrow>
        rollout E recorder s role spec (active', deleting') (kept, length active' - length kept) \<or>
        role = roleControlPlane \<and> length kept = length active' \<and>
          (\<exists>health. fst (MachineSetNodeHealth E s w) = Inr health \<and> (\<forall>m \<in> set active'. machineHealthy health (m_Name m))))"
proof -
  have "n \<le> 2 * length active + deleting"
    using rollout_length [OF steps] by simp
  moreover have "between role spec (active, deleting) (active', deleting')"
    using rollouts_between [OF steps valid] .
  moreover have "rollout E recorder s role spec (active', deleting') (kept, length active' - length kept) \<or>
      role = roleControlPlane \<and> length kept = length active' \<and>
        (\<exists>health. fst (MachineSetNodeHealth E s w) = Inr health \<and> (\<forall>m \<in> set active'. machineHealthy health (m_Name m)))"
    if d: "deleting' = 0" and over: "mss_Replicas spec < int (length active')"
      and run: "scaleDown E recorder s role spec active' deleting' w = (Inr kept, w')" for w kept w'
  proof (cases "length kept < length active'")
    case True
    then show ?thesis
      using pass [OF over run] d by simp
  next
    case False
    moreover have "length kept \<le> length active'"
      using run_scaleDown [OF run] by (metis length_drop diff_le_self length_sort sort_for_removal_def)
    ultimately show ?thesis
      using pass_at_rest [OF over valid run [unfolded d]] by simp
  qed
  ultimately show ?thesis
    unfolding between_def fst_conv snd_conv by blast
qed

text \<open>Two workers where one is asked for: one pass, one removal that finishes, and no third step.\<close>

theorem scale_down_comes_to_rest_witness:
  "\<exists>kept. (rollout memory_ops False ''s'' roleWorker (sample_set 1) ^^ 2) ([named ''m1'', named ''m2''], 0) (kept, 0) \<and>
     map m_Name kept = [''m1''] \<and> 2 \<le> 2 * length [named ''m1'', named ''m2''] \<and> 1 \<le> length kept"
proof -
  obtain kept w' where run: "sample_scale_down health_world = (Inr kept, w')" and kept: "map m_Name kept = [''m1'']"
    using sample_scaled_down by (cases "sample_scale_down health_world"; cases "fst (sample_scale_down health_world)") auto
  have one: "length kept = 1"
    using kept by (metis length_map length_Cons list.size(3) One_nat_def)
  have "rollout memory_ops False ''s'' roleWorker (sample_set 1) ([named ''m1'', named ''m2''], 0) (kept, Suc 0)"
    using pass [OF _ run] one by (simp add: sample_set_def)
  then have steps: "(rollout memory_ops False ''s'' roleWorker (sample_set 1) ^^ 2) ([named ''m1'', named ''m2''], 0) (kept, 0)"
    unfolding numeral_2_eq_2 using gone by (metis relpowp_0_I relpowp_Suc_I)
  from scale_down_comes_to_rest [OF this] kept steps show ?thesis
    by (auto simp: valid_machine_set_spec_def sample_set_def)
qed

end
