(* ===== verification/Drift.thy ===== *)
theory Drift
  imports Allocation Machine_Controller
begin

text \<open>
  The drift-remediation half of \<open>controllers/omnicluster_controller.go\<close>: choosing at most one
  drifting machine of a cluster and requesting its reboot on the \<open>Machine\<close> object.
\<close>

definition set_cluster_condition :: "'e ops \<Rightarrow> omni_cluster \<Rightarrow> condition \<Rightarrow> ('e, omni_cluster) io" where
  "set_cluster_condition E cluster c =
     io_bind (set_condition E (ost_Conditions (oc_Status cluster)) c)
       (\<lambda>conds. io_ret (cluster\<lparr>oc_Status := (oc_Status cluster)\<lparr>ost_Conditions := conds\<rparr>\<rparr>))"

lemma never_set_cluster_condition [effects]: "never Q (set_cluster_condition E cluster c)"
  unfolding set_cluster_condition_def by (intro effects)

definition drift_condition :: "omni_cluster \<Rightarrow> string \<Rightarrow> string \<Rightarrow> string \<Rightarrow> condition" where
  "drift_condition cluster status reason message =
     new_condition ''ConfigDriftDetected'' status reason message (oc_Generation cluster)"

definition anyRebootInFlight :: "machine list \<Rightarrow> bool" where
  "anyRebootInFlight machines = list_ex (\<lambda>m. rebootOwed (m_Spec m) (m_Status m)) machines"

definition machines_by_id :: "machine list \<Rightarrow> (string, machine) gomap" where
  "machines_by_id machines = fold (\<lambda>m. AList.update (m_Name m) m) machines []"

definition cooled_down :: "machine \<Rightarrow> int \<Rightarrow> bool" where
  "cooled_down m t =
     (case mst_LastRebootTime (m_Status m) of
        None \<Rightarrow> True
      | Some rebooted \<Rightarrow> rebootCooldown \<le> time_Sub t rebooted)"

fun selectDriftRebootCandidate ::
  "MachineConfigDrift list \<Rightarrow> (string, machine) gomap \<Rightarrow> int \<Rightarrow> MachineConfigDrift option" where
  "selectDriftRebootCandidate [] byID t = None"
| "selectDriftRebootCandidate (d # drifting) byID t =
     (case map_of byID (mcd_MachineID d) of
        None \<Rightarrow> selectDriftRebootCandidate drifting byID t
      | Some m \<Rightarrow> if cooled_down m t then Some d else selectDriftRebootCandidate drifting byID t)"

definition request_reboot :: "int \<Rightarrow> string \<Rightarrow> machine \<Rightarrow> machine" where
  "request_reboot t address m =
     m\<lparr>m_Spec := (m_Spec m)\<lparr>ms_RebootRequestedAt := Some t, ms_ManagementAddress := address\<rparr>\<rparr>"

definition rebootCooldown_text :: string where
  "rebootCooldown_text = ''10m0s''"

text \<open>The outcomes of a pass with drift and no reboot in flight: wait, or request one reboot.\<close>

definition await_cooldown ::
  "'e ops \<Rightarrow> bool \<Rightarrow> omni_cluster \<Rightarrow> MachineConfigDrift list \<Rightarrow> ('e, omni_cluster) io" where
  "await_cooldown E recorder cluster drifting =
     (let waiting = join '', '' (map mcd_MachineID drifting)
      in io_bind (set_cluster_condition E cluster
           (drift_condition cluster ConditionTrue ''RebootCooldown''
              (''Machine(s) '' @ waiting @
               '' still drifting after a recent reboot; next reboot allowed after a '' @
               rebootCooldown_text @ '' cooldown''))) (\<lambda>cluster'.
         io_bind (eventf recorder EventTypeWarning ''RebootCooldown''
           (''Machine(s) '' @ waiting @
            '' still drifting after a recent reboot; waiting for the '' @
            rebootCooldown_text @ '' cooldown''))
           (\<lambda>_. io_ret cluster')))"

definition request_drift_reboot ::
  "'e ops \<Rightarrow> bool \<Rightarrow> omni_cluster \<Rightarrow> int \<Rightarrow> MachineConfigDrift \<Rightarrow> machine \<Rightarrow> ('e, omni_cluster) io" where
  "request_drift_reboot E recorder cluster t candidate m =
     io_bind
       (io_wrap (\<lambda>e. Wrapf (''request reboot for machine '' @ mcd_MachineID candidate @ '': '') e '''')
          (updateMachine E (request_reboot t (mcd_ManagementAddress candidate) m))) (\<lambda>_.
     io_bind
       (eventf recorder EventTypeNormal ''RebootRequested''
          (''Requested reboot of machine '' @ mcd_MachineID candidate @
           '' to apply config update'')) (\<lambda>_.
     set_cluster_condition E cluster
       (drift_condition cluster ConditionTrue ''PendingReboot''
          (''Machine '' @ mcd_MachineID candidate @
           '' has pending config update; reboot requested''))))"

definition pick_drift_reboot ::
  "'e ops \<Rightarrow> bool \<Rightarrow> omni_cluster \<Rightarrow> MachineConfigDrift list \<Rightarrow> machine list \<Rightarrow> ('e, omni_cluster) io" where
  "pick_drift_reboot E recorder cluster drifting machines =
     io_bind (now E) (\<lambda>t.
       let byID = machines_by_id machines
       in case selectDriftRebootCandidate drifting byID t of
            None \<Rightarrow> await_cooldown E recorder cluster drifting
          | Some candidate \<Rightarrow>
              (case map_of byID (mcd_MachineID candidate) of
                 None \<Rightarrow> io_raise (Panic ''nil pointer dereference'')
               | Some m \<Rightarrow> request_drift_reboot E recorder cluster t candidate m))"

definition signalDriftReboots ::
  "'e ops \<Rightarrow> bool \<Rightarrow> omni_cluster \<Rightarrow> string \<Rightarrow> MachineConfigDrift list \<Rightarrow> ('e, omni_cluster) io" where
  "signalDriftReboots E recorder cluster clusterName drifting =
     (if drifting = []
      then set_cluster_condition E cluster
             (drift_condition cluster ConditionFalse ''AllMachinesUpToDate''
                ''All machines are running the target config'')
      else io_bind (listClusterMachines E (oc_Namespace cluster) clusterName) (\<lambda>machines.
        if anyRebootInFlight machines
        then set_cluster_condition E cluster
               (drift_condition cluster ConditionTrue ''PendingReboot''
                  ''A drift-remediation reboot is already in flight'')
        else pick_drift_reboot E recorder cluster drifting machines))"

section \<open>What each step may do\<close>

lemma never_await_cooldown [effects]:
  "(\<And>t r m. \<not> Q (EmitEvent t r m)) \<Longrightarrow> never Q (await_cooldown E recorder cluster drifting)"
  unfolding await_cooldown_def Let_def by (intro effects) simp_all

lemma never_request_drift_reboot [effects]:
  "\<not> Q (UpdateMachine (request_reboot t (mcd_ManagementAddress d) m)) \<Longrightarrow> (\<And>t r m. \<not> Q (EmitEvent t r m)) \<Longrightarrow>
   never Q (request_drift_reboot E recorder cluster t d m)"
  unfolding request_drift_reboot_def by (intro effects) simp_all

lemma never_pick_drift_reboot [effects]:
  "(\<And>m. \<not> Q (UpdateMachine m)) \<Longrightarrow> (\<And>t r m. \<not> Q (EmitEvent t r m)) \<Longrightarrow>
   never Q (pick_drift_reboot E recorder cluster drifting machines)"
  unfolding pick_drift_reboot_def Let_def by (intro effects) simp_all

lemma never_signalDriftReboots [effects]:
  "(\<And>m. \<not> Q (UpdateMachine m)) \<Longrightarrow> (\<And>t r m. \<not> Q (EmitEvent t r m)) \<Longrightarrow>
   never Q (signalDriftReboots E recorder cluster cn drifting)"
  unfolding signalDriftReboots_def by (intro effects) simp_all

lemma one_request_drift_reboot: "atmost 1 is_update_machine (request_drift_reboot E recorder cluster t d m)"
  unfolding request_drift_reboot_def
  by (rule atmost_bind_last, rule atmost_wrap, rule atmost_ext) (simp, (intro effects; simp))

lemma one_request: "atmost 1 is_update_machine (signalDriftReboots E recorder cluster cn drifting)"
  unfolding signalDriftReboots_def pick_drift_reboot_def Let_def
  by (intro atmost_if atmost_bind_first atmost_option one_request_drift_reboot
      never_atmost [OF never_set_cluster_condition] never_atmost [OF never_await_cooldown];
      (intro effects; simp | simp))

end
