(* ===== verification/Teardown.thy ===== *)
theory Teardown
  imports Allocation Machine_Controller
begin

text \<open>
  The removal half of \<open>controllers/omnicluster_controller.go\<close>: machine sets that left the spec, and
  everything Omni holds for a cluster that is being deleted.
\<close>

definition ownerOf :: "omni_cluster \<Rightarrow> string" where
  "ownerOf cluster = oc_Namespace cluster @ ''/'' @ oc_Name cluster"

definition workerSetID :: "string \<Rightarrow> worker_machine_set_spec \<Rightarrow> string" where
  "workerSetID clusterName w = clusterName @ ''-'' @ wms_Name w"

definition desiredMachineSets :: "'e ops \<Rightarrow> omni_cluster \<Rightarrow> string \<Rightarrow> string list" where
  "desiredMachineSets E cluster clusterName =
     omni_ControlPlanesResourceID E clusterName # map (workerSetID clusterName) (ocs_Workers (oc_Spec cluster))"

text \<open>The nodes of a set that no \<open>Machine\<close> object fronts, released one after the other.\<close>

definition releaseNodes ::
  "'e ops \<Rightarrow> string \<Rightarrow> (goerror \<Rightarrow> goerror) \<Rightarrow> string \<Rightarrow> ('e, unit) io" where
  "releaseNodes E clusterName wrap machineSetID =
     io_bind (io_wrap (\<lambda>e. Wrapf (''list machine set nodes for '' @ machineSetID @ '': '') e '''')
                (AllocatedMachineSetNodes E machineSetID)) (\<lambda>nodes.
     io_for nodes (\<lambda>machineID. io_wrap wrap (releaseMachineOmni (OmniClient E) clusterName machineID)))"

definition pruneMachineSet ::
  "'e ops \<Rightarrow> omni_cluster \<Rightarrow> string \<Rightarrow> string \<Rightarrow> ('e, unit) io" where
  "pruneMachineSet E cluster clusterName machineSetID =
     io_bind (deleteMachineSetMachines E cluster clusterName machineSetID) (\<lambda>remaining.
       if 0 < remaining
       then io_raise (Errorf (''waiting for '' @ show_nat remaining @ '' machine(s) in orphaned set '' @
                              machineSetID @ '' to finish teardown''))
       else io_bind
              (releaseNodes E clusterName
                 (\<lambda>e. Wrapf (''release machine from orphaned set '' @ machineSetID @ '': '') e '''')
                 machineSetID) (\<lambda>_.
            io_bind
              (io_wrap (\<lambda>e. Wrapf (''delete extensions configuration for orphaned machine set '' @
                                    machineSetID @ '': '') e '''')
                 (DeleteExtensionsConfigurationForMachineSet E machineSetID)) (\<lambda>_.
            io_wrap (\<lambda>e. Wrapf (''delete orphaned machine set '' @ machineSetID @ '': '') e '''')
              (DeleteMachineSet E machineSetID))))"

definition pruneIfOrphaned :: "'e ops \<Rightarrow> omni_cluster \<Rightarrow> string \<Rightarrow> string \<Rightarrow> ('e, unit) io" where
  "pruneIfOrphaned E cluster clusterName machineSetID =
     (if machineSetID \<in> set (desiredMachineSets E cluster clusterName) then io_ret ()
      else if machineSetID = omni_ControlPlanesResourceID E clusterName then io_ret ()
      else pruneMachineSet E cluster clusterName machineSetID)"

definition pruneOrphanedMachineSets :: "'e ops \<Rightarrow> omni_cluster \<Rightarrow> string \<Rightarrow> ('e, unit) io" where
  "pruneOrphanedMachineSets E cluster clusterName =
     io_bind (io_wrap (\<lambda>e. Wrapf (''list machine sets for cluster '' @ clusterName @ '': '') e '''')
                (ListMachineSetIDsForCluster E clusterName)) (\<lambda>actual.
     io_for actual (pruneIfOrphaned E cluster clusterName))"

definition deleteKubeconfigSecrets :: "'e ops \<Rightarrow> string \<Rightarrow> string \<Rightarrow> ('e, unit) io" where
  "deleteKubeconfigSecrets E kubeconfigNamespace clusterName =
     io_for [clusterName @ ''-kubeconfig'', clusterName @ ''-cluster-secret''] (\<lambda>name.
       io_wrap (\<lambda>e. Wrapf (''delete kubeconfig secret '' @ name @ '': '') e '''')
         (IgnoreNotFound
           (ext [DeleteSecret kubeconfigNamespace name] (k8s_DeleteSecret E kubeconfigNamespace name))))"

definition deleteClusterMachines :: "'e ops \<Rightarrow> omni_cluster \<Rightarrow> string \<Rightarrow> ('e, unit) io" where
  "deleteClusterMachines E cluster clusterName =
     io_bind (io_wrap (\<lambda>e. Wrapf (''list machines for cluster '' @ clusterName @ '': '') e '''')
                (listClusterMachines E (oc_Namespace cluster) clusterName)) (\<lambda>machines.
     io_bind (io_for machines (\<lambda>m.
                io_wrap (\<lambda>e. Wrapf (''delete machine '' @ m_Name m @ '': '') e '''') (deleteMachine E m))) (\<lambda>_.
     if machines \<noteq> []
     then io_raise (Errorf (''waiting for '' @ show_nat (length machines) @ '' machine(s) to finish teardown''))
     else io_ret ()))"

definition deleteMachineSets :: "'e ops \<Rightarrow> string \<Rightarrow> ('e, unit) io" where
  "deleteMachineSets E clusterName =
     io_bind (io_wrap (\<lambda>e. Wrapf (''list machine sets for cluster '' @ clusterName @ '': '') e '''')
                (ListMachineSetIDsForCluster E clusterName)) (\<lambda>machineSetIDs.
     io_bind (io_for machineSetIDs (releaseNodes E clusterName (\<lambda>e. e))) (\<lambda>_.
     io_for machineSetIDs (\<lambda>machineSetID.
       io_bind
         (io_wrap (\<lambda>e. Wrapf (''delete extensions configuration for machine set '' @ machineSetID @ '': '') e '''')
            (DeleteExtensionsConfigurationForMachineSet E machineSetID)) (\<lambda>_.
       io_wrap (\<lambda>e. Wrapf (''delete machine set '' @ machineSetID @ '': '') e '''')
         (DeleteMachineSet E machineSetID)))))"

definition deleteOmniResources ::
  "'e ops \<Rightarrow> bool \<Rightarrow> string \<Rightarrow> omni_cluster \<Rightarrow> ('e, unit) io" where
  "deleteOmniResources E recorder kubeconfigNamespace cluster =
     (let clusterName = oc_Name cluster
      in io_bind (ClusterOwner E clusterName) (\<lambda>owner.
         if owner \<noteq> None \<and> owner \<noteq> Some (ownerOf cluster) then io_ret ()
         else io_bind (deleteKubeconfigSecrets E kubeconfigNamespace clusterName) (\<lambda>_.
              io_bind (deleteClusterMachines E cluster clusterName) (\<lambda>_.
              io_bind (deleteMachineSets E clusterName) (\<lambda>_.
              io_bind (DeleteCluster E clusterName) (\<lambda>_.
              eventf recorder EventTypeNormal ''ClusterDeleted'' ''Omni cluster resources deleted''))))))"

section \<open>What teardown may do\<close>

lemma never_releaseMachineOmni_any [effects]:
  "(\<And>t i. \<not> Q (TeardownResource t i)) \<Longrightarrow> (\<And>t i. \<not> Q (DestroyResource t i)) \<Longrightarrow>
   never Q (releaseMachineOmni (OmniClient E) cn m)"
  unfolding releaseMachineOmni_def DeleteMachineSetNode_def DeleteKernelArgsForMachine_def OmniClient_simps
  by (intro effects) simp_all

lemma never_releaseNodes:
  "configures Q \<Longrightarrow> never Q (releaseNodes E cn wrap s)"
  unfolding releaseNodes_def by (intro never_bind never_for atmost_wrap omni.never_releaseMachineOmni effects)

lemma never_releaseNodes_any [effects]:
  "(\<And>t i. \<not> Q (TeardownResource t i)) \<Longrightarrow> (\<And>t i. \<not> Q (DestroyResource t i)) \<Longrightarrow>
   never Q (releaseNodes E cn wrap s)"
  unfolding releaseNodes_def by (intro effects) simp_all

lemma never_DeleteExtensionsConfiguration [effects]:
  "\<not> Q (TeardownResource ExtensionsConfigurationType (schematicID s)) \<Longrightarrow>
   \<not> Q (DestroyResource ExtensionsConfigurationType (schematicID s)) \<Longrightarrow>
   never Q (DeleteExtensionsConfigurationForMachineSet E s)"
  unfolding DeleteExtensionsConfigurationForMachineSet_def by (intro effects)

lemma never_DeleteMachineSet [effects]:
  "\<not> Q (TeardownResource MachineSetType s) \<Longrightarrow> \<not> Q (DestroyResource MachineSetType s) \<Longrightarrow> never Q (DeleteMachineSet E s)"
  unfolding DeleteMachineSet_def by (intro effects)

lemma never_DeleteCluster [effects]:
  "\<not> Q (TeardownResource ClusterType s) \<Longrightarrow> \<not> Q (DestroyResource ClusterType s) \<Longrightarrow> never Q (DeleteCluster E s)"
  unfolding DeleteCluster_def by (intro effects)

lemma never_deleteKubeconfigSecrets [effects]:
  "(\<And>n. \<not> Q (DeleteSecret ns n)) \<Longrightarrow> never Q (deleteKubeconfigSecrets E ns cn)"
  unfolding deleteKubeconfigSecrets_def by (intro effects) simp

lemma never_deleteClusterMachines [effects]:
  "(\<And>ns n. \<not> Q (DeleteMachine ns n)) \<Longrightarrow> never Q (deleteClusterMachines E cluster cn)"
  unfolding deleteClusterMachines_def by (intro effects) simp_all

lemma never_pruneMachineSet [effects]:
  "(\<And>ns n. \<not> Q (DeleteMachine ns n)) \<Longrightarrow> (\<And>t i. \<not> Q (TeardownResource t i)) \<Longrightarrow> (\<And>t i. \<not> Q (DestroyResource t i)) \<Longrightarrow>
   never Q (pruneMachineSet E cluster cn s)"
  unfolding pruneMachineSet_def by (intro effects) simp_all

lemma never_pruneOrphanedMachineSets [effects]:
  "(\<And>ns n. \<not> Q (DeleteMachine ns n)) \<Longrightarrow> (\<And>t i. \<not> Q (TeardownResource t i)) \<Longrightarrow> (\<And>t i. \<not> Q (DestroyResource t i)) \<Longrightarrow>
   never Q (pruneOrphanedMachineSets E cluster cn)"
  unfolding pruneOrphanedMachineSets_def pruneIfOrphaned_def by (intro effects) simp_all

lemma never_deleteMachineSets [effects]:
  "(\<And>t i. \<not> Q (TeardownResource t i)) \<Longrightarrow> (\<And>t i. \<not> Q (DestroyResource t i)) \<Longrightarrow>
   never Q (deleteMachineSets E cn)"
  unfolding deleteMachineSets_def by (intro effects) simp_all

lemma never_deleteOmniResources [effects]:
  "(\<And>ns n. \<not> Q (DeleteMachine ns n)) \<Longrightarrow> (\<And>t i. \<not> Q (TeardownResource t i)) \<Longrightarrow> (\<And>t i. \<not> Q (DestroyResource t i)) \<Longrightarrow>
   (\<And>ns n. \<not> Q (DeleteSecret ns n)) \<Longrightarrow> (\<And>t r m. \<not> Q (EmitEvent t r m)) \<Longrightarrow>
   never Q (deleteOmniResources E recorder kns cluster)"
  unfolding deleteOmniResources_def Let_def by (intro effects) simp_all

end
