(* ===== verification/Kubeconfig.thy ===== *)
theory Kubeconfig
  imports Omni_Client Common
begin

text \<open>
  The kubeconfig Secrets of \<open>controllers/omnicluster_controller.go\<close>: when the stored Secret must
  be fetched again, the raw Secret Flux reads and the cluster Secret ArgoCD reads, with the
  base64 and JSON encoders of Go's library they use. \<open>json_string\<close> is exact on ASCII text, which
  is what tokens and base64 are; bytes from 128 up pass through it.
\<close>

section \<open>Refresh\<close>

definition annotation_at :: "secret \<Rightarrow> string \<Rightarrow> string" where
  "annotation_at s k =
     (case map_of (om_Annotations (sec_Meta s)) k of None \<Rightarrow> '''' | Some v \<Rightarrow> v)"

definition secretNeedsRefresh :: "'e ops \<Rightarrow> secret option \<Rightarrow> string \<Rightarrow> int \<Rightarrow> bool" where
  "secretNeedsRefresh E secret dataKey t =
     (case secret of
        None \<Rightarrow> True
      | Some s \<Rightarrow>
          if map_of (sec_Data s) dataKey = None then True
          else (case time_ParseRFC3339 E (annotation_at s kubeconfigRefreshedAtAnnotation) of
                  None \<Rightarrow> True
                | Some refreshedAt \<Rightarrow> kubeconfigRefreshInterval \<le> time_Sub t refreshedAt))"

text \<open>What \<open>CreateOrUpdate\<close> is given to apply to the Secret it found or is about to create.\<close>

definition stamp_refreshed :: "string \<Rightarrow> secret \<Rightarrow> secret" where
  "stamp_refreshed stamp s =
     s\<lparr>sec_Meta := (sec_Meta s)\<lparr>om_Annotations :=
         AList.update kubeconfigRefreshedAtAnnotation stamp (om_Annotations (sec_Meta s))\<rparr>\<rparr>"

definition kubeconfig_mutation :: "string \<Rightarrow> string \<Rightarrow> secret \<Rightarrow> secret" where
  "kubeconfig_mutation stamp data s = (stamp_refreshed stamp s)\<lparr>sec_Data := [(''value'', data)]\<rparr>"

definition argocd_mutation :: "string \<Rightarrow> string \<Rightarrow> string \<Rightarrow> string \<Rightarrow> secret \<Rightarrow> secret" where
  "argocd_mutation stamp clusterName server config s =
     (let labelled = s\<lparr>sec_Meta := (sec_Meta s)\<lparr>om_Labels :=
            AList.update ''argocd.argoproj.io/secret-type'' ''cluster'' (om_Labels (sec_Meta s))\<rparr>\<rparr>
      in (stamp_refreshed stamp labelled)
           \<lparr>sec_Data := [(''name'', clusterName), (''server'', server), (''config'', config)]\<rparr>)"

section \<open>Encoders\<close>

definition base64_digit :: "nat \<Rightarrow> char" where
  "base64_digit n =
     (if n < 26 then char_of (65 + n)
      else if n < 52 then char_of (97 + (n - 26))
      else if n < 62 then char_of (48 + (n - 52))
      else if n = 62 then CHR ''+'' else CHR ''/'')"

fun base64_EncodeToString :: "string \<Rightarrow> string" where
  "base64_EncodeToString [] = []"
| "base64_EncodeToString [a] =
     (let x = of_char a :: nat
      in [base64_digit (x div 4), base64_digit ((x mod 4) * 16), CHR ''='', CHR ''=''])"
| "base64_EncodeToString [a, b] =
     (let x = of_char a :: nat; y = of_char b :: nat
      in [base64_digit (x div 4), base64_digit ((x mod 4) * 16 + y div 16),
          base64_digit ((y mod 16) * 4), CHR ''=''])"
| "base64_EncodeToString (a # b # c # rest) =
     (let x = of_char a :: nat; y = of_char b :: nat; z = of_char c :: nat
      in [base64_digit (x div 4), base64_digit ((x mod 4) * 16 + y div 16),
          base64_digit ((y mod 16) * 4 + z div 64), base64_digit (z mod 64)]
         @ base64_EncodeToString rest)"

definition json_char :: "char \<Rightarrow> string" where
  "json_char c =
    (let n = of_char c :: nat; backslash = char_of (92::nat) :: char in
     if n = 34 \<or> n = 92 then [backslash, c]
     else if n = 8 then backslash # ''b''
     else if n = 9 then backslash # ''t''
     else if n = 10 then backslash # ''n''
     else if n = 12 then backslash # ''f''
     else if n = 13 then backslash # ''r''
     else if n < 32 \<or> n = 38 \<or> n = 60 \<or> n = 62
     then backslash # ''u00'' @ [hex_digit (n div 16), hex_digit (n mod 16)]
     else [c])"

definition json_string :: "string \<Rightarrow> string" where
  "json_string s = [char_of (34::nat)] @ concat (map json_char s) @ [char_of (34::nat)]"

definition argo_config_json :: "string \<Rightarrow> string \<Rightarrow> string" where
  "argo_config_json bearerToken caData =
     ''{'' @ json_string ''bearerToken'' @ '':'' @ json_string bearerToken @ '','' @
     json_string ''tlsClientConfig'' @ '':{'' @ json_string ''insecure'' @ '':false'' @
     (if caData = '''' then '''' else '','' @ json_string ''caData'' @ '':'' @ json_string caData) @ ''}}''"

section \<open>The Secrets\<close>

text \<open>The guard both forms share: fetch unless the stored Secret is young enough.\<close>

definition refresh_due :: "'e ops \<Rightarrow> string \<Rightarrow> string \<Rightarrow> string \<Rightarrow> string \<Rightarrow> int \<Rightarrow> ('e, bool) io" where
  "refresh_due E ns secretName what dataKey t =
     io_bind (io_try (ext [] (k8s_GetSecret E ns secretName))) (\<lambda>got.
       case got of
         Inl err \<Rightarrow>
           if IsNotFound err then io_ret True
           else io_raise (Wrapf (''get '' @ what @ '' secret '' @ secretName @ '': '') err '''')
       | Inr existing \<Rightarrow> io_ret (secretNeedsRefresh E (Some existing) dataKey t))"

definition write_secret :: "'e ops \<Rightarrow> string \<Rightarrow> string \<Rightarrow> (secret \<Rightarrow> secret) \<Rightarrow> ('e, unit) io" where
  "write_secret E ns name mutate =
     ext [WriteSecret ns name] (k8s_CreateOrUpdateSecret E ns name mutate)"

definition ensureKubeconfigSecret :: "'e ops \<Rightarrow> string \<Rightarrow> string \<Rightarrow> ('e, bool) io" where
  "ensureKubeconfigSecret E kubeconfigNamespace clusterName =
     io_bind (now E) (\<lambda>t.
       let secretName = clusterName @ ''-kubeconfig''
       in io_bind (refresh_due E kubeconfigNamespace secretName ''kubeconfig'' ''value'' t) (\<lambda>due.
          if \<not> due then io_ret False
          else io_bind (GetKubeconfig E clusterName) (\<lambda>data.
               io_bind (write_secret E kubeconfigNamespace secretName
                          (kubeconfig_mutation (time_FormatRFC3339 E t) data))
                 (\<lambda>_. io_ret True))))"

definition argocd_entries :: "'e ops \<Rightarrow> string \<Rightarrow> goerror + string \<times> string" where
  "argocd_entries E data =
     (case k8s_LoadKubeconfig E data of
        Inl err \<Rightarrow> Inl (Wrapf ''parse kubeconfig: '' err '''')
      | Inr cfg \<Rightarrow>
          (case map_of (kc_Contexts cfg) (kc_CurrentContext cfg) of
             None \<Rightarrow> Inl (Errorf (''context '' @ go_quote (kc_CurrentContext cfg) @ '' not found in kubeconfig''))
           | Some kctx \<Rightarrow>
               (case map_of (kc_Clusters cfg) (kctx_Cluster kctx) of
                  None \<Rightarrow> Inl (Errorf (''cluster '' @ go_quote (kctx_Cluster kctx) @ '' not found in kubeconfig''))
                | Some clusterEntry \<Rightarrow>
                    (case map_of (kc_AuthInfos cfg) (kctx_AuthInfo kctx) of
                       None \<Rightarrow> Inl (Errorf (''user '' @ go_quote (kctx_AuthInfo kctx) @ '' not found in kubeconfig''))
                     | Some token \<Rightarrow>
                         Inr (kcl_Server clusterEntry,
                              argo_config_json token
                                (base64_EncodeToString (kcl_CertificateAuthorityData clusterEntry)))))))"

definition ensureArgoCDClusterSecret :: "'e ops \<Rightarrow> string \<Rightarrow> string \<Rightarrow> ('e, bool) io" where
  "ensureArgoCDClusterSecret E kubeconfigNamespace clusterName =
     io_bind (now E) (\<lambda>t.
       let secretName = clusterName @ ''-cluster-secret''
       in io_bind (refresh_due E kubeconfigNamespace secretName ''argocd cluster'' ''config'' t) (\<lambda>due.
          if \<not> due then io_ret False
          else io_bind (GetKubeconfig E clusterName) (\<lambda>data.
               io_bind (io_lift (argocd_entries E data)) (\<lambda>(server, config).
               io_bind (write_secret E kubeconfigNamespace secretName
                          (argocd_mutation (time_FormatRFC3339 E t) clusterName server config))
                 (\<lambda>_. io_ret True)))))"

section \<open>What the secrets need\<close>

lemma never_refresh_due [effects]: "never Q (refresh_due E ns n what k t)"
  unfolding refresh_due_def by (intro effects; simp)

lemma never_GetKubeconfig [effects]: "\<not> Q (KubeconfigRPC cn flux_admin) \<Longrightarrow> never Q (GetKubeconfig E cn)"
  unfolding GetKubeconfig_def by (intro effects; simp)

lemma never_write_secret [effects]: "\<not> Q (WriteSecret ns n) \<Longrightarrow> never Q (write_secret E ns n f)"
  unfolding write_secret_def by (intro effects; simp)

lemma never_ensureKubeconfigSecret [effects]:
  "\<not> Q (KubeconfigRPC cn flux_admin) \<Longrightarrow> (\<And>n. \<not> Q (WriteSecret ns n)) \<Longrightarrow> never Q (ensureKubeconfigSecret E ns cn)"
  unfolding ensureKubeconfigSecret_def Let_def by (intro effects) simp_all

lemma never_ensureArgoCDClusterSecret [effects]:
  "\<not> Q (KubeconfigRPC cn flux_admin) \<Longrightarrow> (\<And>n. \<not> Q (WriteSecret ns n)) \<Longrightarrow> never Q (ensureArgoCDClusterSecret E ns cn)"
  unfolding ensureArgoCDClusterSecret_def Let_def by (intro effects) simp_all

end
