(* ===== verification/Cluster_Controller.thy ===== *)
theory Cluster_Controller
  imports Drift Teardown Kubeconfig
begin

text \<open>
  \<open>OmniClusterReconciler\<close> of \<open>controllers/omnicluster_controller.go\<close>: the reconcile of one
  \<open>OmniCluster\<close>, which calls every other component. The part that runs once the finalizer is in
  place is cut into the stages the source marks with comments; a stage that can end the reconcile
  early, having recorded the failure itself, returns \<open>Inl\<close> the result and \<open>Inr\<close> its value
  otherwise, as the source's \<open>(ctrl.Result, bool)\<close> does.
\<close>

record reconciler =
  rc_Recorder :: bool
  rc_KubeconfigNamespace :: string
  rc_ArgoCDClusters :: bool

section \<open>Status\<close>

definition boolToConditionStatus :: "bool \<Rightarrow> string" where
  "boolToConditionStatus b = (if b then ConditionTrue else ConditionFalse)"

definition statusNeedsUpdate :: "omni_cluster_status \<Rightarrow> omni_cluster_status \<Rightarrow> bool" where
  "statusNeedsUpdate prior after \<longleftrightarrow> \<not> semantic_eq_cluster_status prior after"

interpretation cluster_gate: status_gate statusNeedsUpdate
  by unfold_locales
    (auto simp: statusNeedsUpdate_def semantic_eq_cluster_status_def gomap_eq_iff)

abbreviation updateClusterStatus :: "'e ops \<Rightarrow> omni_cluster \<Rightarrow> ('e, unit) io" where
  "updateClusterStatus E c \<equiv> ext [UpdateClusterStatus c] (k8s_UpdateClusterStatus E c)"

definition cluster_setFailure ::
  "'e ops \<Rightarrow> reconciler \<Rightarrow> omni_cluster \<Rightarrow> omni_cluster_status \<Rightarrow> string \<Rightarrow> goerror \<Rightarrow> ('e, ctrl_result) io"
  where
  "cluster_setFailure E R cluster statusBefore reason err =
     (let msg = err_msg err
      in io_bind (eventf (rc_Recorder R) EventTypeWarning reason msg) (\<lambda>_.
         io_bind (set_condition E (ost_Conditions (oc_Status cluster))
                    (new_condition ''Ready'' ConditionFalse reason msg (oc_Generation cluster))) (\<lambda>conds.
           let status = (oc_Status cluster)
                 \<lparr>ost_ObservedGeneration := oc_Generation cluster, ost_Ready := False,
                  ost_FailureReason := Some reason, ost_FailureMessage := Some msg,
                  ost_Conditions := conds\<rparr>
           in io_bind
                (io_try (write_if (statusNeedsUpdate statusBefore status)
                  (updateClusterStatus E (cluster\<lparr>oc_Status := status\<rparr>))))
                (\<lambda>_. io_ret \<lparr>Requeue = False, RequeueAfter = requeueShort\<rparr>))))"

section \<open>Cluster and machine sets\<close>

definition ensureCluster ::
  "'e ops \<Rightarrow> reconciler \<Rightarrow> omni_cluster \<Rightarrow> omni_cluster_status \<Rightarrow> string \<Rightarrow> ('e, ctrl_result + unit) io"
  where
  "ensureCluster E R cluster statusBefore clusterName =
     io_bind (io_try (EnsureCluster E clusterName (ownerOf cluster)
                (ocs_KubernetesVersion (oc_Spec cluster)) (ocs_TalosVersion (oc_Spec cluster)))) (\<lambda>r.
       case r of
         Inl err \<Rightarrow>
           io_bind (cluster_setFailure E R cluster statusBefore
                      (if IsOwnershipConflict err then ''ClusterOwnershipConflict'' else ''EnsureClusterFailed'')
                      err)
             (\<lambda>result. io_ret (Inl result))
       | Inr _ \<Rightarrow> io_ret (Inr ()))"

text \<open>
  One machine set: make sure it exists, then allocate. The value is the machines allocated so far
  by set, and the claimed UUIDs.
\<close>

type_synonym allocation = "(string, string list) gomap \<times> string list"

definition allocateMachineSet ::
  "'e ops \<Rightarrow> reconciler \<Rightarrow> omni_cluster \<Rightarrow> omni_cluster_status \<Rightarrow> string \<Rightarrow>
   string \<Rightarrow> string \<Rightarrow> string \<Rightarrow> string \<Rightarrow> string \<Rightarrow> machine_set_spec \<Rightarrow> allocation \<Rightarrow>
   ('e, ctrl_result + allocation) io" where
  "allocateMachineSet E R cluster statusBefore clusterName
       machineSetID omniRole role ensureReason allocateReason spec alloc =
     (case alloc of (allocatedMachines, claimed) \<Rightarrow>
        io_bind (io_try (EnsureMachineSet E clusterName machineSetID omniRole)) (\<lambda>ensured.
          case ensured of
            Inl err \<Rightarrow>
              io_bind (cluster_setFailure E R cluster statusBefore ensureReason err)
                (\<lambda>result. io_ret (Inl result))
          | Inr _ \<Rightarrow>
              io_bind (io_try (reconcileMachineSetAllocation E (rc_Recorder R) cluster clusterName
                         machineSetID role spec claimed)) (\<lambda>outcome.
                case outcome of
                  Inl err \<Rightarrow>
                    io_bind (cluster_setFailure E R cluster statusBefore allocateReason err)
                      (\<lambda>result. io_ret (Inl result))
                | Inr (allocated, claimed') \<Rightarrow>
                    io_ret (Inr (AList.update machineSetID allocated allocatedMachines, claimed')))))"

definition allocateControlPlaneMachines ::
  "'e ops \<Rightarrow> reconciler \<Rightarrow> omni_cluster \<Rightarrow> omni_cluster_status \<Rightarrow> string \<Rightarrow> allocation \<Rightarrow>
   ('e, ctrl_result + allocation) io" where
  "allocateControlPlaneMachines E R cluster statusBefore clusterName alloc =
     allocateMachineSet E R cluster statusBefore clusterName
       (omni_ControlPlanesResourceID E clusterName) (omni_LabelControlPlaneRole E) roleControlPlane
       ''EnsureMachineSetFailed'' ''AllocateCPMachinesFailed'' (ocs_ControlPlane (oc_Spec cluster)) alloc"

fun allocateWorkerSets ::
  "'e ops \<Rightarrow> reconciler \<Rightarrow> omni_cluster \<Rightarrow> omni_cluster_status \<Rightarrow> string \<Rightarrow>
   worker_machine_set_spec list \<Rightarrow> allocation \<Rightarrow> ('e, ctrl_result + allocation) io" where
  "allocateWorkerSets E R cluster statusBefore clusterName [] alloc = io_ret (Inr alloc)"
| "allocateWorkerSets E R cluster statusBefore clusterName (w # ws) alloc =
     io_bind (allocateMachineSet E R cluster statusBefore clusterName
                (workerSetID clusterName w) (omni_LabelWorkerRole E) roleWorker
                ''EnsureWorkerMachineSetFailed'' ''AllocateWorkerMachinesFailed''
                (wms_MachineSetSpec w) alloc) (\<lambda>r.
       case r of
         Inl result \<Rightarrow> io_ret (Inl result)
       | Inr alloc' \<Rightarrow> allocateWorkerSets E R cluster statusBefore clusterName ws alloc')"

definition allocateWorkerMachines ::
  "'e ops \<Rightarrow> reconciler \<Rightarrow> omni_cluster \<Rightarrow> omni_cluster_status \<Rightarrow> string \<Rightarrow> allocation \<Rightarrow>
   ('e, ctrl_result + allocation) io" where
  "allocateWorkerMachines E R cluster statusBefore clusterName alloc =
     allocateWorkerSets E R cluster statusBefore clusterName (ocs_Workers (oc_Spec cluster)) alloc"

section \<open>Status and series from Omni\<close>

definition observe_status ::
  "'e ops \<Rightarrow> omni_cluster \<Rightarrow> (string, string list) gomap \<Rightarrow> ClusterStatus \<Rightarrow> ('e, omni_cluster) io" where
  "observe_status E cluster allocatedMachines omniStatus =
     set_cluster_condition E
       (cluster\<lparr>oc_Status := (oc_Status cluster)
          \<lparr>ost_ObservedGeneration := oc_Generation cluster, ost_Phase := cs_Phase omniStatus,
           ost_Ready := cs_Ready omniStatus, ost_AllocatedMachines := allocatedMachines,
           ost_FailureReason := None, ost_FailureMessage := None\<rparr>\<rparr>)
       (new_condition ''Ready'' (boolToConditionStatus (cs_Ready omniStatus)) (cs_Phase omniStatus)
          (''Omni cluster phase: '' @ cs_Phase omniStatus) (oc_Generation cluster))"

definition observe_series ::
  "string \<Rightarrow> string \<Rightarrow> bool \<Rightarrow> (string, string list) gomap \<Rightarrow> gauges \<Rightarrow> gauges" where
  "observe_series name ns ready allocatedMachines g =
     g\<lparr>clusterReadyGauge := set_series (name, ns) (boolToFloat64 ready) (clusterReadyGauge g),
       clusterMachinesAllocatedGauge :=
         fold (\<lambda>(machineSetID, machines).
                 set_series (name, ns, machineSetID) (int (length machines)))
           allocatedMachines (delete_partial name ns (clusterMachinesAllocatedGauge g))\<rparr>"

section \<open>Reconcile\<close>

definition ensureSecret :: "'e ops \<Rightarrow> reconciler \<Rightarrow> string \<Rightarrow> ('e, bool) io" where
  "ensureSecret E R clusterName =
     (if rc_ArgoCDClusters R then ensureArgoCDClusterSecret E (rc_KubeconfigNamespace R) clusterName
      else ensureKubeconfigSecret E (rc_KubeconfigNamespace R) clusterName)"

definition secret_name :: "reconciler \<Rightarrow> string \<Rightarrow> string" where
  "secret_name R clusterName =
     (if rc_ArgoCDClusters R then clusterName @ ''-cluster-secret'' else clusterName @ ''-kubeconfig'')"

definition settleCluster ::
  "'e ops \<Rightarrow> reconciler \<Rightarrow> omni_cluster \<Rightarrow> omni_cluster_status \<Rightarrow> string \<Rightarrow>
   (string, string list) gomap \<Rightarrow> ClusterStatus \<Rightarrow> ('e, ctrl_result) io" where
  "settleCluster E R cluster statusBefore clusterName allocatedMachines omniStatus =
     (let ready = cs_Ready omniStatus; name = oc_Name cluster; ns = oc_Namespace cluster
      in io_bind (observe_status E cluster allocatedMachines omniStatus) (\<lambda>observed.
         io_bind (io_series (observe_series name ns ready allocatedMachines)) (\<lambda>_.
         io_bind (io_try (if ready then GetDriftingMachines E clusterName else io_ret [])) (\<lambda>drift.
           case drift of
             Inl err \<Rightarrow> cluster_setFailure E R observed statusBefore ''ConfigDriftCheckFailed'' err
           | Inr drifting \<Rightarrow>
               io_bind (io_series (\<lambda>g. g\<lparr>clusterConfigDriftGauge :=
                   set_series (name, ns) (boolToFloat64 (0 < length drifting)) (clusterConfigDriftGauge g)\<rparr>)) (\<lambda>_.
               io_bind (io_try (if ready
                                then signalDriftReboots E (rc_Recorder R) observed clusterName drifting
                                else io_ret observed)) (\<lambda>signalled.
                 case signalled of
                   Inl err \<Rightarrow> cluster_setFailure E R observed statusBefore ''SignalRebootFailed'' err
                 | Inr cluster' \<Rightarrow>
                     io_bind (io_try (if ready then ensureSecret E R clusterName else io_ret False)) (\<lambda>wrote.
                       case wrote of
                         Inl err \<Rightarrow> cluster_setFailure E R cluster' statusBefore ''EnsureKubeconfigFailed'' err
                       | Inr written \<Rightarrow>
                           io_bind
                             (if written
                              then eventf (rc_Recorder R) EventTypeNormal ''KubeconfigWritten''
                                     (''Kubeconfig written to '' @ rc_KubeconfigNamespace R @ ''/'' @
                                      secret_name R clusterName)
                              else io_ret ()) (\<lambda>_.
                           io_bind
                             (write_if (statusNeedsUpdate statusBefore (oc_Status cluster'))
                                (updateClusterStatus E cluster')) (\<lambda>_.
                           io_ret \<lparr>Requeue = False,
                                   RequeueAfter = (if ready then requeueLong else requeueShort)\<rparr>)))))))))"

definition convergeCluster :: "'e ops \<Rightarrow> reconciler \<Rightarrow> omni_cluster \<Rightarrow> ('e, ctrl_result) io" where
  "convergeCluster E R cluster =
     (let statusBefore = oc_Status cluster; clusterName = oc_Name cluster
      in io_bind (ensureCluster E R cluster statusBefore clusterName) (\<lambda>ensured.
           case ensured of
             Inl result \<Rightarrow> io_ret result
           | Inr _ \<Rightarrow>
               io_bind (allocateControlPlaneMachines E R cluster statusBefore clusterName ([], [])) (\<lambda>cp.
                 case cp of
                   Inl result \<Rightarrow> io_ret result
                 | Inr alloc \<Rightarrow>
                     io_bind (allocateWorkerMachines E R cluster statusBefore clusterName alloc) (\<lambda>workers.
                       case workers of
                         Inl result \<Rightarrow> io_ret result
                       | Inr (allocatedMachines, claimed) \<Rightarrow>
                           io_bind (io_try (pruneOrphanedMachineSets E cluster clusterName)) (\<lambda>pruned.
                             case pruned of
                               Inl err \<Rightarrow>
                                 cluster_setFailure E R cluster statusBefore ''PruneOrphanedMachineSetFailed'' err
                             | Inr _ \<Rightarrow>
                                 io_bind (io_try (GetClusterStatus E clusterName)) (\<lambda>got.
                                   case got of
                                     Inl err \<Rightarrow> cluster_setFailure E R cluster statusBefore ''GetStatusFailed'' err
                                   | Inr omniStatus \<Rightarrow>
                                       settleCluster E R cluster statusBefore clusterName
                                         allocatedMachines omniStatus))))))"

definition with_cluster_finalizers :: "string list \<Rightarrow> omni_cluster \<Rightarrow> omni_cluster" where
  "with_cluster_finalizers fs c = c\<lparr>oc_Meta := (oc_Meta c)\<lparr>om_Finalizers := fs\<rparr>\<rparr>"

abbreviation updateCluster :: "'e ops \<Rightarrow> omni_cluster \<Rightarrow> ('e, unit) io" where
  "updateCluster E c \<equiv> ext [UpdateCluster c] (k8s_UpdateCluster E c)"

definition reconcileCluster :: "'e ops \<Rightarrow> reconciler \<Rightarrow> omni_cluster \<Rightarrow> ('e, ctrl_result) io" where
  "reconcileCluster E R cluster =
     (let finalizers = om_Finalizers (oc_Meta cluster)
      in if om_DeletionTimestamp (oc_Meta cluster) \<noteq> None
         then if k8s_ContainsFinalizer E finalizers finalizerName
              then io_bind
                     (io_wrap (\<lambda>e. Wrapf ''delete omni resources: '' e '''')
                        (deleteOmniResources E (rc_Recorder R) (rc_KubeconfigNamespace R) cluster)) (\<lambda>_.
                   io_bind (io_series (deleteClusterMetrics (oc_Name cluster) (oc_Namespace cluster))) (\<lambda>_.
                   io_bind (updateCluster E (with_cluster_finalizers
                       (k8s_RemoveFinalizer E finalizers finalizerName) cluster))
                     (\<lambda>_. io_ret zero_result)))
              else io_ret zero_result
         else if \<not> k8s_ContainsFinalizer E finalizers finalizerName
         then io_bind (updateCluster E (with_cluster_finalizers
                (k8s_AddFinalizer E finalizers finalizerName) cluster))
                (\<lambda>_. io_ret \<lparr>Requeue = True, RequeueAfter = 0\<rparr>)
         else convergeCluster E R cluster)"

definition Reconcile :: "'e ops \<Rightarrow> reconciler \<Rightarrow> string \<Rightarrow> string \<Rightarrow> ('e, ctrl_result) io" where
  "Reconcile E R ns name =
     io_bind (io_try (ext [] (k8s_GetCluster E ns name))) (\<lambda>got.
       case got of
         Inl err \<Rightarrow> if IsNotFound err then io_ret zero_result else io_raise err
       | Inr cluster \<Rightarrow> reconcileCluster E R cluster)"

section \<open>What each stage may do\<close>

lemma never_cluster_setFailure [effects]:
  "(\<And>t r m. \<not> Q (EmitEvent t r m)) \<Longrightarrow> (\<And>c. \<not> Q (UpdateClusterStatus c)) \<Longrightarrow>
   never Q (cluster_setFailure E R cluster before reason err)"
  unfolding cluster_setFailure_def Let_def by (intro effects; simp)

lemma never_ensureCluster [effects]:
  "(\<And>c. call_type c = Some ClusterType \<Longrightarrow> \<not> Q c) \<Longrightarrow>
   (\<And>t r m. \<not> Q (EmitEvent t r m)) \<Longrightarrow> (\<And>c. \<not> Q (UpdateClusterStatus c)) \<Longrightarrow>
   never Q (ensureCluster E R cluster before cn)"
  unfolding ensureCluster_def by (intro effects atmost_mono [OF ensureCluster_op.writes_type]) auto

text \<open>What the allocation stage may do: the calls of \<open>reconcileMachineSetAllocation\<close>, the writes of the
  machine set itself and the record of a failure.\<close>

definition not_allocation :: "(call \<Rightarrow> bool) \<Rightarrow> bool" where
  "not_allocation Q \<longleftrightarrow> (\<forall>c. Q c \<longrightarrow>
     call_type c \<noteq> Some MachineSetType \<and> call_type c \<noteq> Some ExtensionsConfigurationType \<and>
     (case c of CreateMachine m \<Rightarrow> False | UpdateMachine m \<Rightarrow> False | DeleteMachine ns n \<Rightarrow> False
      | EmitEvent t r m \<Rightarrow> False | UpdateClusterStatus s \<Rightarrow> False | _ \<Rightarrow> True))"

lemma not_allocationD:
  assumes "not_allocation Q"
  shows "\<not> Q (CreateMachine m)" "\<not> Q (UpdateMachine m)" "\<not> Q (DeleteMachine ns n)" "\<not> Q (EmitEvent t r x)"
    "\<not> Q (UpdateClusterStatus s)" "call_type c = Some MachineSetType \<Longrightarrow> \<not> Q c"
    "call_type c = Some ExtensionsConfigurationType \<Longrightarrow> \<not> Q c"
  using assms unfolding not_allocation_def by fastforce+

lemma never_allocateMachineSet [effects]:
  assumes Q: "not_allocation Q"
  shows "never Q (allocateMachineSet E R cluster before cn s omniRole role r1 r2 spec alloc)"
proof -
  have "never Q (EnsureMachineSet E cn s omniRole)"
    using not_allocationD(6) [OF Q] by (intro atmost_mono [OF ensureMachineSet_op.writes_type]) auto
  moreover have "never Q (reconcileMachineSetAllocation E recorder cluster cn s role spec claimed)" for recorder claimed
    using not_allocationD [OF Q] by (intro never_reconcileMachineSetAllocation) auto
  ultimately show ?thesis
    unfolding allocateMachineSet_def using not_allocationD [OF Q]
    by (intro atmost_prod never_bind atmost_try atmost_sum never_cluster_setFailure atmost_ret) auto
qed

lemma never_allocateWorkerSets [effects]:
  "not_allocation Q \<Longrightarrow> never Q (allocateWorkerSets E R cluster before cn ws alloc)"
proof (induction ws arbitrary: alloc)
  case Nil
  show ?case by (simp add: atmost_ret)
next
  case (Cons w ws)
  show ?case
    unfolding allocateWorkerSets.simps
    by (intro never_bind never_allocateMachineSet atmost_sum atmost_ret Cons)
qed

lemma never_allocateControlPlane [effects]:
  "not_allocation Q \<Longrightarrow> never Q (allocateControlPlaneMachines E R cluster before cn alloc)"
  unfolding allocateControlPlaneMachines_def by (rule never_allocateMachineSet)

lemma never_allocateWorkers [effects]:
  "not_allocation Q \<Longrightarrow> never Q (allocateWorkerMachines E R cluster before cn alloc)"
  unfolding allocateWorkerMachines_def by (rule never_allocateWorkerSets)

lemma never_observe_status [effects]: "never Q (observe_status E cluster alloc st)"
  unfolding observe_status_def by (intro effects)

lemma never_ensureSecret [effects]:
  "\<not> Q (KubeconfigRPC cn flux_admin) \<Longrightarrow> (\<And>ns n. \<not> Q (WriteSecret ns n)) \<Longrightarrow> never Q (ensureSecret E R cn)"
  unfolding ensureSecret_def by (intro effects)

lemma never_settleCluster [effects]:
  assumes "cs_Ready st \<Longrightarrow> \<not> Q (KubeconfigRPC cn flux_admin)" and "\<And>ns n. cs_Ready st \<Longrightarrow> \<not> Q (WriteSecret ns n)"
    and "\<And>m. cs_Ready st \<Longrightarrow> \<not> Q (UpdateMachine m)" and "\<And>t r m. \<not> Q (EmitEvent t r m)"
    and "\<And>c. \<not> Q (UpdateClusterStatus c)"
  shows "never Q (settleCluster E R cluster before cn alloc st)"
  unfolding settleCluster_def Let_def by (intro effects; simp add: assms)


lemma never_convergeCluster [effects]:
  assumes "not_allocation Q" and "\<And>c. call_type c = Some ClusterType \<Longrightarrow> \<not> Q c"
    and "\<And>t i. \<not> Q (TeardownResource t i)" and "\<And>t i. \<not> Q (DestroyResource t i)"
    and "\<And>cn. \<not> Q (KubeconfigRPC cn flux_admin)" and "\<And>ns n. \<not> Q (WriteSecret ns n)"
  shows "never Q (convergeCluster E R cluster)"
proof -
  note Q = assms not_allocationD [OF assms(1)]
  show ?thesis
    unfolding convergeCluster_def Let_def
    by (intro never_bind atmost_try atmost_sum atmost_prod atmost_ret never_ensureCluster
        never_allocateControlPlane never_allocateWorkers never_pruneOrphanedMachineSets
        never_cluster_setFailure never_settleCluster atmost_GetClusterStatus)
      (simp_all add: Q)
qed

section \<open>One status write\<close>

text \<open>A stage that may stop the reconcile: at most one call of a class, none if it does not stop.\<close>

definition stage :: "(call \<Rightarrow> bool) \<Rightarrow> ('e, 'r + 'a) io \<Rightarrow> bool" where
  "stage Q m \<longleftrightarrow> (\<forall>w. \<exists>cs. calls (snd (m w)) = calls w @ cs \<and> length (filter Q cs) \<le> 1 \<and>
     (\<forall>x w'. m w = (Inr (Inr x), w') \<longrightarrow> filter Q cs = []))"

lemma stage_ret: "stage Q (io_ret y)"
  by (simp add: stage_def io_ret_def)

lemma stage_stop: "atmost 1 Q m \<Longrightarrow> stage Q (io_bind m (\<lambda>r. io_ret (Inl r)))"
  unfolding stage_def atmost_def io_bind_def io_ret_def
  by (auto split: prod.splits sum.splits) (metis snd_conv)+

lemma stage_bind:
  assumes m: "never Q m" and f: "\<And>x. stage Q (f x)"
  shows "stage Q (io_bind m f)"
  unfolding stage_def
proof
  fix w
  obtain cs where cs: "calls (snd (m w)) = calls w @ cs" "filter Q cs = []"
    using atmostD [OF m, of w] by auto
  show "\<exists>cs. calls (snd (io_bind m f w)) = calls w @ cs \<and> length (filter Q cs) \<le> 1 \<and>
     (\<forall>x w'. io_bind m f w = (Inr (Inr x), w') \<longrightarrow> filter Q cs = [])"
  proof (cases "m w")
    case (Pair r w1)
    show ?thesis
    proof (cases r)
      case (Inl e)
      with Pair cs show ?thesis by (auto simp: io_bind_def)
    next
      case (Inr x)
      obtain ds where "calls (snd (f x w1)) = calls w1 @ ds" "length (filter Q ds) \<le> 1"
          "\<forall>y w'. f x w1 = (Inr (Inr y), w') \<longrightarrow> filter Q ds = []"
        using f unfolding stage_def by blast
      with Pair Inr cs show ?thesis
        by (intro exI [of _ "cs @ ds"]) (simp add: io_bind_def)
    qed
  qed
qed

lemma stage_then:
  assumes m: "stage Q m" and f: "\<And>x. stage Q (f x)"
  shows "stage Q (io_bind m (\<lambda>r. case r of Inl res \<Rightarrow> io_ret (Inl res) | Inr x \<Rightarrow> f x))"
  unfolding stage_def
proof
  fix w
  let ?g = "\<lambda>r. case r of Inl res \<Rightarrow> io_ret (Inl res) | Inr x \<Rightarrow> f x"
  obtain cs where cs: "calls (snd (m w)) = calls w @ cs" "length (filter Q cs) \<le> 1"
      "\<forall>x w'. m w = (Inr (Inr x), w') \<longrightarrow> filter Q cs = []"
    using m unfolding stage_def by blast
  show "\<exists>cs. calls (snd (io_bind m ?g w)) = calls w @ cs \<and> length (filter Q cs) \<le> 1 \<and>
     (\<forall>x w'. io_bind m ?g w = (Inr (Inr x), w') \<longrightarrow> filter Q cs = [])"
  proof (cases "\<exists>x w1. m w = (Inr (Inr x), w1)")
    case True
    then obtain x w1 where mw: "m w = (Inr (Inr x), w1)" by blast
    obtain ds where "calls (snd (f x w1)) = calls w1 @ ds" "length (filter Q ds) \<le> 1"
        "\<forall>y w'. f x w1 = (Inr (Inr y), w') \<longrightarrow> filter Q ds = []"
      using f unfolding stage_def by blast
    with mw cs show ?thesis
      by (intro exI [of _ "cs @ ds"]) (simp add: io_bind_def)
  next
    case False
    with cs show ?thesis
      by (intro exI [of _ cs]) (auto simp: io_bind_def io_ret_def split: prod.splits sum.splits)
  qed
qed

lemma stage_end:
  assumes m: "stage Q m" and f: "\<And>x. atmost 1 Q (f x)"
  shows "atmost 1 Q (io_bind m (\<lambda>r. case r of Inl res \<Rightarrow> io_ret res | Inr x \<Rightarrow> f x))"
  unfolding atmost_def
proof
  fix w
  let ?g = "\<lambda>r. case r of Inl res \<Rightarrow> io_ret res | Inr x \<Rightarrow> f x"
  obtain cs where cs: "calls (snd (m w)) = calls w @ cs" "length (filter Q cs) \<le> 1"
      "\<forall>x w'. m w = (Inr (Inr x), w') \<longrightarrow> filter Q cs = []"
    using m unfolding stage_def by blast
  show "\<exists>cs. calls (snd (io_bind m ?g w)) = calls w @ cs \<and> length (filter Q cs) \<le> 1"
  proof (cases "\<exists>x w1. m w = (Inr (Inr x), w1)")
    case True
    then obtain x w1 where mw: "m w = (Inr (Inr x), w1)" by blast
    obtain ds where "calls (snd (f x w1)) = calls w1 @ ds" "length (filter Q ds) \<le> 1"
      using atmostD [OF f] by blast
    with mw cs show ?thesis
      by (intro exI [of _ "cs @ ds"]) (simp add: io_bind_def)
  next
    case False
    with cs show ?thesis
      by (intro exI [of _ cs]) (auto simp: io_bind_def io_ret_def split: prod.splits sum.splits)
  qed
qed

lemma stage_sum: "(\<And>e. stage Q (f e)) \<Longrightarrow> (\<And>x. stage Q (g x)) \<Longrightarrow> stage Q (case r of Inl e \<Rightarrow> f e | Inr x \<Rightarrow> g x)"
  by (cases r) simp_all

lemma stage_prod: "(\<And>a b. stage Q (g a b)) \<Longrightarrow> stage Q (case p of (a, b) \<Rightarrow> g a b)"
  by (cases p) simp

lemma not_allocation_but_status:
  shows "never is_status_write (EnsureMachineSet E cn s role')"
    and "never is_status_write (reconcileMachineSetAllocation E recorder cluster cn s role spec claimed)"
    and "never is_status_write (EnsureCluster E cn o1 k t)"
proof -
  show "never is_status_write (EnsureMachineSet E cn s role')"
    by (rule atmost_mono [OF ensureMachineSet_op.not_a_k8s_call]) (auto elim: is_status_write.elims)
  show "never is_status_write (EnsureCluster E cn o1 k t)"
    by (rule atmost_mono [OF ensureCluster_op.not_a_k8s_call]) (auto elim: is_status_write.elims)
  show "never is_status_write (reconcileMachineSetAllocation E recorder cluster cn s role spec claimed)"
    by (intro effects) (auto elim: is_status_write.elims)
qed

lemma one_status_cluster_setFailure: "atmost 1 is_status_write (cluster_setFailure E R cluster before reason err)"
  unfolding cluster_setFailure_def Let_def
  by (rule atmost_bind_first, (intro effects; simp), rule atmost_bind_first, (intro effects; simp),
      rule atmost_bind_last, (intro effects; simp add: atmost_ext), (intro effects; simp))

lemma stage_ensureCluster: "stage is_status_write (ensureCluster E R cluster before cn)"
  unfolding ensureCluster_def
  by (intro stage_bind atmost_try not_allocation_but_status stage_sum stage_stop one_status_cluster_setFailure stage_ret)

lemma stage_allocateMachineSet:
  "stage is_status_write (allocateMachineSet E R cluster before cn s omniRole role r1 r2 spec alloc)"
  unfolding allocateMachineSet_def
  by (intro stage_prod stage_bind atmost_try not_allocation_but_status stage_sum stage_stop
      one_status_cluster_setFailure stage_ret)

lemma stage_allocateWorkerSets:
  "stage is_status_write (allocateWorkerSets E R cluster before cn ws alloc)"
proof (induction ws arbitrary: alloc)
  case Nil
  show ?case by (simp add: stage_ret)
next
  case (Cons w ws)
  show ?case
    unfolding allocateWorkerSets.simps by (rule stage_then [OF stage_allocateMachineSet Cons.IH])
qed

lemma one_status_settleCluster: "atmost 1 is_status_write (settleCluster E R cluster before cn alloc st)"
proof -
  have final: "atmost 1 is_status_write (io_bind (write_if b (updateClusterStatus E c)) (\<lambda>_. io_ret x))" for b c x
    by (rule atmost_bind_last, (intro effects; simp add: atmost_ext), intro effects)
  show ?thesis
    unfolding settleCluster_def Let_def
    by (intro atmost_bind_first atmost_sum one_status_cluster_setFailure final; (intro effects; simp | simp))
qed

lemma one_status_convergeCluster: "atmost 1 is_status_write (convergeCluster E R cluster)"
  unfolding convergeCluster_def Let_def allocateControlPlaneMachines_def allocateWorkerMachines_def
  by (intro stage_end stage_ensureCluster stage_allocateMachineSet stage_allocateWorkerSets atmost_prod
      atmost_bind_first atmost_sum one_status_cluster_setFailure one_status_settleCluster; (intro effects; simp | simp))

lemma one_status_Reconcile: "atmost 1 is_status_write (Reconcile E R ns name)"
  unfolding Reconcile_def reconcileCluster_def Let_def
  by (intro atmost_sum atmost_if atmost_bind_first one_status_convergeCluster; (intro effects; simp | simp add: effects))

end
