(* ===== verification/Drift_Properties.thy ===== *)
theory Drift_Properties
  imports Cluster_Controller Allocation_Properties
begin

text \<open>
  What drift remediation guarantees: at most one reboot request per pass, only when it is safe, and
  for the first drifting machine that has cooled down.
\<close>

section \<open>Runs\<close>

definition eligible :: "(string, machine) gomap \<Rightarrow> int \<Rightarrow> MachineConfigDrift \<Rightarrow> bool" where
  "eligible byID t d = (case map_of byID (mcd_MachineID d) of None \<Rightarrow> False | Some m \<Rightarrow> cooled_down m t)"

lemma select_is_find: "selectDriftRebootCandidate drifting byID t = find (eligible byID t) drifting"
  by (induction drifting) (auto simp: eligible_def split: option.splits)

lemma cooled_down_iff:
  "cooled_down m t \<longleftrightarrow> (case mst_LastRebootTime (m_Status m) of None \<Rightarrow> True | Some r \<Rightarrow> rebootCooldown \<le> t - r)"
  by (simp add: cooled_down_def time_Sub_ge rebootCooldown_def minute_def second_def split: option.splits)

lemma map_of_machines_by_id:
  "map_of (machines_by_id ms) i = Some m \<Longrightarrow> m \<in> set ms \<and> m_Name m = i"
proof -
  have "map_of (fold (\<lambda>m. AList.update (m_Name m) m) ms acc) i = Some m \<Longrightarrow>
      map_of acc i = Some m \<or> (m \<in> set ms \<and> m_Name m = i)" for acc
  proof (induction ms arbitrary: acc)
    case (Cons x xs)
    from Cons.prems have "map_of (fold (\<lambda>m. AList.update (m_Name m) m) xs (AList.update (m_Name x) x acc)) i = Some m"
      by simp
    from Cons.IH [OF this] show ?case
      by (auto split: if_splits)
  qed simp
  from this [of "[]"] show "map_of (machines_by_id ms) i = Some m \<Longrightarrow> ?thesis"
    by (simp add: machines_by_id_def)
qed

lemma machines_by_id_complete:
  "m \<in> set ms \<Longrightarrow> distinct (map m_Name ms) \<Longrightarrow> map_of (machines_by_id ms) (m_Name m) = Some m"
proof -
  have keep: "i \<notin> m_Name ` set ms \<Longrightarrow> map_of (fold (\<lambda>m. AList.update (m_Name m) m) ms acc) i = map_of acc i" for ms acc i
    by (induction ms arbitrary: acc) auto
  have "m \<in> set ms \<Longrightarrow> distinct (map m_Name ms) \<Longrightarrow>
      map_of (fold (\<lambda>m. AList.update (m_Name m) m) ms acc) (m_Name m) = Some m" for acc
  proof (induction ms arbitrary: acc)
    case (Cons x xs)
    then show ?case by (cases "m = x") (auto simp: keep)
  qed simp
  then show "m \<in> set ms \<Longrightarrow> distinct (map m_Name ms) \<Longrightarrow> ?thesis"
    by (simp add: machines_by_id_def)
qed

text \<open>What a reboot request made in a pass stands for.\<close>

lemma request_in_signal:
  assumes c: "UpdateMachine m' \<in> set (made (signalDriftReboots E recorder cluster cn drifting) w)"
  obtains machines w1 t d m where
    "listClusterMachines E (oc_Namespace cluster) cn w = (Inr machines, w1)"
    and "\<not> anyRebootInFlight machines" and "fst (time_Now E (env w1)) = t"
    and "selectDriftRebootCandidate drifting (machines_by_id machines) t = Some d"
    and "map_of (machines_by_id machines) (mcd_MachineID d) = Some m"
    and "m' = request_reboot t (mcd_ManagementAddress d) m"
proof -
  have quiet: "UpdateMachine m' \<notin> set (made (set_cluster_condition E cluster cond) v)" for cond v
    using never_made [of is_update_machine, OF never_set_cluster_condition] by fastforce
  have some: "drifting \<noteq> []"
    using c quiet by (auto simp: signalDriftReboots_def)
  have c0: "UpdateMachine m' \<in> set (made (io_bind (listClusterMachines E (oc_Namespace cluster) cn) (\<lambda>machines.
        if anyRebootInFlight machines
        then set_cluster_condition E cluster
               (drift_condition cluster ConditionTrue ''PendingReboot''
                  ''A drift-remediation reboot is already in flight'')
        else pick_drift_reboot E recorder cluster drifting machines)) w)"
    using c some by (simp add: signalDriftReboots_def)
  obtain machines w1 where list: "listClusterMachines E (oc_Namespace cluster) cn w = (Inr machines, w1)"
      and c1: "UpdateMachine m' \<in> set (made (if anyRebootInFlight machines
        then set_cluster_condition E cluster
               (drift_condition cluster ConditionTrue ''PendingReboot''
                  ''A drift-remediation reboot is already in flight'')
        else pick_drift_reboot E recorder cluster drifting machines) w1)"
    using c0 by (rule made_rest) ((intro effects), (intro effects; simp), simp only:)
  have idle: "\<not> anyRebootInFlight machines"
    using c1 quiet by (auto split: if_splits)
  have c2: "UpdateMachine m' \<in> set (made (pick_drift_reboot E recorder cluster drifting machines) w1)"
    using c1 idle by simp
  obtain t w2 where t: "now E w1 = (Inr t, w2)"
      and c3: "UpdateMachine m' \<in> set (made (case selectDriftRebootCandidate drifting (machines_by_id machines) t of
            None \<Rightarrow> await_cooldown E recorder cluster drifting
          | Some candidate \<Rightarrow>
              (case map_of (machines_by_id machines) (mcd_MachineID candidate) of
                 None \<Rightarrow> io_raise (Panic ''nil pointer dereference'')
               | Some m \<Rightarrow> request_drift_reboot E recorder cluster t candidate m)) w2)"
    using c2 unfolding pick_drift_reboot_def Let_def
    by (rule made_rest) ((intro effects), (intro effects; simp), simp only:)
  have waits: "UpdateMachine m' \<notin> set (made (await_cooldown E recorder cluster drifting) v)" for v
    using never_made [of is_update_machine, OF never_await_cooldown] by fastforce
  obtain d m where d: "selectDriftRebootCandidate drifting (machines_by_id machines) t = Some d"
      and m: "map_of (machines_by_id machines) (mcd_MachineID d) = Some m"
      and c4: "UpdateMachine m' \<in> set (made (request_drift_reboot E recorder cluster t d m) w2)"
    using c3 waits by (auto split: option.splits)
  have "m' = request_reboot t (mcd_ManagementAddress d) m"
  proof (rule ccontr)
    assume "m' \<noteq> request_reboot t (mcd_ManagementAddress d) m"
    then have "never (\<lambda>c. c = UpdateMachine m') (request_drift_reboot E recorder cluster t d m)"
      by (intro effects) auto
    from never_made [OF this c4] show False by simp
  qed
  moreover have "fst (time_Now E (env w1)) = t"
    using t by (auto simp: now_def ext_def split: prod.splits)
  ultimately show ?thesis
    using list idle d m by (intro that)
qed

section \<open>Properties\<close>

text \<open>A pass signals at most one reboot, cluster-wide, whatever it sees.\<close>

theorem drift_requests_at_most_one_reboot:
  "length (filter is_update_machine (made (signalDriftReboots E recorder cluster cn drifting) w)) \<le> 1"
  by (rule atmost_made [OF one_request])

text \<open>C6: A reboot is requested only if no \<open>Machine\<close> of the cluster, as listed in this pass, has one owed;
  it is requested of a listed machine that drifts and whose last reboot, if any, is at least ten minutes
  old; every drifting machine before it in Omni's list has no \<open>Machine\<close> object or is still cooling
  down. The request is the listed object with the request time, now, and the drifting machine's
  address, so that a reboot is owed from then on.\<close>

theorem drift_request_is_safe:
  assumes c: "UpdateMachine m' \<in> set (made (signalDriftReboots E recorder cluster cn drifting) w)"
  shows "\<exists>machines w1 t m before d after.
    listClusterMachines E (oc_Namespace cluster) cn w = (Inr machines, w1) \<and>
    list_all (\<lambda>m. \<not> rebootOwed (m_Spec m) (m_Status m)) machines \<and>
    t = fst (time_Now E (env w1)) \<and> drifting = before @ d # after \<and>
    m \<in> set machines \<and> m_Name m = mcd_MachineID d \<and>
    (case mst_LastRebootTime (m_Status m) of None \<Rightarrow> True | Some r \<Rightarrow> rebootCooldown \<le> t - r) \<and>
    list_all (\<lambda>x. \<not> eligible (machines_by_id machines) t x) before \<and>
    m' = m\<lparr>m_Spec := (m_Spec m)\<lparr>ms_RebootRequestedAt := Some t, ms_ManagementAddress := mcd_ManagementAddress d\<rparr>\<rparr> \<and>
    rebootOwed (m_Spec m') (m_Status m')"
proof -
  obtain machines w1 t d m where run:
      "listClusterMachines E (oc_Namespace cluster) cn w = (Inr machines, w1)"
      "\<not> anyRebootInFlight machines" "fst (time_Now E (env w1)) = t"
      "selectDriftRebootCandidate drifting (machines_by_id machines) t = Some d"
      "map_of (machines_by_id machines) (mcd_MachineID d) = Some m"
      "m' = request_reboot t (mcd_ManagementAddress d) m"
    using request_in_signal [OF c] .
  obtain n where n: "n < length drifting" "drifting ! n = d" "\<forall>j<n. \<not> eligible (machines_by_id machines) t (drifting ! j)"
      and ok: "eligible (machines_by_id machines) t d"
    using run(4) unfolding select_is_find find_Some_iff by auto
  have split: "drifting = take n drifting @ d # drop (Suc n) drifting"
    using id_take_nth_drop [OF n(1)] unfolding n(2) .
  have before: "list_all (\<lambda>x. \<not> eligible (machines_by_id machines) t x) (take n drifting)"
    using n by (auto simp: list_all_iff in_set_conv_nth)
  have cool: "case mst_LastRebootTime (m_Status m) of None \<Rightarrow> True | Some r \<Rightarrow> rebootCooldown \<le> t - r"
    using ok run(5) by (simp add: eligible_def cooled_down_iff)
  have owed: "rebootOwed (m_Spec m') (m_Status m')"
    using cool unfolding run(6)
    by (auto simp: rebootOwed_def request_reboot_def rebootCooldown_def minute_def second_def split: option.splits)
  have idle: "list_all (\<lambda>m. \<not> rebootOwed (m_Spec m) (m_Status m)) machines"
    using run(2) by (auto simp: anyRebootInFlight_def list_all_iff list_ex_iff)
  show ?thesis
    using run map_of_machines_by_id [OF run(5)] split before cool owed idle
    by (intro exI [of _ machines] exI [of _ w1] exI [of _ t] exI [of _ m] exI [of _ "take n drifting"] exI [of _ d]
        exI [of _ "drop (Suc n) drifting"] conjI) (simp_all add: request_reboot_def)
qed


definition drifted_machine :: machine where
  "drifted_machine =
     \<lparr>m_Meta = (empty_meta ''m1'' ''ns'')\<lparr>om_Labels := [(labelCluster, ''c1'')]\<rparr>,
      m_Spec = zero_machine_spec, m_Status = zero_machine_status\<rparr>"

definition drift_world :: "memory world" where
  "drift_world = world_of (empty_memory\<lparr>mem_machines := [drifted_machine]\<rparr>)"

definition drifting_m1 :: MachineConfigDrift where
  "drifting_m1 = \<lparr>mcd_MachineID = ''m1'', mcd_ManagementAddress = ''10.0.0.1''\<rparr>"

lemma sample_requests:
  "list_ex is_update_machine (made (signalDriftReboots memory_ops False sample_cluster ''c1'' [drifting_m1]) drift_world)"
  by code_simp

theorem drift_request_is_safe_witness:
  "\<exists>m'. UpdateMachine m' \<in> set (made (signalDriftReboots memory_ops False sample_cluster ''c1'' [drifting_m1]) drift_world) \<and>
     rebootOwed (m_Spec m') (m_Status m')"
proof -
  obtain c where c: "c \<in> set (made (signalDriftReboots memory_ops False sample_cluster ''c1'' [drifting_m1]) drift_world)"
      "is_update_machine c"
    using sample_requests unfolding list_ex_iff by blast
  then obtain m' where m': "UpdateMachine m' \<in> set (made (signalDriftReboots memory_ops False sample_cluster ''c1'' [drifting_m1]) drift_world)"
    by - (cases c, auto)
  from drift_request_is_safe [OF this] m' show ?thesis
    by blast
qed

end
