(* ===== verification/Reboot_Protocol.thy ===== *)
theory Reboot_Protocol
  imports Drift_Properties
begin

text \<open>
  The protocol between the two reconcilers as a step relation on what they share: the \<open>Machine\<close>
  objects of one cluster, the clock and the reboots done so far. The cluster controller requests a
  reboot (\<open>signalDriftReboots\<close>), the machine controller performs it and stamps the status
  (\<open>rebootWhenOwed\<close>, \<open>finishReconcile\<close>); either may happen without the other, as the RPC may fail and the
  status write may fail; specs are synced, machines come and go, time passes. The API server stores a
  \<open>metav1.Time\<close> as RFC 3339 text, to the second: a request and a stamp come back rounded down. The
  relation is a specification, with the guards as the premises of its steps; that the two reconcilers
  implement it, guards included, is what \<open>Protocol_Passes\<close> and \<open>Protocol_Refinement\<close> prove. A
  machine that is released and allocated again is a new \<open>Machine\<close> object without a stamp; \<open>join\<close> has
  it come back no sooner than the cooldown after its last reboot.
\<close>

record reboot_state =
  rs_machines :: "machine list"
  rs_clock :: int
  rs_reboots :: "(string \<times> int \<times> int) list"

text \<open>A reboot done is recorded as the machine, the time of the RPC and the request it answered.\<close>

definition replace_machine :: "machine \<Rightarrow> machine list \<Rightarrow> machine list" where
  "replace_machine m ms = map (\<lambda>x. if m_Name x = m_Name m then m else x) ms"

definition to_second :: "int \<Rightarrow> int" where
  "to_second t = t - t mod second"

definition stamped :: "int \<Rightarrow> machine \<Rightarrow> machine" where
  "stamped t m = m\<lparr>m_Status := (m_Status m)\<lparr>mst_LastRebootTime := Some t\<rparr>\<rparr>"

inductive reboot_step :: "reboot_state \<Rightarrow> reboot_state \<Rightarrow> bool" where
  tick: "rs_clock s \<le> t \<Longrightarrow> reboot_step s (s\<lparr>rs_clock := t\<rparr>)"
| request: "\<not> anyRebootInFlight (rs_machines s) \<Longrightarrow>
    selectDriftRebootCandidate drifting (machines_by_id (rs_machines s)) (rs_clock s) = Some d \<Longrightarrow>
    map_of (machines_by_id (rs_machines s)) (mcd_MachineID d) = Some m \<Longrightarrow>
    reboot_step s (s\<lparr>rs_machines :=
      replace_machine (request_reboot (to_second (rs_clock s)) (mcd_ManagementAddress d) m) (rs_machines s)\<rparr>)"
| stamp: "m \<in> set (rs_machines s) \<Longrightarrow> rebootOwed (m_Spec m) (m_Status m) \<Longrightarrow> rs_clock s \<le> t \<Longrightarrow>
    reboot_step s (s\<lparr>rs_machines := replace_machine (stamped (to_second t) m) (rs_machines s), rs_clock := t\<rparr>)"
| reboot: "m \<in> set (rs_machines s) \<Longrightarrow> rebootOwed (m_Spec m) (m_Status m) \<Longrightarrow>
    reboot_step s (s\<lparr>rs_reboots :=
      (m_Name m, rs_clock s, the (ms_RebootRequestedAt (m_Spec m))) # rs_reboots s\<rparr>)"
| sync: "m \<in> set (rs_machines s) \<Longrightarrow>
    reboot_step s (s\<lparr>rs_machines :=
      replace_machine (m\<lparr>m_Spec := m_Spec (syncedMachine m cn set_id role spec)\<rparr>) (rs_machines s)\<rparr>)"
| join: "rs_machines s = xs @ ys \<Longrightarrow> m_Name m \<notin> m_Name ` set (xs @ ys) \<Longrightarrow>
    \<forall>t q. (m_Name m, t, q) \<in> set (rs_reboots s) \<longrightarrow> t + rebootCooldown \<le> rs_clock s \<Longrightarrow>
    ms_RebootRequestedAt (m_Spec m) = None \<Longrightarrow> mst_LastRebootTime (m_Status m) = None \<Longrightarrow>
    reboot_step s (s\<lparr>rs_machines := xs @ m # ys\<rparr>)"
| leave: "reboot_step s (s\<lparr>rs_machines := filter P (rs_machines s)\<rparr>)"

inductive_cases reboot_stepE: "reboot_step s s'"


abbreviation owed :: "machine \<Rightarrow> bool" where
  "owed m \<equiv> rebootOwed (m_Spec m) (m_Status m)"

section \<open>The invariant\<close>

text \<open>The time between reboots that the cooldown on stored times leaves: it is measured from the stamp,
  which may be almost a second earlier than the reboot it stands for.\<close>

definition spacing :: int where
  "spacing = rebootCooldown - second"

text \<open>Of one machine: its request and stamp are whole seconds and not in the future, and the reboots
  recorded for it answer its present request or one whose cooldown was over when the present one was
  made; without a request, whatever was recorded is past its cooldown.\<close>

definition machine_inv :: "int \<Rightarrow> (string \<times> int \<times> int) list \<Rightarrow> machine \<Rightarrow> bool" where
  "machine_inv clk log m \<longleftrightarrow>
     (\<forall>r. mst_LastRebootTime (m_Status m) = Some r \<longrightarrow> r \<le> clk \<and> second dvd r) \<and>
     (case ms_RebootRequestedAt (m_Spec m) of
        None \<Rightarrow> \<forall>t p. (m_Name m, t, p) \<in> set log \<longrightarrow> t + rebootCooldown \<le> clk
      | Some q \<Rightarrow> q \<le> clk \<and> second dvd q \<and>
          (\<forall>t p. (m_Name m, t, p) \<in> set log \<longrightarrow>
             (p < q \<and> t + spacing < q) \<or>
             (p = q \<and> (owed m \<or> (\<exists>r. mst_LastRebootTime (m_Status m) = Some r \<and> t < r + second)))))"

definition log_inv :: "int \<Rightarrow> (string \<times> int \<times> int) list \<Rightarrow> bool" where
  "log_inv clk log \<longleftrightarrow>
     (\<forall>n t p. (n, t, p) \<in> set log \<longrightarrow> p \<le> t \<and> t \<le> clk) \<and>
     (\<forall>n t p t' p'. (n, t, p) \<in> set log \<longrightarrow> (n, t', p') \<in> set log \<longrightarrow> p < p' \<longrightarrow> t + spacing < t')"

definition reboot_inv :: "reboot_state \<Rightarrow> bool" where
  "reboot_inv s \<longleftrightarrow> distinct (map m_Name (rs_machines s)) \<and>
     length (filter owed (rs_machines s)) \<le> 1 \<and>
     list_all (machine_inv (rs_clock s) (rs_reboots s)) (rs_machines s) \<and> log_inv (rs_clock s) (rs_reboots s)"

lemma second_pos: "0 < second"
  by (simp add: second_def)

lemma rebootCooldown_seconds: "second dvd rebootCooldown" "second < rebootCooldown"
  by (simp_all add: rebootCooldown_def minute_def second_def)

lemma to_second: "to_second t \<le> t" "t < to_second t + second" "second dvd to_second t"
proof -
  show "to_second t \<le> t" "t < to_second t + second"
    using pos_mod_bound [OF second_pos, of t] pos_mod_sign [OF second_pos, of t] by (simp_all add: to_second_def)
  show "second dvd to_second t"
    by (simp add: to_second_def minus_mod_eq_mult_div)
qed

lemma le_to_second:
  assumes "second dvd a" and "a \<le> t"
  shows "a \<le> to_second t"
proof -
  obtain k where k: "a = second * k"
    using assms(1) by blast
  have "k = a div second"
    using second_pos by (simp add: k)
  also have "\<dots> \<le> t div second"
    using assms(2) second_pos by (intro zdiv_mono1)
  finally show ?thesis
    using second_pos by (simp add: k to_second_def minus_mod_eq_mult_div)
qed

lemma machine_inv_later: "machine_inv clk log m \<Longrightarrow> clk \<le> clk' \<Longrightarrow> machine_inv clk' log m"
  unfolding machine_inv_def by (cases "ms_RebootRequestedAt (m_Spec m)") (auto intro: order_trans)

lemma log_inv_later: "log_inv clk log \<Longrightarrow> clk \<le> clk' \<Longrightarrow> log_inv clk' log"
  unfolding log_inv_def by fastforce

lemma names_replace [simp]: "map m_Name (replace_machine m ms) = map m_Name ms"
  by (simp add: replace_machine_def)

lemma replace_machine_split:
  assumes "distinct (map m_Name ms)" and "old \<in> set ms" and "m_Name new = m_Name old"
  obtains xs ys where "ms = xs @ old # ys" and "replace_machine new ms = xs @ new # ys"
    and "m_Name old \<notin> m_Name ` set xs" and "m_Name old \<notin> m_Name ` set ys"
proof -
  obtain xs ys where ms: "ms = xs @ old # ys"
    using assms(2) by (meson split_list)
  then have apart: "m_Name old \<notin> m_Name ` set xs" "m_Name old \<notin> m_Name ` set ys"
    using assms(1) by auto
  then have "replace_machine new xs = xs" "replace_machine new ys = ys"
    unfolding replace_machine_def assms(3) by (intro map_idI; metis image_eqI)+
  then have "replace_machine new ms = xs @ new # ys"
    unfolding ms by (simp add: replace_machine_def assms(3))
  with ms apart show ?thesis by (intro that)
qed

text \<open>An entry about another machine changes nothing for this one.\<close>

lemma machine_inv_other: "m_Name m \<noteq> n \<Longrightarrow> machine_inv clk ((n, t, p) # log) m = machine_inv clk log m"
  by (auto simp: machine_inv_def split: option.splits)

lemma owed_iff: "owed m \<longleftrightarrow> (\<exists>q. ms_RebootRequestedAt (m_Spec m) = Some q \<and>
    (\<forall>r. mst_LastRebootTime (m_Status m) = Some r \<longrightarrow> r < q))"
  by (auto simp: rebootOwed_def split: option.splits)

lemma machine_inv_request:
  assumes inv: "machine_inv clk log m" and log: "log_inv clk log" and idle: "\<not> owed m" and cool: "cooled_down m clk"
  shows "machine_inv clk log (request_reboot (to_second clk) a m)"
proof (cases "ms_RebootRequestedAt (m_Spec m)")
  case None
  have "p < to_second clk \<and> t + spacing < to_second clk" if e: "(m_Name m, t, p) \<in> set log" for t p
  proof -
    have "t + rebootCooldown \<le> clk" "p \<le> t"
      using inv None log e by (auto simp: machine_inv_def log_inv_def)
    with to_second(2) [of clk] rebootCooldown_seconds(2) show ?thesis by (simp add: spacing_def)
  qed
  then show ?thesis
    using inv to_second [of clk] by (simp add: machine_inv_def request_reboot_def)
next
  case (Some q)
  then obtain r where r: "mst_LastRebootTime (m_Status m) = Some r" "q \<le> r"
    using idle by (cases "mst_LastRebootTime (m_Status m)") (auto simp: owed_iff)
  have stored: "second dvd r"
    using inv r(1) by (simp add: machine_inv_def)
  have "r + rebootCooldown \<le> to_second clk"
    using cool r(1) stored rebootCooldown_seconds(1) by (intro le_to_second) (auto simp: cooled_down_iff)
  with r(2) rebootCooldown_seconds(2) second_pos have later: "r + rebootCooldown \<le> to_second clk" "q < to_second clk"
    by simp_all
  have old: "p < to_second clk \<and> t + spacing < to_second clk" if e: "(m_Name m, t, p) \<in> set log" for t p
  proof -
    have "(p < q \<and> t + spacing < q) \<or>
        (p = q \<and> (owed m \<or> (\<exists>r. mst_LastRebootTime (m_Status m) = Some r \<and> t < r + second)))"
      using inv e Some unfolding machine_inv_def by auto
    then consider "p < q" "t + spacing < q" | "p = q" "t < r + second"
      using idle r(1) by auto
    then show ?thesis
      using later by cases (simp_all add: spacing_def)
  qed
  then show ?thesis
    using inv to_second [of clk] by (simp add: machine_inv_def request_reboot_def)
qed

lemma machine_inv_stamp:
  assumes inv: "machine_inv clk log m" and log: "log_inv clk log" and owed: "owed m" and later: "clk \<le> t"
  shows "machine_inv t log (stamped (to_second t) m)"
proof -
  obtain q where req: "ms_RebootRequestedAt (m_Spec m) = Some q"
    using owed by (auto simp: owed_iff)
  have mine: "q \<le> clk" "second dvd q" "(m_Name m, u, p) \<in> set log \<Longrightarrow> (p < q \<and> u + spacing < q) \<or> p = q" for u p
    using inv req unfolding machine_inv_def by auto
  have "u < to_second t + second" if "(n, u, p) \<in> set log" for n u p
    using log later to_second(2) [of t] that unfolding log_inv_def by fastforce
  then show ?thesis
    using req mine later to_second [of t] by (fastforce simp: machine_inv_def stamped_def)
qed

lemma machine_inv_reboot:
  assumes inv: "machine_inv clk log m" and log: "log_inv clk log" and owed: "owed m"
    and q: "q = the (ms_RebootRequestedAt (m_Spec m))"
  shows "machine_inv clk ((m_Name m, clk, q) # log) m"
    and "log_inv clk ((m_Name m, clk, q) # log)"
proof -
  have req: "ms_RebootRequestedAt (m_Spec m) = Some q"
    using owed q by (auto simp: owed_iff)
  have entries: "p \<le> u \<and> u \<le> clk" if "(n, u, p) \<in> set log" for n u p
    using log that unfolding log_inv_def by blast
  have mine: "q \<le> clk" "(p < q \<and> u + spacing < q) \<or> p = q" if "(m_Name m, u, p) \<in> set log" for u p
    using inv req that unfolding machine_inv_def by auto
  have le: "q \<le> clk" "second dvd q"
    using inv req unfolding machine_inv_def by auto
  show "machine_inv clk ((m_Name m, clk, q) # log) m"
    using inv req le owed mine unfolding machine_inv_def by auto
  show "log_inv clk ((m_Name m, clk, q) # log)"
    using log le mine(2) entries unfolding log_inv_def by fastforce
qed


section \<open>Preservation\<close>

lemma reboot_inv_update:
  assumes inv: "reboot_inv s" and m: "m \<in> set (rs_machines s)" and name: "m_Name m' = m_Name m"
    and few: "owed m' \<Longrightarrow> owed m \<or> filter owed (rs_machines s) = []"
    and later: "rs_clock s \<le> t"
    and new: "machine_inv t log m'" and logs: "log_inv t log"
    and others: "\<And>x. m_Name x \<noteq> m_Name m \<Longrightarrow> machine_inv (rs_clock s) (rs_reboots s) x \<Longrightarrow> machine_inv t log x"
  shows "reboot_inv \<lparr>rs_machines = replace_machine m' (rs_machines s), rs_clock = t, rs_reboots = log\<rparr>"
proof -
  have dist: "distinct (map m_Name (rs_machines s))"
    using inv by (simp add: reboot_inv_def)
  obtain xs ys where ms: "rs_machines s = xs @ m # ys" "replace_machine m' (rs_machines s) = xs @ m' # ys"
      "m_Name m \<notin> m_Name ` set xs" "m_Name m \<notin> m_Name ` set ys"
    using replace_machine_split [OF dist m name] .
  have "list_all (machine_inv t log) (xs @ m' # ys)"
    using inv new others ms unfolding reboot_inv_def by (auto simp: list_all_iff image_iff)
  moreover have "length (filter owed (xs @ m' # ys)) \<le> 1"
    using inv few ms(1) unfolding reboot_inv_def by (auto split: if_splits)
  moreover have "distinct (map m_Name (xs @ m' # ys))"
    using dist ms(1) name by simp
  ultimately show ?thesis
    using logs by (simp add: reboot_inv_def ms(2))
qed

lemma reboot_inv_step: "reboot_step s s' \<Longrightarrow> reboot_inv s \<Longrightarrow> reboot_inv s'"
proof (induction rule: reboot_step.induct)
  case (tick s t)
  then show ?case
    by (auto simp: reboot_inv_def list_all_iff intro: machine_inv_later log_inv_later)
next
  case (request s drifting d m)
  have m: "m \<in> set (rs_machines s)" "m_Name m = mcd_MachineID d"
    using map_of_machines_by_id [OF request(3)] by auto
  have idle: "filter owed (rs_machines s) = []" "\<not> owed m"
    using request(1) m(1) by (auto simp: anyRebootInFlight_def list_ex_iff filter_empty_conv)
  have cool: "cooled_down m (rs_clock s)"
    using request(2,3) unfolding select_is_find by (auto dest!: find_SomeD simp: eligible_def)
  have "machine_inv (rs_clock s) (rs_reboots s) m" "log_inv (rs_clock s) (rs_reboots s)"
    using request.prems m(1) by (simp_all add: reboot_inv_def list_all_iff)
  from machine_inv_request [OF this idle(2) cool]
  have "reboot_inv \<lparr>rs_machines = replace_machine (request_reboot (to_second (rs_clock s)) (mcd_ManagementAddress d) m) (rs_machines s),
      rs_clock = rs_clock s, rs_reboots = rs_reboots s\<rparr>"
    using request.prems idle
    by (intro reboot_inv_update [OF request.prems m(1)]) (auto simp: request_reboot_def reboot_inv_def)
  then show ?case
    by (simp add: reboot_inv_def)
next
  case (stamp m s t)
  have inv: "machine_inv (rs_clock s) (rs_reboots s) m" "log_inv (rs_clock s) (rs_reboots s)"
    using stamp by (auto simp: reboot_inv_def list_all_iff)
  have "reboot_inv \<lparr>rs_machines = replace_machine (stamped (to_second t) m) (rs_machines s), rs_clock = t,
      rs_reboots = rs_reboots s\<rparr>"
    using stamp.hyps machine_inv_stamp [OF inv stamp(2,3)] log_inv_later [OF inv(2) stamp(3)]
    by (intro reboot_inv_update [OF stamp.prems stamp(1)]) (auto simp: stamped_def intro: machine_inv_later)
  then show ?case
    by (simp add: reboot_inv_def)
next
  case (reboot m s)
  have inv: "machine_inv (rs_clock s) (rs_reboots s) m" "log_inv (rs_clock s) (rs_reboots s)"
    using reboot by (auto simp: reboot_inv_def list_all_iff)
  note step = machine_inv_reboot [OF inv reboot(2) refl]
  have "machine_inv (rs_clock s) ((m_Name m, rs_clock s, the (ms_RebootRequestedAt (m_Spec m))) # rs_reboots s) x"
    if x: "x \<in> set (rs_machines s)" for x
  proof (cases "m_Name x = m_Name m")
    case True
    then have "x = m"
      using reboot x unfolding reboot_inv_def by (auto simp: distinct_map dest: inj_onD)
    with step show ?thesis by simp
  next
    case False
    with reboot x show ?thesis by (simp add: machine_inv_other reboot_inv_def list_all_iff)
  qed
  with reboot step(2) show ?case
    by (simp add: reboot_inv_def list_all_iff)
next
  case (sync m s cn set_id role spec)
  let ?m = "m\<lparr>m_Spec := m_Spec (syncedMachine m cn set_id role spec)\<rparr>"
  have same: "m_Name ?m = m_Name m" "owed ?m = owed m"
      "ms_RebootRequestedAt (m_Spec ?m) = ms_RebootRequestedAt (m_Spec m)" "m_Status ?m = m_Status m"
    by (simp_all add: syncedMachine_def Let_def rebootOwed_def)
  have "machine_inv (rs_clock s) (rs_reboots s) m"
    using sync by (simp add: reboot_inv_def list_all_iff)
  then have inv: "machine_inv (rs_clock s) (rs_reboots s) ?m"
    unfolding machine_inv_def rebootOwed_def same(1,3,4) .
  have "reboot_inv \<lparr>rs_machines = replace_machine ?m (rs_machines s), rs_clock = rs_clock s, rs_reboots = rs_reboots s\<rparr>"
    using sync inv same(1,2)
    by (intro reboot_inv_update [OF sync.prems sync(1)]) (auto simp: reboot_inv_def)
  then show ?case
    by (simp add: reboot_inv_def)
next
  case (join s xs ys m)
  have "machine_inv (rs_clock s) (rs_reboots s) m"
    using join by (simp add: machine_inv_def)
  with join show ?case
    by (simp add: reboot_inv_def rebootOwed_def image_Un)
next
  case (leave s P)
  have "length (filter owed (filter P ms)) \<le> length (filter owed ms)" for ms
    by (induction ms) auto
  with leave show ?case
    unfolding reboot_inv_def by (auto simp: list_all_iff distinct_map_filter intro: le_trans)
qed

lemma reboot_inv_reachable: "reboot_step\<^sup>*\<^sup>* s s' \<Longrightarrow> reboot_inv s \<Longrightarrow> reboot_inv s'"
  by (induction rule: rtranclp_induct) (auto intro: reboot_inv_step)

end
