(* ===== verification/Env_Preorder.thy ===== *)
theory Env_Preorder
  imports World
begin

text \<open>
  Computations that move the environment along a preorder. Where every operation a computation calls
  does, the computation does: the rules follow its shape. The reboot protocol uses this to skip the steps
  that leave its view alone, the system of both controllers to show that only few steps matter.
\<close>

section \<open>Computations that move the environment along a preorder\<close>

locale env_preorder =
  fixes R :: "'e \<Rightarrow> 'e \<Rightarrow> bool"
  assumes refl: "R e e" and trans: "R e e1 \<Longrightarrow> R e1 e2 \<Longrightarrow> R e e2"
begin

definition leads :: "('e, 'a) io \<Rightarrow> bool" where
  "leads m \<longleftrightarrow> (\<forall>w. R (env w) (env (snd (m w))))"

lemma leadsD: "leads m \<Longrightarrow> m w = (r, w') \<Longrightarrow> R (env w) (env w')"
  unfolding leads_def by (metis snd_conv)

lemma leads_ret: "leads (io_ret x)"
  by (simp add: leads_def io_ret_def refl)

lemma leads_raise: "leads (io_raise e)"
  by (simp add: leads_def io_raise_def refl)

lemma leads_lift: "leads (io_lift r)"
  by (simp add: leads_def io_lift_def refl)

lemma leads_env: "leads (io_env f)"
  by (simp add: leads_def io_env_def refl)

lemma leads_series: "leads (io_series f)"
  by (simp add: leads_def io_series_def refl)

lemma leads_ext: "(\<And>e. R e (snd (f e))) \<Longrightarrow> leads (ext cs f)"
  by (auto simp: leads_def ext_def split: prod.splits) (metis snd_conv)

lemma leads_bind: "leads m \<Longrightarrow> (\<And>x. leads (f x)) \<Longrightarrow> leads (io_bind m f)"
  unfolding leads_def by (auto simp: io_bind_def split: prod.splits sum.splits) (metis snd_conv trans)+

lemma leads_try: "leads m \<Longrightarrow> leads (io_try m)"
  by (simp add: leads_def io_try_def case_prod_unfold)

lemma leads_wrap: "leads m \<Longrightarrow> leads (io_wrap f m)"
  unfolding leads_def by (auto simp: io_wrap_def split: prod.splits sum.splits) (metis snd_conv)+

lemma leads_for: "(\<And>x. leads (f x)) \<Longrightarrow> leads (io_for xs f)"
  by (induction xs) (simp_all add: leads_ret leads_bind)

lemma leads_if: "leads m \<Longrightarrow> leads m' \<Longrightarrow> leads (if b then m else m')"
  by simp

lemma leads_sum: "(\<And>e. leads (f e)) \<Longrightarrow> (\<And>x. leads (g x)) \<Longrightarrow> leads (case r of Inl e \<Rightarrow> f e | Inr x \<Rightarrow> g x)"
  by (cases r) simp_all

lemma leads_option: "leads m \<Longrightarrow> (\<And>x. leads (g x)) \<Longrightarrow> leads (case r of None \<Rightarrow> m | Some x \<Rightarrow> g x)"
  by (cases r) simp_all

lemma leads_Let: "leads (f x) \<Longrightarrow> leads (let y = x in f y)"
  by simp

lemma leads_prod: "(\<And>x y. leads (f x y)) \<Longrightarrow> leads (case r of (x, y) \<Rightarrow> f x y)"
  by (cases r) simp

lemma leads_list: "leads m \<Longrightarrow> (\<And>x xs. leads (g x xs)) \<Longrightarrow> leads (case r of [] \<Rightarrow> m | x # xs \<Rightarrow> g x xs)"
  by (cases r) simp_all

lemmas leads_rules = leads_ret leads_raise leads_lift leads_env leads_series leads_bind leads_try
  leads_wrap leads_for leads_if leads_sum leads_option leads_prod leads_list

text \<open>Where a step moves along the preorder only from environments with a property that the preorder keeps.\<close>

definition kept :: "('e \<Rightarrow> bool) \<Rightarrow> bool" where
  "kept P \<longleftrightarrow> (\<forall>e e'. R e e' \<longrightarrow> P e \<longrightarrow> P e')"

definition leads_from :: "('e \<Rightarrow> bool) \<Rightarrow> ('e, 'a) io \<Rightarrow> bool" where
  "leads_from P m \<longleftrightarrow> (\<forall>w. P (env w) \<longrightarrow> R (env w) (env (snd (m w))))"

lemma leads_from_leads: "leads m \<Longrightarrow> leads_from P m"
  by (simp add: leads_def leads_from_def)

lemma leads_from_ext: "(\<And>e. P e \<Longrightarrow> R e (snd (f e))) \<Longrightarrow> leads_from P (ext cs f)"
  by (auto simp: leads_from_def ext_def split: prod.splits) (metis snd_conv)

lemma leads_from_bind:
  assumes P: "kept P" and m: "leads_from P m"
    and f: "\<And>x w w'. m w = (Inr x, w') \<Longrightarrow> P (env w') \<Longrightarrow> leads_from P (f x)"
  shows "leads_from P (io_bind m f)"
  unfolding leads_from_def
proof (intro allI impI)
  fix w :: "'e world"
  assume w: "P (env w)"
  obtain r w1 where mw: "m w = (r, w1)" by fastforce
  then have step: "R (env w) (env w1)"
    using m w unfolding leads_from_def by (metis snd_conv)
  with P w have w1: "P (env w1)" unfolding kept_def by blast
  show "R (env w) (env (snd (io_bind m f w)))"
  proof (cases r)
    case (Inr x)
    with f mw w1 have "R (env w1) (env (snd (f x w1)))" unfolding leads_from_def by blast
    with mw Inr show ?thesis using step trans by (simp add: io_bind_def)
  qed (use mw step in \<open>simp add: io_bind_def\<close>)
qed

lemma leads_from_first:
  assumes m: "leads_from P m" and f: "\<And>x. leads (f x)"
  shows "leads_from P (io_bind m f)"
proof -
  have "R (env w) (env (snd (io_bind m f w)))" if w: "P (env w)" for w :: "'e world"
  proof (cases "m w")
    case (Pair r w1)
    with m w have step: "R (env w) (env w1)" unfolding leads_from_def by (metis snd_conv)
    with f Pair show ?thesis
      by (cases r) (auto simp: io_bind_def leads_def intro: trans)
  qed
  then show ?thesis unfolding leads_from_def by blast
qed

lemma leads_from_try: "leads_from P m \<Longrightarrow> leads_from P (io_try m)"
  by (simp add: leads_from_def io_try_def case_prod_unfold)

lemma leads_from_wrap: "leads_from P m \<Longrightarrow> leads_from P (io_wrap f m)"
  unfolding leads_from_def
  by (fastforce simp: io_wrap_def split: prod.splits sum.splits)

lemma leads_from_for: "kept P \<Longrightarrow> (\<And>x. x \<in> set xs \<Longrightarrow> leads_from P (f x)) \<Longrightarrow> leads_from P (io_for xs f)"
  by (induction xs) (simp_all add: leads_from_leads leads_ret leads_from_bind)

lemma leads_learn:
  assumes m: "leads m" and Q: "\<And>w x w'. m w = (Inr x, w') \<Longrightarrow> Q x (env w')"
    and f: "\<And>x. leads_from (Q x) (f x)"
  shows "leads (io_bind m f)"
  unfolding leads_def
proof
  fix w :: "'e world"
  obtain r w1 where mw: "m w = (r, w1)" by fastforce
  with m have step: "R (env w) (env w1)" by (rule leadsD)
  show "R (env w) (env (snd (io_bind m f w)))"
  proof (cases r)
    case (Inr x)
    with f Q mw have "R (env w1) (env (snd (f x w1)))" unfolding leads_from_def by blast
    with mw Inr show ?thesis using step trans by (simp add: io_bind_def)
  qed (use mw step in \<open>simp add: io_bind_def\<close>)
qed

end

end
