(* ===== verification/Protocol_Passes.thy ===== *)
theory Protocol_Passes
  imports "HOL-Library.Sublist" Reboot_Protocol Machine_Properties Env_Preorder
begin

text \<open>
  What a pass of either reconciler does to the state of the reboot protocol. \<open>machine_api\<close> states what
  is relied on of the outside: a view \<open>V\<close> of the \<open>Machine\<close> objects of one cluster that the API server
  holds, a clock \<open>C\<close>, and a log \<open>L\<close> of the times at which Omni received a reboot. It says nothing of
  what a read returns: the client reads from a cache, so that a pass reads what is up to date is a
  premise of its simulation here. A pass of the machine controller, or the drift step of the cluster
  controller, is then matched by steps of \<open>reboot_step\<close>, which record the very reboots Omni logged.
  Each pass is taken as one step: the API server's optimistic locking makes a write of an object that
  changed since it was read fail, which the laws allow.
\<close>

section \<open>The API server\<close>

text \<open>What the protocol reads of a \<open>Machine\<close>: its name, its spec, its reboot stamp.\<close>

definition core :: "machine \<Rightarrow> machine" where
  "core m = \<lparr>m_Meta = empty_meta (m_Name m) (m_Namespace m), m_Spec = m_Spec m,
     m_Status = zero_machine_status\<lparr>mst_LastRebootTime := mst_LastRebootTime (m_Status m)\<rparr>\<rparr>"

definition member_of :: "string \<Rightarrow> string \<Rightarrow> machine \<Rightarrow> bool" where
  "member_of ns cn m \<longleftrightarrow> m_Namespace m = ns \<and> map_of (om_Labels (m_Meta m)) labelCluster = Some cn"

text \<open>Times are stored to the second; a write goes to the spec or to the status, never to both.\<close>

definition stored_spec :: "machine_spec \<Rightarrow> machine_spec" where
  "stored_spec s = s\<lparr>ms_RebootRequestedAt := map_option to_second (ms_RebootRequestedAt s)\<rparr>"

definition write_spec :: "machine \<Rightarrow> machine list \<Rightarrow> machine list" where
  "write_spec m = map (\<lambda>x. if m_Name x = m_Name m then x\<lparr>m_Spec := stored_spec (m_Spec m)\<rparr> else x)"

definition write_stamp :: "machine \<Rightarrow> machine list \<Rightarrow> machine list" where
  "write_stamp m = map (\<lambda>x. if m_Name x = m_Name m
     then x\<lparr>m_Status := (m_Status x)\<lparr>mst_LastRebootTime := map_option to_second (mst_LastRebootTime (m_Status m))\<rparr>\<rparr>
     else x)"

definition whole_seconds :: "machine \<Rightarrow> bool" where
  "whole_seconds m \<longleftrightarrow> stored_spec (m_Spec m) = m_Spec m \<and>
     map_option to_second (mst_LastRebootTime (m_Status m)) = mst_LastRebootTime (m_Status m)"

text \<open>A view holds each object once, with times to the second.\<close>

definition machine_view :: "('e \<Rightarrow> machine list) \<Rightarrow> bool" where
  "machine_view V \<longleftrightarrow> (\<forall>e. distinct (map m_Name (V e)) \<and> list_all whole_seconds (V e))"

definition later :: "('e \<Rightarrow> machine list) \<Rightarrow> ('e \<Rightarrow> int) \<Rightarrow> ('e \<Rightarrow> int list) \<Rightarrow> 'e \<Rightarrow> 'e \<Rightarrow> bool" where
  "later V C L e e' \<longleftrightarrow> V e' = V e \<and> C e \<le> C e' \<and> L e' = L e"

definition machine_writes ::
  "'e ops \<Rightarrow> string \<Rightarrow> string \<Rightarrow> ('e \<Rightarrow> machine list) \<Rightarrow> ('e \<Rightarrow> int) \<Rightarrow> ('e \<Rightarrow> int list) \<Rightarrow> bool" where
  "machine_writes E ns cn V C L \<longleftrightarrow> (\<forall>e m. member_of ns cn m \<longrightarrow> m_Name m \<in> m_Name ` set (V e) \<longrightarrow>
     L (snd (k8s_UpdateMachine E m e)) = L e \<and> L (snd (k8s_UpdateMachineStatus E m e)) = L e \<and>
     C e \<le> C (snd (k8s_UpdateMachine E m e)) \<and> C e \<le> C (snd (k8s_UpdateMachineStatus E m e)) \<and>
     V (snd (k8s_UpdateMachine E m e)) \<in>
       {V e, write_spec m (V e), filter (\<lambda>x. m_Name x \<noteq> m_Name m) (V e)} \<and>
     V (snd (k8s_UpdateMachineStatus E m e)) \<in> {V e, write_stamp m (V e)})"

definition machine_clock :: "'e ops \<Rightarrow> ('e \<Rightarrow> machine list) \<Rightarrow> ('e \<Rightarrow> int) \<Rightarrow> ('e \<Rightarrow> int list) \<Rightarrow> bool" where
  "machine_clock E V C L \<longleftrightarrow> (\<forall>e. V (snd (time_Now E e)) = V e \<and> L (snd (time_Now E e)) = L e \<and>
     C e \<le> fst (time_Now E e) \<and> fst (time_Now E e) \<le> C (snd (time_Now E e)))"

text \<open>A reboot RPC is received by Omni once, while it runs, or not at all, whatever it returns.\<close>

definition reboot_received :: "('e \<Rightarrow> machine list) \<Rightarrow> ('e \<Rightarrow> int) \<Rightarrow> ('e \<Rightarrow> int list) \<Rightarrow> 'e \<Rightarrow> 'e \<Rightarrow> bool" where
  "reboot_received V C L e e' \<longleftrightarrow> V e' = V e \<and> (\<exists>t. C e \<le> t \<and> t \<le> C e' \<and> L e' \<in> {L e, L e @ [t]})"

definition machine_apart ::
  "'e ops \<Rightarrow> string \<Rightarrow> string \<Rightarrow> ('e \<Rightarrow> machine list) \<Rightarrow> ('e \<Rightarrow> int) \<Rightarrow> ('e \<Rightarrow> int list) \<Rightarrow> bool" where
  "machine_apart E ns cn V C L \<longleftrightarrow> (\<forall>e.
     later V C L e (snd (k8s_ListMachines E ns [(labelCluster, cn)] e)) \<and>
     (\<forall>n. later V C L e (snd (k8s_GetMachine E ns n e))) \<and>
     (\<forall>t i. later V C L e (snd (cosi_Get E t i e)) \<and> later V C L e (snd (cosi_Teardown E t i e)) \<and>
        later V C L e (snd (cosi_Destroy E t i e))) \<and>
     (\<forall>t q. later V C L e (snd (cosi_List E t q e))) \<and>
     (\<forall>r. later V C L e (snd (cosi_Create E r e)) \<and> later V C L e (snd (cosi_Update E r e))) \<and>
     (\<forall>c a. reboot_received V C L e (snd (omni_Reboot E c a e))))"

definition machine_api ::
  "'e ops \<Rightarrow> string \<Rightarrow> string \<Rightarrow> ('e \<Rightarrow> machine list) \<Rightarrow> ('e \<Rightarrow> int) \<Rightarrow> ('e \<Rightarrow> int list) \<Rightarrow> bool" where
  "machine_api E ns cn V C L \<longleftrightarrow> machine_view V \<and> machine_writes E ns cn V C L \<and>
     machine_clock E V C L \<and> machine_apart E ns cn V C L"

section \<open>Quiet steps\<close>

interpretation later: env_preorder "later V C L" for V :: "'e \<Rightarrow> machine list" and C :: "'e \<Rightarrow> int" and L :: "'e \<Rightarrow> int list"
  by unfold_locales (auto simp: later_def)

text \<open>The steps of both reconcilers before their writes to a \<open>Machine\<close> leave the view as it is.\<close>

lemma leads_eventf: "later.leads V C L (eventf recorder t r m)"
  unfolding eventf_def by (intro later.leads_rules later.leads_ext later.refl) (simp add: later_def)

lemma leads_set_condition: "later.leads V C L (set_condition E conds c)"
  unfolding set_condition_def by (rule later.leads_env)

lemma leads_state:
  assumes "machine_api E ns cn V C L"
  shows "later.leads V C L (StateGet E t i)" and "later.leads V C L (StateListAll E t q)"
    and "later.leads V C L (StateCreate E r)" and "later.leads V C L (StateUpdate E r)"
    and "later.leads V C L (StateTeardown E t i)" and "later.leads V C L (StateDestroy E t i)"
    and "later.leads V C L (ext [] (k8s_GetMachine E ns n))"
    and "later.leads V C L (listClusterMachines E ns cn)"
  using assms
  unfolding StateGet_def StateListAll_def StateCreate_def StateUpdate_def StateTeardown_def StateDestroy_def
    listClusterMachines_def machine_api_def machine_apart_def
  by (intro later.leads_rules later.leads_ext; blast)+

lemma leads_teardown_patches:
  assumes "machine_api E ns cn V C L"
  shows "later.leads V C L (teardownAndDestroy E t i d)" and "later.leads V C L (teardown_patches E d ps)"
proof -
  have one: "later.leads V C L (teardownAndDestroy E t i d)" for t i d
    unfolding teardownAndDestroy_def by (intro later.leads_rules leads_state [OF assms])
  then show "later.leads V C L (teardownAndDestroy E t i d)" .
  show "later.leads V C L (teardown_patches E d ps)"
    by (induction ps) (auto intro!: later.leads_rules one)
qed

lemma leads_operations:
  assumes "machine_api E ns cn V C L"
  shows "later.leads V C L (EnsureMachineSetNode E c s m r)"
    and "later.leads V C L (applyConfigPatches (OmniClient E) x)"
    and "later.leads V C L (reconcileKernelArgs (OmniClient E) x)"
    and "later.leads V C L (machine_teardown (OmniClient E) x)"
  unfolding EnsureMachineSetNode_def applyConfigPatches_def reconcileKernelArgs_def machine_teardown_def
    releaseMachineOmni_def OmniClient_simps EnsureConfigPatch_def PruneOrphanedConfigPatches_def
    patches_of_machine_def set_patch_data_def EnsureMachineKernelArgs_def DeleteMachineSetNode_def
    DeleteConfigPatchesForMachine_def DeleteKernelArgsForMachine_def Let_def
  by (intro later.leads_rules leads_state [OF assms] leads_teardown_patches [OF assms])+

section \<open>The abstract state of a world\<close>

text \<open>What Omni logs during a pass is recorded with the machine and the request the pass answers: \<open>F\<close>
  reads the log so, where it continues the log there was, and \<open>logs F n q\<close> says that it does.\<close>

type_synonym reboot_history = "(string \<times> int \<times> int) list"

definition answered :: "string \<Rightarrow> int \<Rightarrow> int list \<Rightarrow> reboot_history" where
  "answered n q ts = map (\<lambda>t. (n, t, q)) (rev ts)"

definition logs :: "(int list \<Rightarrow> reboot_history option) \<Rightarrow> string \<Rightarrow> int \<Rightarrow> bool" where
  "logs F n q \<longleftrightarrow> (\<forall>l h t. F l = Some h \<longrightarrow> F (l @ [t]) = Some ((n, t, q) # h))"

definition continued :: "int list \<Rightarrow> string \<Rightarrow> int \<Rightarrow> reboot_history \<Rightarrow> int list \<Rightarrow> reboot_history option" where
  "continued l0 n q h l = (if prefix l0 l then Some (answered n q (drop (length l0) l) @ h) else None)"

lemma logs_continued: "logs (continued l0 n q h) n q"
  by (auto simp: logs_def continued_def answered_def dest: prefix_length_le)

definition represents ::
  "('e \<Rightarrow> machine list) \<Rightarrow> ('e \<Rightarrow> int) \<Rightarrow> ('e \<Rightarrow> int list) \<Rightarrow> (int list \<Rightarrow> reboot_history option) \<Rightarrow>
   reboot_state \<Rightarrow> 'e world \<Rightarrow> bool" where
  "represents V C L F s w \<longleftrightarrow> rs_machines s = V (env w) \<and> rs_clock s = C (env w) \<and>
     F (L (env w)) = Some (rs_reboots s)"

text \<open>A computation is matched by protocol steps from every world whose view satisfies \<open>P\<close>.\<close>

definition matched ::
  "('e \<Rightarrow> machine list) \<Rightarrow> ('e \<Rightarrow> int) \<Rightarrow> ('e \<Rightarrow> int list) \<Rightarrow> (int list \<Rightarrow> reboot_history option) \<Rightarrow>
   (machine list \<Rightarrow> bool) \<Rightarrow> ('e, 'a) io \<Rightarrow> bool" where
  "matched V C L F P m \<longleftrightarrow> (\<forall>w s. represents V C L F s w \<longrightarrow> P (V (env w)) \<longrightarrow>
     (\<exists>s'. reboot_step\<^sup>*\<^sup>* s s' \<and> represents V C L F s' (snd (m w))))"

lemma matchedI:
  assumes "\<And>w s. represents V C L F s w \<Longrightarrow> P (V (env w)) \<Longrightarrow>
    \<exists>s'. reboot_step\<^sup>*\<^sup>* s s' \<and> represents V C L F s' (snd (m w))"
  shows "matched V C L F P m"
  using assms unfolding matched_def by blast


text \<open>The clock may always move on.\<close>

lemma step_tick: "rs_clock s \<le> t \<Longrightarrow> reboot_step\<^sup>*\<^sup>* s (s\<lparr>rs_clock := t\<rparr>)"
  by (rule r_into_rtranclp) (rule reboot_step.tick)

lemma matched_quiet:
  assumes leads: "later.leads V C L m"
  shows "matched V C L F P m"
proof (rule matchedI)
  fix w s
  assume s: "represents V C L F s w"
  have "later V C L (env w) (env (snd (m w)))"
    using leads by (simp add: later.leads_def)
  then show "\<exists>s'. reboot_step\<^sup>*\<^sup>* s s' \<and> represents V C L F s' (snd (m w))"
    using s step_tick [of s "C (env (snd (m w)))"]
    by (intro exI [of _ "s\<lparr>rs_clock := C (env (snd (m w)))\<rparr>"]) (simp add: represents_def later_def)
qed

lemma matched_bind:
  assumes leads: "later.leads V C L m"
    and rest: "\<And>x w w'. m w = (Inr x, w') \<Longrightarrow> matched V C L F P (f x)"
  shows "matched V C L F P (io_bind m f)"
proof (rule matchedI)
  fix w s
  assume s: "represents V C L F s w" and P: "P (V (env w))"
  obtain r w1 where run: "m w = (r, w1)"
    by (cases "m w")
  have w1: "later V C L (env w) (env w1)"
    using later.leadsD [OF leads run] .
  let ?s1 = "s\<lparr>rs_clock := C (env w1)\<rparr>"
  have s1: "reboot_step\<^sup>*\<^sup>* s ?s1" "represents V C L F ?s1 w1"
    using s w1 step_tick [of s "C (env w1)"] by (simp_all add: represents_def later_def)
  show "\<exists>s'. reboot_step\<^sup>*\<^sup>* s s' \<and> represents V C L F s' (snd (io_bind m f w))"
  proof (cases r)
    case (Inl err)
    with run s1 show ?thesis by (auto simp: io_bind_def)
  next
    case (Inr x)
    have "matched V C L F P (f x)"
      using rest run Inr by blast
    moreover have "P (V (env w1))"
      using P w1 by (simp add: later_def)
    ultimately obtain s2 where "reboot_step\<^sup>*\<^sup>* ?s1 s2" "represents V C L F s2 (snd (f x w1))"
      using s1(2) unfolding matched_def by blast
    with s1(1) run Inr show ?thesis
      by (auto simp: io_bind_def intro: rtranclp_trans)
  qed
qed

lemma matched_then:
  assumes m: "matched V C L F P m" and leads: "\<And>x. later.leads V C L (f x)"
  shows "matched V C L F P (io_bind m f)"
proof (rule matchedI)
  fix w s
  assume "represents V C L F s w" and "P (V (env w))"
  then obtain s1 where s1: "reboot_step\<^sup>*\<^sup>* s s1" "represents V C L F s1 (snd (m w))"
    using m unfolding matched_def by blast
  show "\<exists>s'. reboot_step\<^sup>*\<^sup>* s s' \<and> represents V C L F s' (snd (io_bind m f w))"
  proof (cases "fst (m w)")
    case (Inl err)
    with s1 show ?thesis
      by (auto simp: io_bind_def split: prod.splits)
  next
    case (Inr x)
    obtain s2 where "reboot_step\<^sup>*\<^sup>* s1 s2" "represents V C L F s2 (snd (f x (snd (m w))))"
      using matched_quiet [OF leads, of F "\<lambda>_. True" x] s1(2) unfolding matched_def by blast
    with s1(1) Inr show ?thesis
      by (auto simp: io_bind_def split: prod.splits intro: rtranclp_trans)
  qed
qed

lemma matched_try: "matched V C L F P m \<Longrightarrow> matched V C L F P (io_try m)"
  by (simp add: matched_def io_try_def case_prod_unfold)

lemma matched_wrap: "matched V C L F P m \<Longrightarrow> matched V C L F P (io_wrap f m)"
  unfolding matched_def io_wrap_def by (simp split: prod.splits sum.splits) (metis snd_conv)

lemma matched_ret: "matched V C L F P (io_ret x)"
  by (rule matched_quiet) (rule later.leads_ret)

lemma matched_raise: "matched V C L F P (io_raise e)"
  by (rule matched_quiet) (rule later.leads_raise)

section \<open>The writes of the machine controller\<close>

lemma in_set_unique:
  "distinct (map m_Name ms) \<Longrightarrow> x \<in> set ms \<Longrightarrow> y \<in> set ms \<Longrightarrow> m_Name x = m_Name y \<Longrightarrow> x = y"
  by (auto simp: distinct_map dest: inj_onD)

lemma core_simps [simp]:
  "m_Name (core m) = m_Name m" "m_Namespace (core m) = m_Namespace m" "m_Spec (core m) = m_Spec m"
  "mst_LastRebootTime (m_Status (core m)) = mst_LastRebootTime (m_Status m)"
  by (simp_all add: core_def empty_meta_def)

lemma core_owed [simp]: "rebootOwed (m_Spec m) (m_Status (core m)) = rebootOwed (m_Spec m) (m_Status m)"
  by (simp add: rebootOwed_def split: option.splits)

lemma view_facts:
  assumes "machine_api E ns cn V C L"
  shows "distinct (map m_Name (V e))" and "list_all whole_seconds (V e)"
  using assms unfolding machine_api_def machine_view_def by blast+

lemma write_spec_same:
  assumes "distinct (map m_Name ms)" and "list_all whole_seconds ms" and "core m \<in> set ms"
    and "m_Name m' = m_Name m" and "m_Spec m' = m_Spec m"
  shows "write_spec m' ms = ms"
  unfolding write_spec_def
proof (rule map_idI)
  fix x
  assume x: "x \<in> set ms"
  show "(if m_Name x = m_Name m' then x\<lparr>m_Spec := stored_spec (m_Spec m')\<rparr> else x) = x"
  proof (cases "m_Name x = m_Name m")
    case True
    then have "x = core m"
      using in_set_unique [OF assms(1) x assms(3)] by simp
    moreover have "stored_spec (m_Spec (core m)) = m_Spec (core m)"
      using assms(2,3) unfolding list_all_iff whole_seconds_def by blast
    ultimately show ?thesis
      using assms(5) by simp
  qed (use assms(4) in simp)
qed

lemma write_stamp_same:
  assumes "distinct (map m_Name ms)" and "list_all whole_seconds ms" and "core m \<in> set ms"
    and "m_Name m' = m_Name m" and "mst_LastRebootTime (m_Status m') = mst_LastRebootTime (m_Status m)"
  shows "write_stamp m' ms = ms"
  unfolding write_stamp_def
proof (rule map_idI)
  fix x
  assume x: "x \<in> set ms"
  show "(if m_Name x = m_Name m'
     then x\<lparr>m_Status := (m_Status x)\<lparr>mst_LastRebootTime := map_option to_second (mst_LastRebootTime (m_Status m'))\<rparr>\<rparr>
     else x) = x"
  proof (cases "m_Name x = m_Name m")
    case True
    then have "x = core m"
      using in_set_unique [OF assms(1) x assms(3)] by simp
    moreover have "map_option to_second (mst_LastRebootTime (m_Status (core m))) = mst_LastRebootTime (m_Status (core m))"
      using assms(2,3) unfolding list_all_iff whole_seconds_def by blast
    ultimately show ?thesis
      using assms(5) by simp
  qed (use assms(4) in simp)
qed

lemma write_stamp_stamped:
  assumes "distinct (map m_Name ms)" and "core m \<in> set ms"
    and "m_Name m' = m_Name m" and "mst_LastRebootTime (m_Status m') = Some t"
  shows "write_stamp m' ms = replace_machine (stamped (to_second t) (core m)) ms"
  unfolding write_stamp_def replace_machine_def
proof (rule map_cong [OF refl])
  fix x
  assume x: "x \<in> set ms"
  show "(if m_Name x = m_Name m'
     then x\<lparr>m_Status := (m_Status x)\<lparr>mst_LastRebootTime := map_option to_second (mst_LastRebootTime (m_Status m'))\<rparr>\<rparr>
     else x) = (if m_Name x = m_Name (stamped (to_second t) (core m)) then stamped (to_second t) (core m) else x)"
  proof (cases "m_Name x = m_Name m")
    case True
    then have x: "x = core m"
      using in_set_unique [OF assms(1) x assms(2)] by simp
    show ?thesis
      unfolding x using assms(3,4) by (simp add: stamped_def)
  qed (use assms(3) in \<open>simp add: stamped_def\<close>)
qed

lemma in_names: "core m \<in> set ms \<Longrightarrow> m_Name m' = m_Name m \<Longrightarrow> m_Name m' \<in> m_Name ` set ms"
  by (metis core_simps(1) image_eqI)

lemma env_ext: "env (snd (ext cs f w)) = snd (f (env w))"
  by (simp add: ext_def split: prod.splits)


text \<open>A write of the object that keeps the spec changes nothing, or the object goes.\<close>

lemma matched_update:
  assumes api: "machine_api E ns cn V C L" and member: "member_of ns cn m'"
    and same: "m_Name m' = m_Name m" "m_Spec m' = m_Spec m"
  shows "matched V C L F (\<lambda>ms. core m \<in> set ms) (updateMachine E m')"
proof (rule matchedI)
  fix w s
  assume s: "represents V C L F s w" and m: "core m \<in> set (V (env w))"
  let ?e = "snd (k8s_UpdateMachine E m' (env w))"
  have w': "C (env w) \<le> C ?e" "L ?e = L (env w)"
      "V ?e \<in> {V (env w), write_spec m' (V (env w)), filter (\<lambda>x. m_Name x \<noteq> m_Name m') (V (env w))}"
    using api member in_names [OF m same(1)] unfolding machine_api_def machine_writes_def by blast+
  have "write_spec m' (V (env w)) = V (env w)"
    by (rule write_spec_same [OF view_facts [OF api] m same])
  with w'(3) have "V ?e = filter (\<lambda>_. True) (V (env w)) \<or> V ?e = filter (\<lambda>x. m_Name x \<noteq> m_Name m') (V (env w))"
    by auto
  then obtain P where P: "V ?e = filter P (V (env w))"
    by blast
  have "reboot_step s (s\<lparr>rs_machines := filter P (rs_machines s)\<rparr>)"
    by (rule reboot_step.leave)
  with step_tick [of "s\<lparr>rs_machines := filter P (rs_machines s)\<rparr>" "C ?e"] s w'(1)
  have "reboot_step\<^sup>*\<^sup>* s (s\<lparr>rs_machines := V ?e, rs_clock := C ?e\<rparr>)"
    by (simp add: represents_def P converse_rtranclp_into_rtranclp)
  then show "\<exists>s'. reboot_step\<^sup>*\<^sup>* s s' \<and> represents V C L F s' (snd (updateMachine E m' w))"
    using s w'(2) by (intro exI [of _ "s\<lparr>rs_machines := V ?e, rs_clock := C ?e\<rparr>"])
      (simp add: represents_def env_ext)
qed

text \<open>A status write that keeps the stamp changes nothing.\<close>

lemma matched_status:
  assumes api: "machine_api E ns cn V C L" and member: "member_of ns cn m'"
    and same: "m_Name m' = m_Name m" "mst_LastRebootTime (m_Status m') = mst_LastRebootTime (m_Status m)"
  shows "matched V C L F (\<lambda>ms. core m \<in> set ms)
    (write_if b (ext [UpdateMachineStatus m'] (k8s_UpdateMachineStatus E m')))"
proof (rule matchedI)
  fix w s
  assume s: "represents V C L F s w" and m: "core m \<in> set (V (env w))"
  let ?e = "snd (k8s_UpdateMachineStatus E m' (env w))"
  have w': "C (env w) \<le> C ?e" "L ?e = L (env w)" "V ?e \<in> {V (env w), write_stamp m' (V (env w))}"
    using api member in_names [OF m same(1)] unfolding machine_api_def machine_writes_def by blast+
  then have V: "V ?e = V (env w)"
    using write_stamp_same [OF view_facts [OF api] m same] by simp
  show "\<exists>s'. reboot_step\<^sup>*\<^sup>* s s' \<and>
      represents V C L F s' (snd (write_if b (ext [UpdateMachineStatus m'] (k8s_UpdateMachineStatus E m')) w))"
  proof (cases b)
    case True
    with s w' V step_tick [of s "C ?e"] show ?thesis
      by (intro exI [of _ "s\<lparr>rs_clock := C ?e\<rparr>"])
        (simp add: represents_def write_if_def env_ext)
  next
    case False
    with s show ?thesis
      by (intro exI [of _ s]) (simp add: write_if_def io_ret_def)
  qed
qed

section \<open>The reboot\<close>

lemma run_rebootWhenOwed:
  assumes api: "machine_api E ns cn V C L" and owed: "rebootOwed (m_Spec m) (m_Status m)"
  obtains t u failed w' where "rebootWhenOwed E (OmniClient E) recorder m w = (Inr (stamped t m, failed), w')"
    and "V (env w') = V (env w)" and "C (env w) \<le> u" and "u \<le> t" and "t \<le> C (env w')"
    and "L (env w') \<in> {L (env w), L (env w) @ [u]}"
proof -
  let ?rpc = "RebootMachine E (ms_ClusterName (m_Spec m)) (ms_ManagementAddress (m_Spec m))"
  obtain r w1 where rpc: "?rpc w = (r, w1)"
    by (cases "?rpc w")
  then have "env w1 = snd (omni_Reboot E (ms_ClusterName (m_Spec m)) (ms_ManagementAddress (m_Spec m)) (env w))"
    by (auto simp: RebootMachine_def io_wrap_def ext_def split: prod.splits sum.splits)
  then have "reboot_received V C L (env w) (env w1)"
    using api unfolding machine_api_def machine_apart_def by metis
  then obtain u where u: "V (env w1) = V (env w)" "C (env w) \<le> u" "u \<le> C (env w1)"
      "L (env w1) \<in> {L (env w), L (env w) @ [u]}"
    unfolding reboot_received_def by blast
  obtain t e where t: "time_Now E (env w1) = (t, e)"
    by (cases "time_Now E (env w1)")
  have e: "V e = V (env w1)" "L e = L (env w1)" "C (env w1) \<le> t" "t \<le> C e"
    using api t unfolding machine_api_def machine_clock_def by (metis fst_conv snd_conv)+
  have "\<exists>failed w'. rebootWhenOwed E (OmniClient E) recorder m w = (Inr (stamped t m, failed), w') \<and> env w' = e"
    using owed rpc t
    by (cases r) (auto simp: rebootWhenOwed_def io_defs stamped_def eventf_def)
  with u e show ?thesis
    using that [of t _ _ u] by auto
qed

lemma run_finishReconcile:
  "\<exists>m' b. env (snd (finishReconcile E m before failed w)) =
      (if b then snd (k8s_UpdateMachineStatus E m' (env w)) else env w) \<and>
    m_Name m' = m_Name m \<and> m_Meta m' = m_Meta m \<and>
    mst_LastRebootTime (m_Status m') = mst_LastRebootTime (m_Status m)"
proof -
  let ?status = "settled_status m failed (k8s_SetStatusCondition E (env w) (mst_Conditions (m_Status m)) (settled_condition m failed))"
  show ?thesis
    by (intro exI [of _ "m\<lparr>m_Status := ?status\<rparr>"] exI [of _ "machineStatusNeedsUpdate before ?status"])
      (auto simp: finishReconcile_def Let_def set_condition_def io_defs write_if_def settled_status_def
        split: prod.splits sum.splits)
qed

text \<open>The abstract steps of a reboot: Omni logs it, or not; the stamp is stored, or not.\<close>

lemma step_reboot:
  assumes m: "m \<in> set (rs_machines s)" "rebootOwed (m_Spec m) (m_Status m)" and u: "rs_clock s \<le> u"
    and logs: "logs F (m_Name m) (the (ms_RebootRequestedAt (m_Spec m)))" and l: "l' \<in> {l, l @ [u]}"
    and s: "F l = Some (rs_reboots s)"
  obtains h where "reboot_step\<^sup>*\<^sup>* s (s\<lparr>rs_clock := u, rs_reboots := h\<rparr>)" and "F l' = Some h"
proof -
  let ?s1 = "s\<lparr>rs_clock := u\<rparr>" and ?q = "the (ms_RebootRequestedAt (m_Spec m))"
  have tick: "reboot_step\<^sup>*\<^sup>* s ?s1"
    by (rule step_tick [OF u])
  have reboot: "reboot_step ?s1 (?s1\<lparr>rs_reboots := (m_Name m, rs_clock ?s1, ?q) # rs_reboots ?s1\<rparr>)"
    by (rule reboot_step.reboot) (use m in simp_all)
  have "F l' = Some (rs_reboots s) \<or> F l' = Some ((m_Name m, u, ?q) # rs_reboots s)"
    using l logs s unfolding logs_def by auto
  then show ?thesis
  proof
    assume "F l' = Some (rs_reboots s)"
    with tick show ?thesis by (intro that) simp_all
  next
    assume "F l' = Some ((m_Name m, u, ?q) # rs_reboots s)"
    with rtranclp.rtrancl_into_rtrancl [OF tick reboot] show ?thesis by (intro that) simp_all
  qed
qed

lemma step_stamp:
  assumes m: "m \<in> set (rs_machines s)" "rebootOwed (m_Spec m) (m_Status m)" and t: "rs_clock s \<le> t" "t \<le> c"
    and ms: "ms \<in> {rs_machines s, replace_machine (stamped (to_second t) m) (rs_machines s)}"
  shows "reboot_step\<^sup>*\<^sup>* s (s\<lparr>rs_machines := ms, rs_clock := c\<rparr>)"
proof -
  have "reboot_step\<^sup>*\<^sup>* s (s\<lparr>rs_machines := ms, rs_clock := t\<rparr>)"
    using ms reboot_step.stamp [OF m t(1)] step_tick [OF t(1)] by auto
  with step_tick [of "s\<lparr>rs_machines := ms, rs_clock := t\<rparr>" c] t(2) show ?thesis by simp
qed

lemma matched_rebootAndFinish:
  assumes api: "machine_api E ns cn V C L" and member: "member_of ns cn m"
    and logs: "logs F (m_Name m) (the (ms_RebootRequestedAt (m_Spec m)))"
  shows "matched V C L F (\<lambda>ms. core m \<in> set ms) (rebootAndFinish E (OmniClient E) recorder m)"
proof (cases "rebootOwed (m_Spec m) (m_Status m)")
  case False
  have "matched V C L F (\<lambda>ms. core m \<in> set ms) (finishReconcile E m (m_Status m) False)"
    unfolding finishReconcile_def Let_def
    by (intro matched_bind leads_set_condition matched_then [OF matched_status [OF api]] later.leads_ret)
      (use member in \<open>simp_all add: member_of_def settled_status_def\<close>)
  with False show ?thesis
    by (simp add: rebootAndFinish_def rebootWhenOwed_def matched_def io_bind_def io_ret_def)
next
  case True
  show ?thesis
  proof (rule matchedI)
    fix w s
    assume s: "represents V C L F s w" and m: "core m \<in> set (V (env w))"
    obtain t u failed w1 where run: "rebootWhenOwed E (OmniClient E) recorder m w = (Inr (stamped t m, failed), w1)"
      and w1: "V (env w1) = V (env w)" "C (env w) \<le> u" "u \<le> t" "t \<le> C (env w1)" "L (env w1) \<in> {L (env w), L (env w) @ [u]}"
      using run_rebootWhenOwed [OF api True] .
    let ?w2 = "snd (finishReconcile E (stamped t m) (m_Status m) failed w1)"
    obtain m' b where m': "env ?w2 = (if b then snd (k8s_UpdateMachineStatus E m' (env w1)) else env w1)"
        "m_Name m' = m_Name m" "member_of ns cn m'" "mst_LastRebootTime (m_Status m') = Some t"
      using run_finishReconcile [of E "stamped t m" "m_Status m" failed w1] member
      by (auto simp: stamped_def member_of_def)
    have m1: "core m \<in> set (V (env w1))"
      using m w1(1) by simp
    have "C (env w1) \<le> C (snd (k8s_UpdateMachineStatus E m' (env w1)))"
        "L (snd (k8s_UpdateMachineStatus E m' (env w1))) = L (env w1)"
        "V (snd (k8s_UpdateMachineStatus E m' (env w1))) \<in> {V (env w1), write_stamp m' (V (env w1))}"
      using api m'(3) in_names [OF m1 m'(2)] unfolding machine_api_def machine_writes_def by blast+
    moreover have "write_stamp m' (V (env w1)) = replace_machine (stamped (to_second t) (core m)) (V (env w))"
      unfolding w1(1) by (rule write_stamp_stamped [OF view_facts(1) [OF api] m m'(2,4)])
    ultimately have w2: "t \<le> C (env ?w2)" "L (env ?w2) = L (env w1)"
        "V (env ?w2) \<in> {V (env w), replace_machine (stamped (to_second t) (core m)) (V (env w))}"
      using m'(1) w1(1,4) by auto
    have core: "core m \<in> set (rs_machines s)" "rebootOwed (m_Spec (core m)) (m_Status (core m))" "rs_clock s \<le> u"
        "F (L (env w)) = Some (rs_reboots s)" "rs_machines s = V (env w)"
      using s m True w1(2) by (simp_all add: represents_def)
    have "logs F (m_Name (core m)) (the (ms_RebootRequestedAt (m_Spec (core m))))"
      using logs by simp
    from step_reboot [where F = F and l = "L (env w)" and l' = "L (env w1)", OF core(1-3) this w1(5) core(4)]
    obtain h where h: "reboot_step\<^sup>*\<^sup>* s (s\<lparr>rs_clock := u, rs_reboots := h\<rparr>)" "F (L (env w1)) = Some h" .
    let ?s1 = "s\<lparr>rs_clock := u, rs_reboots := h\<rparr>"
    note h(1)
    moreover have "reboot_step\<^sup>*\<^sup>* ?s1 (?s1\<lparr>rs_machines := V (env ?w2), rs_clock := C (env ?w2)\<rparr>)"
      by (rule step_stamp [OF _ core(2) _ w2(1)]) (use core w1(3) w2(3) in simp_all)
    ultimately show "\<exists>s'. reboot_step\<^sup>*\<^sup>* s s' \<and> represents V C L F s' (snd (rebootAndFinish E (OmniClient E) recorder m w))"
      using run w2(2) h(2)
      by (intro exI [of _ "?s1\<lparr>rs_machines := V (env ?w2), rs_clock := C (env ?w2)\<rparr>"])
        (auto simp: represents_def rebootAndFinish_def io_bind_def)
  qed
qed

section \<open>A pass of the machine controller\<close>

lemma matched_setFailure:
  assumes api: "machine_api E ns cn V C L" and member: "member_of ns cn m"
  shows "matched V C L F (\<lambda>ms. core m \<in> set ms) (machine_setFailure E recorder m before reason err)"
  unfolding machine_setFailure_def Let_def
  by (intro matched_bind leads_eventf leads_set_condition
      matched_then [OF matched_try [OF matched_status [OF api]]] later.leads_ret)
    (use member in \<open>simp_all add: member_of_def\<close>)

lemma matched_convergeMachine:
  assumes api: "machine_api E ns cn V C L" and member: "member_of ns cn m"
    and logs: "logs F (m_Name m) (the (ms_RebootRequestedAt (m_Spec m)))"
  shows "matched V C L F (\<lambda>ms. core m \<in> set ms) (convergeMachine E (OmniClient E) recorder m)"
proof -
  note fail = matched_setFailure [OF api member]
  note finish = matched_rebootAndFinish [OF api member logs]
  note leads = leads_operations [OF api]
  show ?thesis
    unfolding convergeMachine_def Let_def OmniClient_simps
    by (auto split: sum.splits
        intro!: fail finish matched_bind later.leads_try leads)
qed

lemma matched_reconcileMachine:
  assumes api: "machine_api E ns cn V C L" and member: "member_of ns cn m"
    and logs: "logs F (m_Name m) (the (ms_RebootRequestedAt (m_Spec m)))"
  shows "matched V C L F (\<lambda>ms. core m \<in> set ms) (reconcileMachine E (OmniClient E) recorder m)"
proof -
  have written: "matched V C L F (\<lambda>ms. core m \<in> set ms)
      (io_bind (updateMachine E (with_finalizers fs m)) (\<lambda>_. io_ret x))" for fs x
    by (rule matched_then [OF matched_update [OF api]])
      (use member in \<open>simp_all add: with_finalizers_def member_of_def later.leads_ret\<close>)
  show ?thesis
    unfolding reconcileMachine_def Let_def
    by (auto intro!: written matched_ret matched_bind matched_convergeMachine [OF api member logs] later.leads_wrap
        leads_operations [OF api])
qed

text \<open>The object read is the one the API server holds, as far as the protocol goes.\<close>

lemma simulate_machine:
  assumes api: "machine_api E ns cn V C L" and s: "represents V C L F s w"
    and get: "k8s_GetMachine E ns name (env w) = (Inr m, e)" and member: "member_of ns cn m"
    and fresh: "core m \<in> set (V (env w))" and logs: "logs F (m_Name m) (the (ms_RebootRequestedAt (m_Spec m)))"
  shows "\<exists>s'. reboot_step\<^sup>*\<^sup>* s s' \<and>
    represents V C L F s' (snd (MachineReconcile E (OmniClient E) recorder ns name w))"
proof -
  have e: "later V C L (env w) e"
    using api get unfolding machine_api_def machine_apart_def by (metis snd_conv)
  let ?s1 = "s\<lparr>rs_clock := C e\<rparr>"
  have "reboot_step\<^sup>*\<^sup>* s ?s1" "represents V C L F ?s1 (w\<lparr>env := e\<rparr>)" "core m \<in> set (V (env (w\<lparr>env := e\<rparr>)))"
    using s e fresh step_tick [of s "C e"] by (simp_all add: represents_def later_def)
  with matched_reconcileMachine [OF api member logs, of recorder] show ?thesis
    unfolding run_MachineReconcile [OF get] matched_def by (meson rtranclp_trans)
qed

section \<open>The drift step of the cluster controller\<close>

lemma map_of_machines_by_id_core:
  "map_of (machines_by_id (map core ms)) i = map_option core (map_of (machines_by_id ms) i)"
proof -
  have "\<forall>i. map_of acc' i = map_option core (map_of acc i) \<Longrightarrow>
      map_of (fold (\<lambda>m. AList.update (m_Name m) m) (map core ms) acc') i =
      map_option core (map_of (fold (\<lambda>m. AList.update (m_Name m) m) ms acc) i)" for acc acc'
    by (induction ms arbitrary: acc acc') (simp_all add: update_conv')
  then show ?thesis
    by (simp add: machines_by_id_def)
qed

lemma cooled_down_core [simp]: "cooled_down (core m) t = cooled_down m t"
  by (simp add: cooled_down_def)

lemma select_core:
  "selectDriftRebootCandidate drifting (machines_by_id (map core ms)) t =
   selectDriftRebootCandidate drifting (machines_by_id ms) t"
  unfolding select_is_find
  by (rule find_cong) (simp_all add: eligible_def map_of_machines_by_id_core split: option.splits)

lemma in_flight_core: "anyRebootInFlight (map core ms) = anyRebootInFlight ms"
  by (simp add: anyRebootInFlight_def list_ex_iff)

lemma write_spec_request:
  assumes "distinct (map m_Name (map core ms))" and "m \<in> set ms"
  shows "write_spec (request_reboot t a m) (map core ms) =
    replace_machine (request_reboot (to_second t) a (core m)) (map core ms)"
  unfolding write_spec_def replace_machine_def
proof (rule map_cong [OF refl])
  fix x
  assume x: "x \<in> set (map core ms)"
  show "(if m_Name x = m_Name (request_reboot t a m) then x\<lparr>m_Spec := stored_spec (m_Spec (request_reboot t a m))\<rparr> else x) =
    (if m_Name x = m_Name (request_reboot (to_second t) a (core m)) then request_reboot (to_second t) a (core m) else x)"
  proof (cases "m_Name x = m_Name m")
    case True
    have "core m \<in> set (map core ms)"
      using assms(2) by simp
    with True have x: "x = core m"
      using in_set_unique [OF assms(1) x] by simp
    show ?thesis
      unfolding x by (simp add: request_reboot_def stored_spec_def)
  qed (simp add: request_reboot_def)
qed

lemma leads_set_cluster_condition: "later.leads V C L (set_cluster_condition E cluster c)"
  unfolding set_cluster_condition_def by (intro later.leads_rules leads_set_condition)

lemma run_request:
  assumes api: "machine_api E ns cn V C L" and s: "represents V C L F s w" and V: "V (env w) = map core ms"
    and members: "list_all (member_of ns cn) ms" and idle: "\<not> anyRebootInFlight ms"
    and d: "selectDriftRebootCandidate drifting (machines_by_id ms) t = Some d"
    and m: "map_of (machines_by_id ms) (mcd_MachineID d) = Some m"
    and e: "V e = V (env w)" "C (env w) \<le> t" "t \<le> C e" "L e = L (env w)"
  shows "\<exists>s'. reboot_step\<^sup>*\<^sup>* s s' \<and> represents V C L F s'
    (snd (updateMachine E (request_reboot t (mcd_ManagementAddress d) m) (w\<lparr>env := e\<rparr>)))"
proof -
  let ?m' = "request_reboot t (mcd_ManagementAddress d) m"
  let ?e2 = "snd (k8s_UpdateMachine E ?m' e)"
  have in_ms: "m \<in> set ms"
    using map_of_machines_by_id [OF m] by simp
  then have "member_of ns cn ?m'" "m_Name ?m' \<in> m_Name ` set (V e)"
    using members V e(1) by (auto simp: list_all_iff member_of_def request_reboot_def image_image)
  then have e2: "C e \<le> C ?e2" "V ?e2 \<in> {V e, write_spec ?m' (V e), filter (\<lambda>x. m_Name x \<noteq> m_Name ?m') (V e)}"
      "L ?e2 = L e"
    using api unfolding machine_api_def machine_writes_def by blast+
  let ?s1 = "s\<lparr>rs_clock := t\<rparr>"
  have s1: "reboot_step\<^sup>*\<^sup>* s ?s1" "rs_machines ?s1 = map core ms"
    using s e(2) V step_tick [of s t] by (simp_all add: represents_def)
  have written: "write_spec ?m' (map core ms) =
      replace_machine (request_reboot (to_second t) (mcd_ManagementAddress d) (core m)) (map core ms)"
    by (rule write_spec_request [OF _ in_ms]) (use view_facts(1) [OF api, of "env w"] V in simp)
  have request: "reboot_step ?s1 (?s1\<lparr>rs_machines :=
      replace_machine (request_reboot (to_second (rs_clock ?s1)) (mcd_ManagementAddress d) (core m)) (rs_machines ?s1)\<rparr>)"
    by (rule reboot_step.request [of _ drifting])
      (use s1(2) idle d m in \<open>simp_all add: in_flight_core select_core map_of_machines_by_id_core\<close>)
  have leave: "reboot_step ?s1 (?s1\<lparr>rs_machines := filter P (rs_machines ?s1)\<rparr>)" for P
    by (rule reboot_step.leave)
  have same: "?s1\<lparr>rs_machines := map core ms\<rparr> = ?s1"
    using s1(2) by (cases s) simp
  have "reboot_step\<^sup>*\<^sup>* ?s1 (?s1\<lparr>rs_machines := V ?e2\<rparr>)"
    using e2(2) unfolding e(1) V
  proof (elim insertE emptyE)
    assume v: "V ?e2 = map core ms"
    show ?thesis
      unfolding v same ..
  next
    assume v: "V ?e2 = write_spec ?m' (map core ms)"
    show ?thesis
      using request s1(2) unfolding v written by (intro r_into_rtranclp) simp
  next
    assume v: "V ?e2 = filter (\<lambda>x. m_Name x \<noteq> m_Name ?m') (map core ms)"
    show ?thesis
      using leave [of "\<lambda>x. m_Name x \<noteq> m_Name ?m'"] s1(2) unfolding v by (intro r_into_rtranclp) simp
  qed
  moreover have "reboot_step\<^sup>*\<^sup>* (?s1\<lparr>rs_machines := V ?e2\<rparr>) (s\<lparr>rs_machines := V ?e2, rs_clock := C ?e2\<rparr>)"
    using step_tick [of "?s1\<lparr>rs_machines := V ?e2\<rparr>" "C ?e2"] e2(1) e(3) by simp
  ultimately have "reboot_step\<^sup>*\<^sup>* s (s\<lparr>rs_machines := V ?e2, rs_clock := C ?e2\<rparr>)"
    using s1(1) by (meson rtranclp_trans)
  then show ?thesis
    using s e(4) e2(3) by (intro exI [of _ "s\<lparr>rs_machines := V ?e2, rs_clock := C ?e2\<rparr>"])
      (simp add: represents_def env_ext)
qed

lemma request_then_quiet:
  "\<exists>f. request_drift_reboot E recorder cluster t d m = io_bind
      (io_wrap (\<lambda>e. Wrapf (''request reboot for machine '' @ mcd_MachineID d @ '': '') e '''')
        (updateMachine E (request_reboot t (mcd_ManagementAddress d) m))) f \<and>
    (\<forall>x. later.leads V C L (f x))"
  unfolding request_drift_reboot_def
  by (intro exI conjI allI, rule refl)
    (intro later.leads_rules leads_eventf leads_set_cluster_condition)

lemma simulate_pick:
  assumes api: "machine_api E ns cn V C L" and s: "represents V C L F s w" and V: "V (env w) = map core ms"
    and members: "list_all (member_of ns cn) ms" and idle: "\<not> anyRebootInFlight ms"
  shows "\<exists>s'. reboot_step\<^sup>*\<^sup>* s s' \<and>
    represents V C L F s' (snd (pick_drift_reboot E recorder cluster drifting ms w))"
proof -
  obtain t e where te: "time_Now E (env w) = (t, e)"
    by (cases "time_Now E (env w)")
  have e: "V e = V (env w)" "C (env w) \<le> t" "t \<le> C e" "L e = L (env w)"
    using api te unfolding machine_api_def machine_clock_def by (metis fst_conv snd_conv)+
  let ?w1 = "w\<lparr>env := e\<rparr>"
  have run: "pick_drift_reboot E recorder cluster drifting ms w =
      (case selectDriftRebootCandidate drifting (machines_by_id ms) t of
         None \<Rightarrow> await_cooldown E recorder cluster drifting
       | Some d \<Rightarrow> (case map_of (machines_by_id ms) (mcd_MachineID d) of
            None \<Rightarrow> io_raise (Panic ''nil pointer dereference'')
          | Some m \<Rightarrow> request_drift_reboot E recorder cluster t d m)) ?w1"
    using te by (simp add: pick_drift_reboot_def io_bind_def now_def ext_def Let_def)
  have s1: "reboot_step\<^sup>*\<^sup>* s (s\<lparr>rs_clock := C e\<rparr>)" "represents V C L F (s\<lparr>rs_clock := C e\<rparr>) ?w1"
    using s e step_tick [of s "C e"] by (simp_all add: represents_def)
  have quiet: "\<exists>s'. reboot_step\<^sup>*\<^sup>* s s' \<and> represents V C L F s' (snd (m ?w1))"
    if "later.leads V C L m" for m :: "('a, omni_cluster) io"
    using matched_quiet [OF that, of F "\<lambda>_. True"] s1 unfolding matched_def by (meson rtranclp_trans)
  have waits: "later.leads V C L (await_cooldown E recorder cluster drifting)"
    unfolding await_cooldown_def Let_def by (intro later.leads_rules leads_eventf leads_set_cluster_condition)
  show ?thesis
  proof (cases "selectDriftRebootCandidate drifting (machines_by_id ms) t")
    case None
    with quiet [OF waits] run show ?thesis by simp
  next
    case (Some d)
    show ?thesis
    proof (cases "map_of (machines_by_id ms) (mcd_MachineID d)")
      case None
      with Some quiet [OF later.leads_raise] run show ?thesis by simp
    next
      case (Some m)
      let ?update = "updateMachine E (request_reboot t (mcd_ManagementAddress d) m)"
      obtain s2 where s2: "reboot_step\<^sup>*\<^sup>* s s2" "represents V C L F s2 (snd (?update ?w1))"
        using run_request [OF api s V members idle \<open>selectDriftRebootCandidate _ _ _ = Some d\<close> Some e] by blast
      obtain f where f: "request_drift_reboot E recorder cluster t d m =
          io_bind (io_wrap (\<lambda>e. Wrapf (''request reboot for machine '' @ mcd_MachineID d @ '': '') e '''') ?update) f"
          "\<forall>x. later.leads V C L (f x)"
        using request_then_quiet [of E recorder cluster t d m V C L] by blast
      have "matched V C L F (\<lambda>_. True) (f x)" for x
        using f(2) by (intro matched_quiet) simp
      then have "\<exists>s'. reboot_step\<^sup>*\<^sup>* s2 s' \<and> represents V C L F s' (snd (request_drift_reboot E recorder cluster t d m ?w1))"
        using s2(2) unfolding f(1) matched_def
        by (cases "?update ?w1"; cases "fst (?update ?w1)") (auto simp: io_bind_def io_wrap_def)
      with s2(1) run \<open>selectDriftRebootCandidate _ _ _ = Some d\<close> Some show ?thesis
        by (auto intro: rtranclp_trans)
    qed
  qed
qed

lemma simulate_signal:
  assumes api: "machine_api E ns cn V C L" and s: "represents V C L F s w" and ns: "oc_Namespace cluster = ns"
    and fresh: "\<And>ms e. k8s_ListMachines E ns [(labelCluster, cn)] (env w) = (Inr ms, e) \<Longrightarrow>
      map core ms = V (env w) \<and> list_all (member_of ns cn) ms"
  shows "\<exists>s'. reboot_step\<^sup>*\<^sup>* s s' \<and>
    represents V C L F s' (snd (signalDriftReboots E recorder cluster cn drifting w))"
proof (cases "drifting = []")
  case True
  with matched_quiet [OF leads_set_cluster_condition] s show ?thesis
    unfolding matched_def by (simp add: signalDriftReboots_def) blast
next
  case False
  obtain r w1 where list: "listClusterMachines E ns cn w = (r, w1)"
    by (cases "listClusterMachines E ns cn w")
  have w1: "later V C L (env w) (env w1)"
    using later.leadsD [OF leads_state(8) [OF api] list] .
  let ?s1 = "s\<lparr>rs_clock := C (env w1)\<rparr>"
  have s1: "reboot_step\<^sup>*\<^sup>* s ?s1" "represents V C L F ?s1 w1"
    using s w1 step_tick [of s "C (env w1)"] by (simp_all add: represents_def later_def)
  show ?thesis
  proof (cases r)
    case (Inl err)
    with False list s1 ns show ?thesis
      by (auto simp: signalDriftReboots_def io_bind_def)
  next
    case (Inr ms)
    then have "k8s_ListMachines E ns [(labelCluster, cn)] (env w) = (Inr ms, env w1)"
      using list by (auto simp: listClusterMachines_def ext_def split: prod.splits)
    then have ms: "map core ms = V (env w)" "list_all (member_of ns cn) ms"
      using fresh by blast+
    have "\<exists>s'. reboot_step\<^sup>*\<^sup>* ?s1 s' \<and> represents V C L F s' (snd ((if anyRebootInFlight ms
        then set_cluster_condition E cluster
               (drift_condition cluster ConditionTrue ''PendingReboot''
                  ''A drift-remediation reboot is already in flight'')
        else pick_drift_reboot E recorder cluster drifting ms) w1))"
    proof (cases "anyRebootInFlight ms")
      case True
      with matched_quiet [OF leads_set_cluster_condition, of V C L F "\<lambda>_. True"] s1(2)
      show ?thesis unfolding matched_def by simp
    next
      case False
      with simulate_pick [OF api s1(2) _ ms(2)] ms(1) w1 show ?thesis
        by (simp add: later_def)
    qed
    with s1(1) False list Inr ns show ?thesis
      by (auto simp: signalDriftReboots_def io_bind_def intro: rtranclp_trans)
  qed
qed

end
