(* ===== verification/Protocol_Memory.thy ===== *)
theory Protocol_Memory
  imports Protocol_Passes Memory_Env
begin

text \<open>
  An environment in memory that meets the laws of \<open>Protocol_Passes\<close>: an API server that keeps an object
  under its namespace and name, writes the spec or the status and rounds times to the second, beside an
  Omni that logs the reboots it receives. Reads of this API server are always up to date.
\<close>

section \<open>An API server in memory\<close>

text \<open>
  Memory with the API server's ways: an object is found under its namespace and name, a write goes
  to the spec or to the status, and times are read back to the second.
\<close>

definition same_object :: "machine \<Rightarrow> machine \<Rightarrow> bool" where
  "same_object x y \<longleftrightarrow> m_Name y = m_Name x \<and> m_Namespace y = m_Namespace x"

fun objects :: "machine list \<Rightarrow> machine list" where
  "objects [] = []"
| "objects (x # xs) = x # filter (\<lambda>y. \<not> same_object x y) (objects xs)"

definition stored :: "machine \<Rightarrow> machine" where
  "stored m = m\<lparr>m_Spec := stored_spec (m_Spec m), m_Status := (m_Status m)
     \<lparr>mst_LastRebootTime := map_option to_second (mst_LastRebootTime (m_Status m))\<rparr>\<rparr>"

definition api_machines :: "memory \<Rightarrow> machine list" where
  "api_machines e = map stored (objects (mem_machines e))"

definition put_spec :: "machine \<Rightarrow> machine \<Rightarrow> machine" where
  "put_spec m x = (if same_object m x then x\<lparr>m_Meta := m_Meta m, m_Spec := m_Spec m\<rparr> else x)"

definition put_status :: "machine \<Rightarrow> machine \<Rightarrow> machine" where
  "put_status m x = (if same_object m x then x\<lparr>m_Status := m_Status m\<rparr> else x)"

definition api_ops :: "memory ops" where
  "api_ops = memory_ops
     \<lparr>k8s_GetMachine := (\<lambda>ns n e. found (find (object_named m_Meta ns n) (api_machines e)) e),
      k8s_ListMachines := (\<lambda>ns want e. (Inr (filter (\<lambda>m. m_Namespace m = ns \<and>
          carries_labels want (om_Labels (m_Meta m))) (api_machines e)), e)),
      k8s_UpdateMachine := (\<lambda>m e. (Inr (), e\<lparr>mem_machines := map (put_spec m) (mem_machines e)\<rparr>)),
      k8s_UpdateMachineStatus := (\<lambda>m e. (Inr (), e\<lparr>mem_machines := map (put_status m) (mem_machines e)\<rparr>))\<rparr>"

definition api_view :: "string \<Rightarrow> string \<Rightarrow> memory \<Rightarrow> machine list" where
  "api_view ns cn e = map core (filter (member_of ns cn) (api_machines e))"

lemma to_second_idem [simp]: "to_second (to_second t) = to_second t"
  unfolding to_second_def [of "to_second t"] using to_second(3) [of t] by simp

lemma stored_simps [simp]:
  "m_Meta (stored m) = m_Meta m" "same_object (stored x) y = same_object x y" "same_object x (stored y) = same_object x y"
  "member_of ns cn (stored m) = member_of ns cn m"
  by (simp_all add: stored_def same_object_def member_of_def)

lemma stored_whole: "whole_seconds (core (stored m))"
  by (simp add: whole_seconds_def stored_def stored_spec_def option.map_comp comp_def)

lemma objects_map:
  assumes "\<And>x. m_Name (f x) = m_Name x" "\<And>x. m_Namespace (f x) = m_Namespace x"
  shows "objects (map f xs) = map f (objects xs)"
  by (induction xs) (simp_all add: filter_map comp_def same_object_def assms)

lemma objects_distinct: "distinct (map (\<lambda>x. (m_Namespace x, m_Name x)) (objects xs))"
proof (induction xs)
  case (Cons x xs)
  then show ?case
    by (auto simp: same_object_def distinct_map inj_on_def)
qed simp

lemma objects_member_distinct: "distinct (map m_Name (filter (member_of ns cn) (objects xs)))"
  using objects_distinct [of xs] by (auto simp: distinct_map inj_on_def member_of_def)

lemma put_identity [simp]:
  "m_Name (put_spec m x) = m_Name x" "m_Namespace (put_spec m x) = m_Namespace x"
  "m_Name (put_status m x) = m_Name x" "m_Namespace (put_status m x) = m_Namespace x"
  by (simp_all add: put_spec_def put_status_def same_object_def)

lemma core_stored_put_spec:
  assumes "member_of ns cn m" and "m_Namespace x = ns"
  shows "core (stored (put_spec m x)) =
    (if m_Name (core (stored x)) = m_Name m then (core (stored x))\<lparr>m_Spec := stored_spec (m_Spec m)\<rparr> else core (stored x))"
  using assms by (auto simp: put_spec_def same_object_def core_def stored_def member_of_def empty_meta_def)

lemma core_stored_put_status:
  assumes "member_of ns cn m" and "m_Namespace x = ns"
  shows "core (stored (put_status m x)) =
    (if m_Name (core (stored x)) = m_Name m
     then (core (stored x))\<lparr>m_Status := (m_Status (core (stored x)))
       \<lparr>mst_LastRebootTime := map_option to_second (mst_LastRebootTime (m_Status m))\<rparr>\<rparr>
     else core (stored x))"
  using assms by (auto simp: put_status_def same_object_def core_def stored_def member_of_def empty_meta_def)

text \<open>A write keeps the members: the object written is one already.\<close>

lemma member_put:
  assumes m: "member_of ns cn m" and known: "m_Name m \<in> m_Name ` set (filter (member_of ns cn) (objects xs))"
    and x: "x \<in> set (objects xs)"
  shows "member_of ns cn (put_spec m x) = member_of ns cn x" and "member_of ns cn (put_status m x) = member_of ns cn x"
proof -
  obtain y where y: "y \<in> set (objects xs)" "member_of ns cn y" "m_Name y = m_Name m"
    using known by auto
  have "x = y" if "same_object m x"
    using objects_distinct [of xs] x y m that
    by (auto simp: distinct_map same_object_def member_of_def dest: inj_onD)
  then show "member_of ns cn (put_spec m x) = member_of ns cn x"
    using m y by (auto simp: put_spec_def member_of_def same_object_def)
  show "member_of ns cn (put_status m x) = member_of ns cn x"
    by (simp add: put_status_def member_of_def)
qed

lemma api_view_put:
  assumes m: "member_of ns cn m" and known: "m_Name m \<in> m_Name ` set (api_view ns cn e)"
  shows "api_view ns cn (e\<lparr>mem_machines := map (put_spec m) (mem_machines e)\<rparr>) = write_spec m (api_view ns cn e)"
    and "api_view ns cn (e\<lparr>mem_machines := map (put_status m) (mem_machines e)\<rparr>) = write_stamp m (api_view ns cn e)"
proof -
  let ?xs = "objects (mem_machines e)"
  have names: "map m_Name (api_view ns cn e) = map m_Name (filter (member_of ns cn) ?xs)"
    by (simp add: api_view_def api_machines_def filter_map comp_def)
  have known': "m_Name m \<in> m_Name ` set (filter (member_of ns cn) ?xs)"
    using known names by (metis list.set_map)
  have ns: "m_Namespace x = ns" if "member_of ns cn x" for x
    using that by (simp add: member_of_def)
  have keep: "filter (\<lambda>x. member_of ns cn (put_spec m x)) ?xs = filter (member_of ns cn) ?xs"
    "filter (\<lambda>x. member_of ns cn (put_status m x)) ?xs = filter (member_of ns cn) ?xs"
    using member_put [OF m known'] by (auto intro: filter_cong)
  show "api_view ns cn (e\<lparr>mem_machines := map (put_spec m) (mem_machines e)\<rparr>) = write_spec m (api_view ns cn e)"
    and "api_view ns cn (e\<lparr>mem_machines := map (put_status m) (mem_machines e)\<rparr>) = write_stamp m (api_view ns cn e)"
    unfolding api_view_def api_machines_def write_spec_def write_stamp_def
    by (simp_all add: objects_map filter_map comp_def keep ns core_stored_put_spec [OF m]
        core_stored_put_status [OF m] cong: map_cong)
qed

lemma api_fields:
  "k8s_GetMachine api_ops = (\<lambda>ns n e. found (find (object_named m_Meta ns n) (api_machines e)) e)"
  "k8s_ListMachines api_ops = (\<lambda>ns want e. (Inr (filter (\<lambda>m. m_Namespace m = ns \<and>
      carries_labels want (om_Labels (m_Meta m))) (api_machines e)), e))"
  "k8s_UpdateMachine api_ops = (\<lambda>m e. (Inr (), e\<lparr>mem_machines := map (put_spec m) (mem_machines e)\<rparr>))"
  "k8s_UpdateMachineStatus api_ops = (\<lambda>m e. (Inr (), e\<lparr>mem_machines := map (put_status m) (mem_machines e)\<rparr>))"
  "time_Now api_ops = (\<lambda>e. (mem_clock e, e\<lparr>mem_clock := mem_clock e + 1000000000\<rparr>))"
  "cosi_Get api_ops = mem_Get" "cosi_List api_ops = mem_List" "cosi_Create api_ops = mem_Create"
  "cosi_Update api_ops = mem_Update" "cosi_Teardown api_ops = mem_Teardown" "cosi_Destroy api_ops = mem_Destroy"
  "omni_Reboot api_ops = (\<lambda>cn a. omni_answer ())"
  by (simp_all add: api_ops_def memory_fields)

lemma member_of_labels:
  "member_of ns cn m \<longleftrightarrow> m_Namespace m = ns \<and> carries_labels [(labelCluster, cn)] (om_Labels (m_Meta m))"
  by (simp add: member_of_def carries_labels_def)

lemma api_later:
  "mem_machines e' = mem_machines e \<Longrightarrow> mem_clock e' = mem_clock e \<Longrightarrow>
    later (api_view ns cn) mem_clock (\<lambda>_. []) e e'"
  by (simp add: later_def api_view_def api_machines_def)

lemma api_machine_api: "machine_api api_ops ns cn (api_view ns cn) mem_clock (\<lambda>_. [])"
  unfolding machine_api_def
proof (intro conjI)
  show "machine_view (api_view ns cn)"
    using objects_member_distinct [of ns cn]
    by (auto simp: machine_view_def api_view_def api_machines_def filter_map comp_def list_all_iff stored_whole)
  show "machine_writes api_ops ns cn (api_view ns cn) mem_clock (\<lambda>_. [])"
    by (simp add: machine_writes_def api_fields api_view_put)
  show "machine_clock api_ops (api_view ns cn) mem_clock (\<lambda>_. [])"
    by (simp add: machine_clock_def api_fields api_view_def api_machines_def)
  show "machine_apart api_ops ns cn (api_view ns cn) mem_clock (\<lambda>_. [])"
    unfolding machine_apart_def api_fields
    by (auto intro!: api_later simp: found_def mem_Get_def mem_List_def mem_Create_def mem_Update_def
        mem_Teardown_def mem_Destroy_def omni_answer_def reboot_received_def)
qed

text \<open>Its reads are up to date.\<close>

lemma api_list_fresh:
  assumes "k8s_ListMachines api_ops ns [(labelCluster, cn)] e = (Inr ms, e')"
  shows "map core ms = api_view ns cn e" and "list_all (member_of ns cn) ms"
proof -
  have ms: "ms = filter (member_of ns cn) (api_machines e)"
    using assms by (auto simp: api_fields member_of_labels [abs_def])
  then show "map core ms = api_view ns cn e" "list_all (member_of ns cn) ms"
    by (simp_all add: api_view_def list_all_iff)
qed

lemma api_get_fresh:
  assumes "k8s_GetMachine api_ops ns name e = (Inr m, e')" and "member_of ns cn m"
  shows "core m \<in> set (api_view ns cn e)"
  using assms by (auto simp: api_fields found_def api_view_def dest!: find_SomeD split: option.splits)

section \<open>A log of reboots\<close>

text \<open>Any environment, with a log of the reboots that Omni took.\<close>

definition logged :: "('e \<Rightarrow> 'r \<times> 'e) \<Rightarrow> 'e \<times> int list \<Rightarrow> 'r \<times> ('e \<times> int list)" where
  "logged f s = (case s of (e, l) \<Rightarrow> case f e of (r, e') \<Rightarrow> (r, (e', l)))"

definition logged_reboot ::
  "('e \<Rightarrow> int) \<Rightarrow> ('e \<Rightarrow> (goerror + unit) \<times> 'e) \<Rightarrow> 'e \<times> int list \<Rightarrow> (goerror + unit) \<times> ('e \<times> int list)" where
  "logged_reboot C f s =
     (case s of (e, l) \<Rightarrow> case f e of (r, e') \<Rightarrow> (r, (e', if isl r then l else l @ [C e])))"

definition logging :: "('e \<Rightarrow> int) \<Rightarrow> 'e ops \<Rightarrow> ('e \<times> int list) ops" where
  "logging C E =
     \<lparr>k8s_GetCluster = (\<lambda>x y. logged (k8s_GetCluster E x y)),
      k8s_GetMachine = (\<lambda>x y. logged (k8s_GetMachine E x y)),
      k8s_GetSecret = (\<lambda>x y. logged (k8s_GetSecret E x y)),
      k8s_ListMachines = (\<lambda>x y. logged (k8s_ListMachines E x y)),
      k8s_CreateMachine = (\<lambda>x. logged (k8s_CreateMachine E x)),
      k8s_UpdateMachine = (\<lambda>x. logged (k8s_UpdateMachine E x)),
      k8s_DeleteMachine = (\<lambda>x y. logged (k8s_DeleteMachine E x y)),
      k8s_UpdateMachineStatus = (\<lambda>x. logged (k8s_UpdateMachineStatus E x)),
      k8s_UpdateCluster = (\<lambda>x. logged (k8s_UpdateCluster E x)),
      k8s_UpdateClusterStatus = (\<lambda>x. logged (k8s_UpdateClusterStatus E x)),
      k8s_DeleteSecret = (\<lambda>x y. logged (k8s_DeleteSecret E x y)),
      k8s_CreateOrUpdateSecret = (\<lambda>x y z. logged (k8s_CreateOrUpdateSecret E x y z)),
      k8s_ContainsFinalizer = k8s_ContainsFinalizer E,
      k8s_AddFinalizer = k8s_AddFinalizer E,
      k8s_RemoveFinalizer = k8s_RemoveFinalizer E,
      k8s_SetControllerReference = k8s_SetControllerReference E,
      k8s_SetStatusCondition = (\<lambda>s. k8s_SetStatusCondition E (fst s)),
      k8s_LabelSelectorAsSelector = k8s_LabelSelectorAsSelector E,
      k8s_LoadKubeconfig = k8s_LoadKubeconfig E,
      cosi_Get = (\<lambda>x y. logged (cosi_Get E x y)),
      cosi_List = (\<lambda>x y. logged (cosi_List E x y)),
      cosi_Create = (\<lambda>x. logged (cosi_Create E x)),
      cosi_Update = (\<lambda>x. logged (cosi_Update E x)),
      cosi_Teardown = (\<lambda>x y. logged (cosi_Teardown E x y)),
      cosi_Destroy = (\<lambda>x y. logged (cosi_Destroy E x y)),
      omni_New = omni_New E,
      omni_NewMachineSetNode = omni_NewMachineSetNode E,
      omni_NewConfigPatch = omni_NewConfigPatch E,
      omni_SetUncompressedData = omni_SetUncompressedData E,
      omni_GetUncompressedData = omni_GetUncompressedData E,
      omni_ControlPlanesResourceID = omni_ControlPlanesResourceID E,
      omni_LabelCluster = omni_LabelCluster E,
      omni_LabelMachineSet = omni_LabelMachineSet E,
      omni_LabelClusterMachine = omni_LabelClusterMachine E,
      omni_LabelControlPlaneRole = omni_LabelControlPlaneRole E,
      omni_LabelWorkerRole = omni_LabelWorkerRole E,
      omni_MachineStatusLabelAvailable = omni_MachineStatusLabelAvailable E,
      omni_Kubeconfig = (\<lambda>x y. logged (omni_Kubeconfig E x y)),
      omni_Reboot = (\<lambda>x y. logged_reboot C (omni_Reboot E x y)),
      time_Now = logged (time_Now E),
      time_FormatRFC3339 = time_FormatRFC3339 E,
      time_ParseRFC3339 = time_ParseRFC3339 E,
      json_Unmarshal = json_Unmarshal E,
      map_order = map_order E\<rparr>"

lemma logged_simps [simp]:
  "fst (logged f s) = fst (f (fst s))" "snd (logged f s) = (snd (f (fst s)), snd s)"
  by (simp_all add: logged_def split: prod.splits)

lemma logged_reboot_simps [simp]:
  "snd (logged_reboot C f s) =
     (snd (f (fst s)), if isl (fst (f (fst s))) then snd s else snd s @ [C (fst s)])"
  by (simp add: logged_reboot_def split: prod.splits)

lemma logging_machine_api:
  assumes "machine_api E ns cn V C (\<lambda>_. [])"
  shows "machine_api (logging C E) ns cn (V \<circ> fst) (C \<circ> fst) snd"
  unfolding machine_api_def
proof (intro conjI)
  show "machine_view (V \<circ> fst)"
    using assms by (simp add: machine_api_def machine_view_def)
  show "machine_writes (logging C E) ns cn (V \<circ> fst) (C \<circ> fst) snd"
    using assms by (simp add: machine_api_def machine_writes_def logging_def)
  show "machine_clock (logging C E) (V \<circ> fst) (C \<circ> fst) snd"
    using assms by (simp add: machine_api_def machine_clock_def logging_def)
  have "machine_apart E ns cn V C (\<lambda>_. [])"
    using assms by (simp add: machine_api_def)
  then show "machine_apart (logging C E) ns cn (V \<circ> fst) (C \<circ> fst) snd"
    unfolding machine_apart_def reboot_received_def later_def logging_def
    by simp (meson order_refl order_trans)
qed

lemma logging_reads:
  "k8s_ListMachines (logging C E) ns q (e, l) = (r, e', l') \<Longrightarrow> k8s_ListMachines E ns q e = (r, e')"
  "k8s_GetMachine (logging C E) ns n (e, l) = (s, e', l') \<Longrightarrow> k8s_GetMachine E ns n e = (s, e')"
  by (auto simp: logging_def logged_def split: prod.splits)

end
