(* ===== verification/Protocol_Refinement.thy ===== *)
theory Protocol_Refinement
  imports Protocol_Memory
begin

text \<open>
  Runs of the two reconcilers over an API server and an Omni that meet the laws of \<open>Protocol_Passes\<close>,
  with the history of the reboots Omni received: each is recorded as the machine, the time, and the
  request that the pass which asked for it had read. Every run is one of the reboot protocol, with the
  same machines, clock and history, so that the protocol's invariant holds of the passes. A pass is
  one step of a run. What a pass reads has to be up to date: the client reads from a cache, and
  \<open>Divergences\<close> shows what a read that lags behind does.
\<close>

section \<open>Runs\<close>

text \<open>The list of a cluster's machines is up to date if it is what the API server holds.\<close>

definition list_current :: "'e ops \<Rightarrow> string \<Rightarrow> string \<Rightarrow> ('e \<Rightarrow> machine list) \<Rightarrow> 'e \<Rightarrow> bool" where
  "list_current E ns cn V e \<longleftrightarrow> (\<forall>ms e'. k8s_ListMachines E ns [(labelCluster, cn)] e = (Inr ms, e') \<longrightarrow>
     map core ms = V e \<and> list_all (member_of ns cn) ms)"

text \<open>
  The passes of the two reconcilers and what happens between them: anything that leaves the machines
  of the cluster alone, reboots none and does not turn the clock back; a spec that is synced; machines
  that go, and machines that come, without a request or a stamp. A machine that was rebooted
  comes back no sooner than the cooldown after it.
\<close>

inductive controller_run ::
  "'e ops \<Rightarrow> string \<Rightarrow> string \<Rightarrow> ('e \<Rightarrow> machine list) \<Rightarrow> ('e \<Rightarrow> int) \<Rightarrow> ('e \<Rightarrow> int list) \<Rightarrow>
   reboot_history \<times> 'e world \<Rightarrow> reboot_history \<times> 'e world \<Rightarrow> bool"
  for E ns cn V C L where
  signal: "oc_Namespace cluster = ns \<Longrightarrow> list_current E ns cn V (env w) \<Longrightarrow>
    w' = snd (signalDriftReboots E recorder cluster cn drifting w) \<Longrightarrow>
    controller_run E ns cn V C L (h, w) (h, w')"
| machine: "k8s_GetMachine E ns name (env w) = (Inr m, e) \<Longrightarrow> member_of ns cn m \<Longrightarrow>
    core m \<in> set (V (env w)) \<Longrightarrow>
    w' = snd (MachineReconcile E (OmniClient E) recorder ns name w) \<Longrightarrow>
    h' = answered (m_Name m) (the (ms_RebootRequestedAt (m_Spec m)))
           (drop (length (L (env w))) (L (env w'))) @ h \<Longrightarrow>
    controller_run E ns cn V C L (h, w) (h', w')"
| others: "later V C L (env w) (env w') \<Longrightarrow> controller_run E ns cn V C L (h, w) (h, w')"
| sync: "m \<in> set (V (env w)) \<Longrightarrow> C (env w') = C (env w) \<Longrightarrow> L (env w') = L (env w) \<Longrightarrow>
    V (env w') = replace_machine (m\<lparr>m_Spec := m_Spec (syncedMachine m cn' set_id role spec)\<rparr>) (V (env w)) \<Longrightarrow>
    controller_run E ns cn V C L (h, w) (h, w')"
| leave: "C (env w') = C (env w) \<Longrightarrow> L (env w') = L (env w) \<Longrightarrow> V (env w') = filter P (V (env w)) \<Longrightarrow>
    controller_run E ns cn V C L (h, w) (h, w')"
| join: "V (env w) = xs @ ys \<Longrightarrow> V (env w') = xs @ m # ys \<Longrightarrow> C (env w') = C (env w) \<Longrightarrow>
    L (env w') = L (env w) \<Longrightarrow> m_Name m \<notin> m_Name ` set (xs @ ys) \<Longrightarrow>
    \<forall>t q. (m_Name m, t, q) \<in> set h \<longrightarrow> t + rebootCooldown \<le> C (env w) \<Longrightarrow>
    ms_RebootRequestedAt (m_Spec m) = None \<Longrightarrow> mst_LastRebootTime (m_Status m) = None \<Longrightarrow>
    controller_run E ns cn V C L (h, w) (h, w')"

definition protocol_state ::
  "('e \<Rightarrow> machine list) \<Rightarrow> ('e \<Rightarrow> int) \<Rightarrow> reboot_history \<times> 'e world \<Rightarrow> reboot_state" where
  "protocol_state V C x = \<lparr>rs_machines = V (env (snd x)), rs_clock = C (env (snd x)), rs_reboots = fst x\<rparr>"

text \<open>The log of Omni has grown by the times of the history's new entries.\<close>

definition log_grown :: "('e \<Rightarrow> int list) \<Rightarrow> reboot_history \<times> 'e world \<Rightarrow> reboot_history \<times> 'e world \<Rightarrow> bool" where
  "log_grown L x y \<longleftrightarrow> (\<exists>ts. L (env (snd y)) = L (env (snd x)) @ ts \<and>
     map (fst \<circ> snd) (fst y) = rev ts @ map (fst \<circ> snd) (fst x))"

lemma log_grown_trans: "log_grown L x y \<Longrightarrow> log_grown L y z \<Longrightarrow> log_grown L x z"
  unfolding log_grown_def by force

lemma represents_state: "F (L (env w)) = Some h \<Longrightarrow> represents V C L F (protocol_state V C (h, w)) w"
  by (simp add: represents_def protocol_state_def)

lemma state_represented:
  "represents V C L F s w \<Longrightarrow> F (L (env w)) = Some h \<Longrightarrow> s = protocol_state V C (h, w)"
  by (simp add: represents_def protocol_state_def)

lemma simulate_machine_pass:
  assumes api: "machine_api E ns cn V C L"
    and get: "k8s_GetMachine E ns name (env w) = (Inr m, e)" and member: "member_of ns cn m"
    and fresh: "core m \<in> set (V (env w))"
    and w': "w' = snd (MachineReconcile E (OmniClient E) recorder ns name w)"
    and h': "h' = answered (m_Name m) (the (ms_RebootRequestedAt (m_Spec m)))
      (drop (length (L (env w))) (L (env w'))) @ h"
  shows "reboot_step\<^sup>*\<^sup>* (protocol_state V C (h, w)) (protocol_state V C (h', w')) \<and> log_grown L (h, w) (h', w')"
proof -
  let ?F = "continued (L (env w)) (m_Name m) (the (ms_RebootRequestedAt (m_Spec m))) h"
  have "represents V C L ?F (protocol_state V C (h, w)) w"
    by (rule represents_state) (simp add: continued_def answered_def)
  from simulate_machine [OF api this get member fresh logs_continued, of recorder]
  obtain s where s: "reboot_step\<^sup>*\<^sup>* (protocol_state V C (h, w)) s" "represents V C L ?F s w'"
    unfolding w' by blast
  then have "?F (L (env w')) \<noteq> None"
    by (simp add: represents_def)
  then have grown: "prefix (L (env w)) (L (env w'))"
    by (auto simp: continued_def split: if_splits)
  then have "?F (L (env w')) = Some h'"
    by (simp add: continued_def h')
  with s(1) state_represented [OF s(2)] have "reboot_step\<^sup>*\<^sup>* (protocol_state V C (h, w)) (protocol_state V C (h', w'))"
    by simp
  moreover obtain ts where "L (env w') = L (env w) @ ts"
    using grown by (auto elim: prefixE)
  then have "log_grown L (h, w) (h', w')"
    by (auto simp: log_grown_def h' answered_def comp_def)
  ultimately show ?thesis by blast
qed

lemma simulate_signal_pass:
  assumes api: "machine_api E ns cn V C L" and ns: "oc_Namespace cluster = ns"
    and fresh: "list_current E ns cn V (env w)"
    and w': "w' = snd (signalDriftReboots E recorder cluster cn drifting w)"
  shows "reboot_step\<^sup>*\<^sup>* (protocol_state V C (h, w)) (protocol_state V C (h, w')) \<and> log_grown L (h, w) (h, w')"
proof -
  let ?F = "\<lambda>l. if l = L (env w) then Some h else None"
  have "represents V C L ?F (protocol_state V C (h, w)) w"
    by (rule represents_state) simp
  from simulate_signal [OF api this ns, of recorder drifting] fresh
  obtain s where s: "reboot_step\<^sup>*\<^sup>* (protocol_state V C (h, w)) s" "represents V C L ?F s w'"
    unfolding list_current_def w' by blast
  then have same: "L (env w') = L (env w)"
    by (simp add: represents_def split: if_splits)
  with s(1) state_represented [OF s(2), of h] show ?thesis
    by (simp add: log_grown_def)
qed

lemma simulate_run:
  assumes api: "machine_api E ns cn V C L"
  shows "controller_run E ns cn V C L x y \<Longrightarrow>
    reboot_step\<^sup>*\<^sup>* (protocol_state V C x) (protocol_state V C y) \<and> log_grown L x y"
proof (induction rule: controller_run.induct)
  case (signal cluster w w' recorder drifting h)
  then show ?case by (rule simulate_signal_pass [OF api])
next
  case (machine name w m e w' recorder h' h)
  then show ?case by (rule simulate_machine_pass [OF api])
next
  case (others w w' h)
  then show ?case
    using step_tick [of "protocol_state V C (h, w)" "C (env w')"]
    by (simp add: protocol_state_def later_def log_grown_def)
next
  case (sync m w w' cn' set_id role spec h)
  then have "reboot_step (protocol_state V C (h, w)) (protocol_state V C (h, w'))"
    using reboot_step.sync [of m "protocol_state V C (h, w)" cn' set_id role spec] by (simp add: protocol_state_def)
  with sync show ?case
    by (simp add: log_grown_def r_into_rtranclp)
next
  case (leave w' w P h)
  then have "reboot_step (protocol_state V C (h, w)) (protocol_state V C (h, w'))"
    using reboot_step.leave [of "protocol_state V C (h, w)" P] by (simp add: protocol_state_def)
  with leave show ?case
    by (simp add: log_grown_def r_into_rtranclp)
next
  case (join w xs ys w' m h)
  then have "reboot_step (protocol_state V C (h, w)) (protocol_state V C (h, w'))"
    using reboot_step.join [of "protocol_state V C (h, w)" xs ys m] by (simp add: protocol_state_def)
  with join show ?case
    by (simp add: log_grown_def r_into_rtranclp)
qed

lemma simulate_runs:
  assumes api: "machine_api E ns cn V C L" and runs: "(controller_run E ns cn V C L)\<^sup>*\<^sup>* x y"
  shows "reboot_step\<^sup>*\<^sup>* (protocol_state V C x) (protocol_state V C y)" and "log_grown L x y"
proof -
  have "reboot_step\<^sup>*\<^sup>* (protocol_state V C x) (protocol_state V C y) \<and> log_grown L x y"
    using runs
  proof (induction rule: rtranclp_induct)
    case base
    show ?case by (simp add: log_grown_def)
  next
    case (step y z)
    with simulate_run [OF api step(2)] show ?case
      by (meson rtranclp_trans log_grown_trans)
  qed
  then show "reboot_step\<^sup>*\<^sup>* (protocol_state V C x) (protocol_state V C y)" "log_grown L x y"
    by blast+
qed

definition fresh_machine :: "machine \<Rightarrow> bool" where
  "fresh_machine m \<longleftrightarrow> ms_RebootRequestedAt (m_Spec m) = None \<and> mst_LastRebootTime (m_Status m) = None"

lemma fresh_inv:
  assumes "machine_api E ns cn V C L" and "list_all fresh_machine (V (env w))"
  shows "reboot_inv (protocol_state V C ([], w))"
  using assms view_facts(1) [OF assms(1)]
  by (auto simp: protocol_state_def reboot_inv_def log_inv_def machine_inv_def list_all_iff fresh_machine_def
      rebootOwed_def)

section \<open>A run\<close>

text \<open>In memory: the cluster controller asks for a reboot, and the machine controller does it.\<close>

definition log_ops :: "(memory \<times> int list) ops" where
  "log_ops = logging mem_clock api_ops"

definition protocol_machine :: machine where
  "protocol_machine = sample_machine\<lparr>m_Spec := (m_Spec sample_machine)\<lparr>ms_RebootRequestedAt := None\<rparr>\<rparr>"

definition run_world :: "(memory \<times> int list) world" where
  "run_world = \<lparr>env = (empty_memory\<lparr>mem_machines := [protocol_machine]\<rparr>, []), calls = [], series = no_series\<rparr>"

definition signalled_world :: "(memory \<times> int list) world" where
  "signalled_world = snd (signalDriftReboots log_ops True sample_cluster ''c1'' [drifting_m1] run_world)"

definition rebooted_world :: "(memory \<times> int list) world" where
  "rebooted_world = snd (MachineReconcile log_ops (OmniClient log_ops) True ''ns'' ''m1'' signalled_world)"

abbreviation sample_run :: "reboot_history \<times> (memory \<times> int list) world \<Rightarrow> reboot_history \<times> (memory \<times> int list) world \<Rightarrow> bool" where
  "sample_run \<equiv> controller_run log_ops ''ns'' ''c1'' (api_view ''ns'' ''c1'' \<circ> fst) (mem_clock \<circ> fst) snd"

lemma sample_api: "machine_api log_ops ''ns'' ''c1'' (api_view ''ns'' ''c1'' \<circ> fst) (mem_clock \<circ> fst) snd"
  unfolding log_ops_def by (rule logging_machine_api [OF api_machine_api])

lemma signalled_machine:
  "fst (k8s_GetMachine log_ops ''ns'' ''m1'' (env signalled_world)) =
     Inr (request_reboot 1000000000000 ''10.0.0.1'' protocol_machine)"
  by code_simp

lemma sample_logs: "snd (env signalled_world) = []" "snd (env rebooted_world) = [1001000000000]"
  by code_simp+

lemma sample_view: "api_view ''ns'' ''c1'' (fst (env run_world)) = [core protocol_machine]"
  by (simp add: api_view_def api_machines_def run_world_def empty_memory_def member_of_def protocol_machine_def
      sample_machine_def empty_meta_def stored_def stored_spec_def zero_machine_status_def)

lemma log_reads:
  "list_current log_ops ns cn (api_view ns cn \<circ> fst) e"
  "k8s_GetMachine log_ops ns n e = (Inr m, e') \<Longrightarrow> member_of ns cn m \<Longrightarrow> core m \<in> set (api_view ns cn (fst e))"
proof -
  show "list_current log_ops ns cn (api_view ns cn \<circ> fst) e"
    unfolding list_current_def log_ops_def
    by (cases e) (auto dest!: logging_reads(1) dest: api_list_fresh)
  show "k8s_GetMachine log_ops ns n e = (Inr m, e') \<Longrightarrow> member_of ns cn m \<Longrightarrow> core m \<in> set (api_view ns cn (fst e))"
    unfolding log_ops_def by (cases e; cases e') (auto dest!: logging_reads(2) intro: api_get_fresh)
qed

lemma sample_runs: "sample_run\<^sup>*\<^sup>* ([], run_world) ([(''m1'', 1001000000000, 1000000000000)], rebooted_world)"
proof -
  have "sample_run ([], run_world) ([], signalled_world)"
    by (rule controller_run.signal [OF _ _ signalled_world_def])
      (simp_all add: sample_cluster_def empty_meta_def log_reads)
  moreover obtain m e where get: "k8s_GetMachine log_ops ''ns'' ''m1'' (env signalled_world) = (Inr m, e)"
      "m = request_reboot 1000000000000 ''10.0.0.1'' protocol_machine"
    using signalled_machine by (metis prod.collapse)
  have member: "member_of ''ns'' ''c1'' m"
    by (simp add: get(2) member_of_def request_reboot_def protocol_machine_def sample_machine_def empty_meta_def)
  have "sample_run ([], signalled_world) ([(''m1'', 1001000000000, 1000000000000)], rebooted_world)"
    by (rule controller_run.machine [OF get(1) member _ rebooted_world_def])
      (use log_reads(2) [OF get(1) member] in
        \<open>simp_all add: sample_logs answered_def get(2) request_reboot_def protocol_machine_def\<close>)
  ultimately show ?thesis
    by (meson converse_rtranclp_into_rtranclp r_into_rtranclp)
qed

section \<open>What holds of every run\<close>

text \<open>C1: From a cluster whose machines were never asked to reboot, and in every run of machine passes and
  drift steps that read the \<open>Machine\<close> objects as the API server has them: at most one machine of the
  cluster has a reboot owed, and Omni receives two reboots of one machine, for different requests, at
  least the cooldown apart, less the second that the rounding of stored times can take. Other
  writers only sync specs, delete machines and add ones that were not rebooted within the cooldown.\<close>

theorem reboots_one_at_a_time_and_spaced:
  assumes api: "machine_api E ns cn V C L" and runs: "(controller_run E ns cn V C L)\<^sup>*\<^sup>* ([], w) (h, w')"
    and fresh: "list_all fresh_machine (V (env w))"
  shows "length (filter owed (V (env w'))) \<le> 1 \<and>
    (\<forall>n t q t' q'. (n, t, q) \<in> set h \<longrightarrow> (n, t', q') \<in> set h \<longrightarrow> q < q' \<longrightarrow> t + rebootCooldown < t' + second)"
proof -
  have "reboot_inv (protocol_state V C (h, w'))"
    by (rule reboot_inv_reachable [OF simulate_runs(1) [OF api runs] fresh_inv [OF api fresh]])
  then show ?thesis
    unfolding reboot_inv_def log_inv_def spacing_def protocol_state_def by fastforce
qed

theorem reboots_one_at_a_time_and_spaced_witness:
  "sample_run\<^sup>*\<^sup>* ([], run_world) ([(''m1'', 1001000000000, 1000000000000)], rebooted_world) \<and>
   length (filter owed (api_view ''ns'' ''c1'' (fst (env rebooted_world)))) \<le> 1"
proof -
  have "list_all fresh_machine ((api_view ''ns'' ''c1'' \<circ> fst) (env run_world))"
    by (simp add: sample_view fresh_machine_def protocol_machine_def sample_machine_def zero_machine_status_def)
  from reboots_one_at_a_time_and_spaced [OF sample_api sample_runs this] sample_runs show ?thesis
    by simp
qed

text \<open>C2: Every run of machine passes and drift steps that read the \<open>Machine\<close> objects as the API server
  has them is a run of the reboot protocol, from the machines, the clock and the history of reboots
  before it to those after it; and the history has grown by the very reboots that Omni logged, in
  order, each with the machine and the request it answers.\<close>

theorem passes_refine_reboot_protocol:
  assumes api: "machine_api E ns cn V C L" and runs: "(controller_run E ns cn V C L)\<^sup>*\<^sup>* (h, w) (h', w')"
  shows "reboot_step\<^sup>*\<^sup>* \<lparr>rs_machines = V (env w), rs_clock = C (env w), rs_reboots = h\<rparr>
      \<lparr>rs_machines = V (env w'), rs_clock = C (env w'), rs_reboots = h'\<rparr> \<and>
    (\<exists>ts. L (env w') = L (env w) @ ts \<and> map (fst \<circ> snd) h' = rev ts @ map (fst \<circ> snd) h)"
  using simulate_runs [OF api runs] unfolding protocol_state_def log_grown_def by simp

theorem passes_refine_reboot_protocol_witness:
  "reboot_step\<^sup>*\<^sup>* \<lparr>rs_machines = [core protocol_machine], rs_clock = 1000000000000, rs_reboots = []\<rparr>
     \<lparr>rs_machines = api_view ''ns'' ''c1'' (fst (env rebooted_world)), rs_clock = mem_clock (fst (env rebooted_world)),
      rs_reboots = [(''m1'', 1001000000000, 1000000000000)]\<rparr>"
proof -
  have "mem_clock (fst (env run_world)) = 1000000000000"
    by (simp add: run_world_def empty_memory_def)
  with passes_refine_reboot_protocol [OF sample_api sample_runs] show ?thesis
    by (simp add: sample_view)
qed

end
