(* ===== verification/Env_Passes.thy ===== *)
theory Env_Passes
  imports Env_Preorder Cluster_Controller
begin

text \<open>
  The computations of both controllers move along a preorder where the calls they make do: once for every
  preorder, in groups by the calls that are needed. \<open>calm\<close> is about everything but the update of a
  \<open>Machine\<close> and the writes of the COSI state, \<open>calm_removals\<close> and \<open>calm_creates\<close> about those writes.
\<close>

context env_preorder
begin

definition moves :: "('e \<Rightarrow> 'r \<times> 'e) \<Rightarrow> bool" where
  "moves f \<longleftrightarrow> (\<forall>e. R e (snd (f e)))"

definition calm :: "'e ops \<Rightarrow> bool" where
  "calm E \<longleftrightarrow>
     (\<forall>ns n. moves (k8s_GetMachine E ns n)) \<and> (\<forall>ns l. moves (k8s_ListMachines E ns l)) \<and>
     (\<forall>m. moves (k8s_CreateMachine E m)) \<and> (\<forall>ns n. moves (k8s_DeleteMachine E ns n)) \<and>
     (\<forall>m. moves (k8s_UpdateMachineStatus E m)) \<and> (\<forall>ns n. moves (k8s_GetCluster E ns n)) \<and>
     (\<forall>c. moves (k8s_UpdateCluster E c)) \<and> (\<forall>c. moves (k8s_UpdateClusterStatus E c)) \<and>
     (\<forall>ns n. moves (k8s_GetSecret E ns n)) \<and> (\<forall>ns n. moves (k8s_DeleteSecret E ns n)) \<and>
     (\<forall>ns n f. moves (k8s_CreateOrUpdateSecret E ns n f)) \<and> (\<forall>cn a. moves (omni_Kubeconfig E cn a)) \<and>
     (\<forall>cn a. moves (omni_Reboot E cn a)) \<and> (\<forall>t i. moves (cosi_Get E t i)) \<and> (\<forall>t q. moves (cosi_List E t q)) \<and>
     moves (time_Now E)"

definition calm_removals :: "'e ops \<Rightarrow> bool" where
  "calm_removals E \<longleftrightarrow> (\<forall>t i. moves (cosi_Teardown E t i)) \<and> (\<forall>t i. moves (cosi_Destroy E t i))"

text \<open>A create of anything but a machine set node: nodes are the machine controller's.\<close>

definition calm_creates :: "'e ops \<Rightarrow> bool" where
  "calm_creates E \<longleftrightarrow> (\<forall>r. r_Type r \<noteq> MachineSetNodeType \<longrightarrow> moves (cosi_Create E r)) \<and> (\<forall>r. moves (cosi_Update E r))"

lemma moves_leads: "moves f \<Longrightarrow> leads (ext cs f)"
  by (simp add: moves_def leads_ext)

lemma calm_moves:
  assumes "calm E"
  shows "moves (k8s_GetMachine E ns n)" "moves (k8s_ListMachines E ns l)" "moves (k8s_CreateMachine E m)"
    "moves (k8s_DeleteMachine E ns n)" "moves (k8s_UpdateMachineStatus E m)" "moves (k8s_GetCluster E ns n)"
    "moves (k8s_UpdateCluster E c)" "moves (k8s_UpdateClusterStatus E c)" "moves (k8s_GetSecret E ns n)"
    "moves (k8s_DeleteSecret E ns n)" "moves (k8s_CreateOrUpdateSecret E ns n f)" "moves (omni_Kubeconfig E cn a)"
    "moves (omni_Reboot E cn m')" "moves (cosi_Get E t i)" "moves (cosi_List E t q)"
  using assms unfolding calm_def by simp_all

lemmas calm_calls = calm_moves [THEN moves_leads]

lemma calm_now: "calm E \<Longrightarrow> leads (now E)"
  unfolding now_def by (rule leads_ext) (auto simp: calm_def moves_def case_prod_unfold)

lemma calm_eventf: "leads (eventf recorder t r m)"
  unfolding eventf_def by (intro leads_rules leads_ext) (simp add: refl)

lemma calm_small:
  "leads (set_condition E conds c)"
  "leads write \<Longrightarrow> leads (write_if b write)"
  "leads m \<Longrightarrow> leads (IgnoreNotFound m)"
  unfolding set_condition_def write_if_def IgnoreNotFound_def by (intro leads_rules; assumption)+

lemma calm_state:
  assumes "calm E"
  shows "leads (StateGet E t i)" "leads (StateListAll E t q)"
  unfolding StateGet_def StateListAll_def by (intro leads_rules calm_calls [OF assms])+

lemma calm_record_connected: "calm E \<Longrightarrow> leads (record_connected E is health)"
  by (induction "is" arbitrary: health) (auto intro!: leads_rules calm_state)

lemmas calm_basic = leads_rules calm_eventf calm_small calm_calls calm_now calm_state calm_record_connected

text \<open>Reads of Omni.\<close>

lemma calm_client:
  assumes "calm E"
  shows "leads (ClusterOwner E cn)" "leads (GetClusterStatus E cn)" "leads (GetKubeconfig E cn)"
    "leads (GetDriftingMachines E cn)" "leads (ListMachineSetIDsForCluster E cn)" "leads (AllocatedMachineSetNodes E s)"
    "leads (SelectAvailableMachines E sel k)" "leads (MachineSetNodeHealth E s)" "leads (patches_of_machine E cn i)"
    "leads (RebootMachine E cn a)"
  unfolding ClusterOwner_def GetClusterStatus_def GetKubeconfig_def GetDriftingMachines_def
    ListMachineSetIDsForCluster_def AllocatedMachineSetNodes_def SelectAvailableMachines_def
    MachineSetNodeHealth_def patches_of_machine_def RebootMachine_def Let_def
  by (intro calm_basic assms)+

lemmas calm_reads = calm_basic calm_client

text \<open>\<open>Machine\<close> objects.\<close>

lemma calm_objects:
  assumes "calm E"
  shows "leads (deleteMachine E m)" "leads (deleteMachineSetMachines E cluster cn s)"
    "leads (createMachine E cluster cn s role i spec)" "leads (evict E recorder s active n)"
    "leads (scaleDown E recorder s role spec active deleting)"
    "leads (listMachineSetMachines E ns cn s)" "leads (listClusterMachines E ns cn)"
    "leads (deleteClusterMachines E cluster cn)" "leads (deleteKubeconfigSecrets E kns cn)"
  unfolding deleteMachine_def deleteMachineSetMachines_def listMachineSetMachines_def createMachine_def evict_def
    scaleDown_def listClusterMachines_def deleteClusterMachines_def deleteKubeconfigSecrets_def Let_def
  by (intro calm_reads assms)+

lemma calm_adoption:
  assumes "calm E"
  shows "leads (adoptBindings E recorder cluster cn s role spec bound hav existing)"
    "leads (createFresh E cluster cn s role spec fresh active claimed)"
    "leads (scaleUp E recorder cluster cn s role spec active claimed)"
    "leads (scaleTo E recorder cluster cn s role spec active deleting claimed)"
proof -
  show "leads (adoptBindings E recorder cluster cn s role spec bound hav existing)"
    by (induction bound arbitrary: hav existing) (auto intro!: calm_reads calm_objects assms)
  have fresh: "leads (createFresh E cluster cn s role spec fresh active claimed)" for fresh active claimed
    by (induction fresh arbitrary: active claimed) (auto intro!: calm_reads calm_objects assms)
  then show "leads (createFresh E cluster cn s role spec fresh active claimed)" .
  have up: "leads (scaleUp E recorder cluster cn s role spec active claimed)" for active claimed
    unfolding scaleUp_def Let_def by (intro calm_reads fresh assms)
  then show "leads (scaleUp E recorder cluster cn s role spec active claimed)" .
  show "leads (scaleTo E recorder cluster cn s role spec active deleting claimed)"
    unfolding scaleTo_def by (intro calm_reads calm_objects up assms)
qed

text \<open>The status, the conditions and the secrets.\<close>

lemma calm_status:
  assumes "calm E"
  shows "leads (cluster_setFailure E R' cluster before reason err)" "leads (observe_status E cluster alloc st)"
    "leads (set_cluster_condition E cluster c)" "leads (await_cooldown E recorder cluster drifting)"
    "leads (machine_setFailure E recorder machine mbefore reason err)"
    "leads (rebootAndFinish E (OmniClient E) recorder machine)"
  unfolding cluster_setFailure_def observe_status_def await_cooldown_def set_cluster_condition_def
    machine_setFailure_def rebootAndFinish_def rebootWhenOwed_def finishReconcile_def OmniClient_simps Let_def
  by (intro calm_reads assms)+

lemma calm_secrets:
  assumes "calm E"
  shows "leads (ensureSecret E R' cn)"
  unfolding ensureSecret_def ensureKubeconfigSecret_def ensureArgoCDClusterSecret_def refresh_due_def
    write_secret_def Let_def
  by (intro calm_reads assms)

text \<open>Where the update of a \<open>Machine\<close> moves along as well: the steps that write specs.\<close>

lemma calm_updates:
  assumes "calm E" and update: "\<And>m. leads (updateMachine E m)"
  shows "leads (syncSpecs E cn s role spec active)" "leads (signalDriftReboots E recorder cluster cn drifting)"
  unfolding syncSpecs_def syncMachineSpec_def signalDriftReboots_def pick_drift_reboot_def request_drift_reboot_def Let_def
  by (intro calm_reads calm_objects calm_status update assms)+

lemma calm_settle:
  assumes "calm E" and drift: "\<And>c d. leads (signalDriftReboots E (rc_Recorder R') c cn d)"
  shows "leads (settleCluster E R' cluster before cn alloc st)"
  unfolding settleCluster_def Let_def
  by (intro calm_reads calm_status calm_secrets drift assms)

section \<open>Writes of the COSI state\<close>

lemma calm_teardown:
  assumes "calm_removals E"
  shows "leads (StateTeardown E t i)" "leads (StateDestroy E t i)" "leads (teardownAndDestroy E t i d)"
    "leads (teardown_patches E d ps)"
proof -
  have moves: "moves (cosi_Teardown E t i)" "moves (cosi_Destroy E t i)" for t i
    using assms by (simp_all add: calm_removals_def)
  have one: "leads (teardownAndDestroy E t i d)" for t i d
    unfolding teardownAndDestroy_def StateTeardown_def StateDestroy_def by (intro leads_rules moves_leads moves)
  show "leads (StateTeardown E t i)" "leads (StateDestroy E t i)"
    unfolding StateTeardown_def StateDestroy_def by (intro moves_leads moves)+
  show "leads (teardownAndDestroy E t i d)" by (rule one)
  show "leads (teardown_patches E d ps)"
    by (induction ps) (auto intro!: leads_rules one)
qed

lemma calm_deletes:
  assumes "calm E" "calm_removals E"
  shows "leads (DeleteMachineSet E s)" "leads (DeleteMachineSetNode E i)"
    "leads (DeleteKernelArgsForMachine E i)" "leads (DeleteExtensionsConfigurationForMachineSet E s)"
    "leads (DeleteCluster E cn)" "leads (DeleteConfigPatchesForMachine E cn i)"
    "leads (PruneOrphanedConfigPatches E cn i keep)"
  unfolding DeleteMachineSet_def DeleteMachineSetNode_def DeleteKernelArgsForMachine_def
    DeleteExtensionsConfigurationForMachineSet_def DeleteCluster_def DeleteConfigPatchesForMachine_def
    PruneOrphanedConfigPatches_def
  by (intro calm_reads calm_teardown assms)+

lemma calm_release:
  assumes "calm E" "calm_removals E"
  shows "leads (releaseMachineOmni (OmniClient E) cn i)"
  unfolding releaseMachineOmni_def OmniClient_simps by (intro calm_reads calm_deletes assms)

lemma calm_teardowns:
  assumes "calm E" "calm_removals E"
  shows "leads (machine_teardown (OmniClient E) machine)" "leads (pruneOrphanedMachineSets E cluster cn)"
    "leads (deleteOmniResources E recorder kns cluster)"
  unfolding machine_teardown_def pruneOrphanedMachineSets_def pruneIfOrphaned_def pruneMachineSet_def releaseNodes_def
    deleteOmniResources_def deleteMachineSets_def Let_def
  by (intro calm_reads calm_objects calm_deletes calm_release assms)+

lemma calm_writes:
  assumes "calm_creates E"
  shows "r_Type r \<noteq> MachineSetNodeType \<Longrightarrow> leads (StateCreate E r)" "leads (StateUpdate E r)"
  using assms unfolding StateCreate_def StateUpdate_def calm_creates_def by (auto intro: moves_leads)

lemma other_types: "r_Type (with_spec x r) = type_of x" "r_Type (set_label k v r) = r_Type r"
  by (simp_all add: with_spec_def)

lemma calm_ensures:
  assumes "calm E" "calm_creates E"
  shows "leads (EnsureCluster E cn owner k t)" "leads (EnsureMachineSet E cn s role)"
    "leads (EnsureMachineSetExtensionsConfiguration E cn s exts)" "leads (EnsureMachineKernelArgs E i args)"
  unfolding EnsureCluster_def EnsureMachineSet_def EnsureMachineSetExtensionsConfiguration_def
    EnsureMachineKernelArgs_def Let_def
  by (intro calm_reads calm_writes assms; simp add: other_types)+

lemma calm_EnsureConfigPatch:
  assumes calm: "calm E" "calm_creates E"
  shows "leads (EnsureConfigPatch E p cn s i d)"
proof -
  have set: "leads (set_patch_data E data r)" for data r
    unfolding set_patch_data_def by (intro leads_rules)
  have "leads (StateCreate E (with_spec (ConfigPatchSpec c) r))" for c r
    by (rule calm_writes(1) [OF calm(2)]) (simp add: other_types)
  then have create: "leads (io_bind (set_patch_data E data r) (StateCreate E))" for data r
    unfolding set_patch_data_def
    by (cases "omni_SetUncompressedData E data (patch_data (r_Spec r))") (simp_all add: leads_def io_defs refl)
  show ?thesis
    unfolding EnsureConfigPatch_def Let_def
    by (rule leads_bind [OF leads_try [OF calm_state(1) [OF calm(1)]]], rule leads_sum,
        intro leads_if create leads_raise, intro calm_reads calm_writes set calm)
qed

lemma calm_machine_config:
  assumes "calm E" "calm_removals E" "calm_creates E"
  shows "leads (applyConfigPatches (OmniClient E) machine)" "leads (reconcileKernelArgs (OmniClient E) machine)"
    "leads (reconcileExtensions E cn s spec)"
  unfolding applyConfigPatches_def reconcileKernelArgs_def reconcileExtensions_def OmniClient_simps Let_def
  by (intro calm_reads calm_ensures calm_EnsureConfigPatch calm_deletes assms)+

end

end
