(* ===== verification/Binding_Laws.thy ===== *)
theory Binding_Laws
  imports Env_Passes
begin

text \<open>
  What the two controllers together do to the bindings of machines in Omni and to the finalizers that
  guard them. \<open>observer\<close> reads off an environment the machines bound in Omni, the \<open>Machine\<close> objects that
  hold the machine finalizer, and the versions of \<open>Machine\<close> objects the API server has served so far.
  \<open>binding_laws J\<close> states what is relied on of the API server and of Omni, where other passes, for the
  machines named in \<open>J\<close>, may act before and after every call.
\<close>

section \<open>Observing an environment\<close>

record 'e observer =
  ob_Nodes :: "'e \<Rightarrow> string set"
  ob_Held :: "'e \<Rightarrow> (string \<times> string) set"
  ob_Versions :: "'e \<Rightarrow> machine set"

definition m_key :: "machine \<Rightarrow> string \<times> string" where
  "m_key m = (m_Namespace m, m_Name m)"

text \<open>The bindings nothing will ever release: no \<open>Machine\<close> object of that name holds the finalizer.\<close>

definition leaked :: "'e observer \<Rightarrow> 'e \<Rightarrow> string set" where
  "leaked V e = {i \<in> ob_Nodes V e. \<forall>ns. (ns, i) \<notin> ob_Held V e}"

text \<open>
  What passes for the machines of \<open>K\<close> may do: only those become bound, and only while their finalizer is
  held; only those lose a finalizer, and only when they are not bound. Versions are not forgotten.
\<close>

definition acts :: "string set \<Rightarrow> 'e observer \<Rightarrow> 'e \<Rightarrow> 'e \<Rightarrow> bool" where
  "acts K V e e' \<longleftrightarrow> ob_Versions V e \<subseteq> ob_Versions V e' \<and>
     (\<forall>(ns, i) \<in> ob_Held V e. i \<in> K \<or> (ns, i) \<in> ob_Held V e') \<and>
     (\<forall>i \<in> ob_Nodes V e'. (i \<in> ob_Nodes V e \<and> (\<forall>ns. (ns, i) \<in> ob_Held V e \<longrightarrow> (ns, i) \<in> ob_Held V e')) \<or>
        (i \<in> K \<and> (\<exists>ns. (ns, i) \<in> ob_Held V e')))"

lemma acts_refl: "acts K V e e"
  by (auto simp: acts_def)

lemma acts_trans:
  assumes a: "acts K V e e1" and b: "acts K V e1 e2"
  shows "acts K V e e2"
  unfolding acts_def
proof (intro conjI ballI)
  show "ob_Versions V e \<subseteq> ob_Versions V e2"
    using a b by (auto simp: acts_def)
  show "case k of (ns, i) \<Rightarrow> i \<in> K \<or> (ns, i) \<in> ob_Held V e2" if "k \<in> ob_Held V e" for k
    using a b that by (cases k) (fastforce simp: acts_def)
  fix i
  assume "i \<in> ob_Nodes V e2"
  with b have "(i \<in> ob_Nodes V e1 \<and> (\<forall>ns. (ns, i) \<in> ob_Held V e1 \<longrightarrow> (ns, i) \<in> ob_Held V e2)) \<or>
      (i \<in> K \<and> (\<exists>ns. (ns, i) \<in> ob_Held V e2))"
    by (simp add: acts_def)
  moreover have "i \<in> ob_Nodes V e1 \<Longrightarrow> (i \<in> ob_Nodes V e \<and> (\<forall>ns. (ns, i) \<in> ob_Held V e \<longrightarrow> (ns, i) \<in> ob_Held V e1)) \<or>
      (i \<in> K \<and> (\<exists>ns. (ns, i) \<in> ob_Held V e1))"
    using a by (simp add: acts_def)
  ultimately show "(i \<in> ob_Nodes V e \<and> (\<forall>ns. (ns, i) \<in> ob_Held V e \<longrightarrow> (ns, i) \<in> ob_Held V e2)) \<or>
      (i \<in> K \<and> (\<exists>ns. (ns, i) \<in> ob_Held V e2))"
    by blast
qed

interpretation bind: env_preorder "acts K V" for K :: "string set" and V :: "'e observer"
  by unfold_locales (rule acts_refl, erule (1) acts_trans)

lemma acts_mono: "acts J V e e' \<Longrightarrow> J \<subseteq> K \<Longrightarrow> acts K V e e'"
  unfolding acts_def by fast

lemma leads_mono: "bind.leads J V m \<Longrightarrow> J \<subseteq> K \<Longrightarrow> bind.leads K V m"
  by (auto simp: bind.leads_def intro: acts_mono)

lemma acts_leaks_nothing: "acts K V e e' \<Longrightarrow> leaked V e' \<subseteq> leaked V e"
  unfolding acts_def leaked_def by fast

section \<open>The laws\<close>

text \<open>The effect of one call, with passes for the machines of \<open>J\<close> acting before and after it.\<close>

definition interleaved :: "string set \<Rightarrow> 'e observer \<Rightarrow> ('e \<Rightarrow> 'e \<Rightarrow> bool) \<Rightarrow> 'e \<Rightarrow> 'e \<Rightarrow> bool" where
  "interleaved J V effect e e' \<longleftrightarrow> (\<exists>e1 e2. acts J V e e1 \<and> effect e1 e2 \<and> acts J V e2 e')"

definition harmless :: "'e observer \<Rightarrow> 'e \<Rightarrow> 'e \<Rightarrow> bool" where
  "harmless V e e' \<longleftrightarrow> ob_Nodes V e' \<subseteq> ob_Nodes V e \<and> ob_Held V e \<subseteq> ob_Held V e' \<and>
     ob_Versions V e \<subseteq> ob_Versions V e'"

definition keeps :: "string set \<Rightarrow> 'e observer \<Rightarrow> ('e \<Rightarrow> 'r \<times> 'e) \<Rightarrow> bool" where
  "keeps J V f \<longleftrightarrow> (\<forall>e. interleaved J V (harmless V) e (snd (f e)))"

text \<open>
  A list shows versions that were served. A \<open>Machine\<close> read by name shows the object of that name, at the
  latest version or an earlier one; one seen live with its finalizer still holds it, for only a pass for
  this machine takes it off, after it saw the object being deleted, and the cache does not go back.
\<close>

definition machine_views :: "string set \<Rightarrow> 'e ops \<Rightarrow> 'e observer \<Rightarrow> bool" where
  "machine_views J E V \<longleftrightarrow>
     (\<forall>ns n e r e'. k8s_GetMachine E ns n e = (r, e') \<longrightarrow> interleaved J V (\<lambda>e1 e2. harmless V e1 e2 \<and>
        (\<forall>m. r = Inr m \<longrightarrow> m_key m = (ns, n) \<and>
           (m_DeletionTimestamp m = None \<longrightarrow> machineFinalizerName \<in> set (om_Finalizers (m_Meta m)) \<longrightarrow>
              (ns, n) \<in> ob_Held V e2))) e e') \<and>
     (\<forall>ns l e r e'. k8s_ListMachines E ns l e = (r, e') \<longrightarrow> interleaved J V (\<lambda>e1 e2. harmless V e1 e2 \<and>
        (\<forall>ms. r = Inr ms \<longrightarrow> set ms \<subseteq> ob_Versions V e2)) e e')"

text \<open>
  An update writes one object, and only over the version it was made from: an update that keeps the
  finalizers of that version takes none away. Deletion waits for the finalizers.
\<close>

definition keeps_finalizers :: "'e observer \<Rightarrow> 'e \<Rightarrow> machine \<Rightarrow> bool" where
  "keeps_finalizers V e m \<longleftrightarrow> machineFinalizerName \<in> set (om_Finalizers (m_Meta m)) \<or>
     (\<exists>m0 \<in> ob_Versions V e. m_key m0 = m_key m \<and> om_ResourceVersion (m_Meta m0) = om_ResourceVersion (m_Meta m) \<and>
        om_Finalizers (m_Meta m0) = om_Finalizers (m_Meta m))"

definition machine_edits :: "string set \<Rightarrow> 'e ops \<Rightarrow> 'e observer \<Rightarrow> bool" where
  "machine_edits J E V \<longleftrightarrow>
     (\<forall>m. keeps J V (k8s_CreateMachine E m)) \<and> (\<forall>m. keeps J V (k8s_UpdateMachineStatus E m)) \<and>
     (\<forall>ns n. keeps J V (k8s_DeleteMachine E ns n)) \<and>
     (\<forall>m e. interleaved J V (\<lambda>e1 e2.
        ob_Nodes V e2 \<subseteq> ob_Nodes V e1 \<and> ob_Versions V e1 \<subseteq> ob_Versions V e2 \<and>
        ob_Held V e1 - {m_key m} \<subseteq> ob_Held V e2 \<and>
        (keeps_finalizers V e1 m \<longrightarrow> ob_Held V e1 \<subseteq> ob_Held V e2)) e (snd (k8s_UpdateMachine E m e)))"

text \<open>
  Omni: a create binds the machine of its ID at most; a node that was destroyed or not found is gone.
\<close>

definition omni_edits :: "string set \<Rightarrow> 'e ops \<Rightarrow> 'e observer \<Rightarrow> bool" where
  "omni_edits J E V \<longleftrightarrow>
     (\<forall>t i. keeps J V (cosi_Get E t i)) \<and> (\<forall>t q. keeps J V (cosi_List E t q)) \<and> (\<forall>r. keeps J V (cosi_Update E r)) \<and>
     (\<forall>r e. interleaved J V (\<lambda>e1 e2.
        ob_Nodes V e2 \<subseteq> ob_Nodes V e1 \<union> (if r_Type r = MachineSetNodeType then {r_ID r} else {}) \<and>
        ob_Held V e1 \<subseteq> ob_Held V e2 \<and> ob_Versions V e1 \<subseteq> ob_Versions V e2) e (snd (cosi_Create E r e)))"

definition omni_removals :: "string set \<Rightarrow> 'e ops \<Rightarrow> 'e observer \<Rightarrow> bool" where
  "omni_removals J E V \<longleftrightarrow>
     (\<forall>t i e r e'. cosi_Teardown E t i e = (r, e') \<longrightarrow> interleaved J V (\<lambda>e1 e2. harmless V e1 e2 \<and>
        (\<forall>x. r = Inl x \<longrightarrow> t = MachineSetNodeType \<longrightarrow> IsNotFoundError x \<longrightarrow> i \<notin> ob_Nodes V e2)) e e') \<and>
     (\<forall>t i e r e'. cosi_Destroy E t i e = (r, e') \<longrightarrow> interleaved J V (\<lambda>e1 e2. harmless V e1 e2 \<and>
        ((\<forall>x. r = Inl x \<longrightarrow> IsNotFoundError x) \<longrightarrow> t = MachineSetNodeType \<longrightarrow> i \<notin> ob_Nodes V e2)) e e')"

text \<open>No other operation concerns bindings or \<open>Machine\<close> objects.\<close>

definition elsewhere :: "string set \<Rightarrow> 'e ops \<Rightarrow> 'e observer \<Rightarrow> bool" where
  "elsewhere J E V \<longleftrightarrow>
     (\<forall>ns n. keeps J V (k8s_GetCluster E ns n)) \<and> (\<forall>c. keeps J V (k8s_UpdateCluster E c)) \<and>
     (\<forall>c. keeps J V (k8s_UpdateClusterStatus E c)) \<and> (\<forall>ns n. keeps J V (k8s_GetSecret E ns n)) \<and>
     (\<forall>ns n. keeps J V (k8s_DeleteSecret E ns n)) \<and> (\<forall>ns n f. keeps J V (k8s_CreateOrUpdateSecret E ns n f)) \<and>
     (\<forall>cn a. keeps J V (omni_Kubeconfig E cn a)) \<and> (\<forall>cn a. keeps J V (omni_Reboot E cn a)) \<and> keeps J V (time_Now E)"

definition binding_laws :: "string set \<Rightarrow> 'e ops \<Rightarrow> 'e observer \<Rightarrow> bool" where
  "binding_laws J E V \<longleftrightarrow> machine_views J E V \<and> machine_edits J E V \<and> omni_edits J E V \<and>
     omni_removals J E V \<and> elsewhere J E V"

definition finalizer_helpers :: "'e ops \<Rightarrow> bool" where
  "finalizer_helpers E \<longleftrightarrow> (\<forall>fs f. k8s_ContainsFinalizer E fs f \<longleftrightarrow> f \<in> set fs) \<and>
     (\<forall>fs f. f \<in> set (k8s_AddFinalizer E fs f))"

section \<open>What the laws give for each call\<close>

lemma harmless_acts: "harmless V e e' \<Longrightarrow> acts K V e e'"
  unfolding harmless_def acts_def by fast

lemma interleaved_acts:
  assumes "interleaved J V effect e e'" and "\<And>e1 e2. acts J V e e1 \<Longrightarrow> effect e1 e2 \<Longrightarrow> acts K V e1 e2" and "J \<subseteq> K"
  shows "acts K V e e'"
  using assms unfolding interleaved_def by (meson acts_mono acts_trans)

lemma interleaved_stable:
  assumes "interleaved J V effect e e'" and "\<And>e1 e2. effect e1 e2 \<Longrightarrow> P e2"
    and "\<And>e1 e2. acts J V e1 e2 \<Longrightarrow> P e1 \<Longrightarrow> P e2"
  shows "P e'"
  using assms unfolding interleaved_def by blast

lemma held_stable: "acts J V e e' \<Longrightarrow> i \<notin> J \<Longrightarrow> (ns, i) \<in> ob_Held V e \<Longrightarrow> (ns, i) \<in> ob_Held V e'"
  unfolding acts_def by fast

lemma unbound_stable: "acts J V e e' \<Longrightarrow> i \<notin> J \<Longrightarrow> i \<notin> ob_Nodes V e \<Longrightarrow> i \<notin> ob_Nodes V e'"
  unfolding acts_def by fast

lemma served_stable: "acts J V e e' \<Longrightarrow> set ms \<subseteq> ob_Versions V e \<Longrightarrow> set ms \<subseteq> ob_Versions V e'"
  unfolding acts_def by fast

lemma keeps_call:
  assumes "\<And>e r e'. f e = (r, e') \<Longrightarrow> interleaved J V (\<lambda>e1 e2. harmless V e1 e2 \<and> Q e r e1 e2) e e'"
  shows "keeps J V f"
  unfolding keeps_def
proof
  fix e
  obtain r e' where "f e = (r, e')" by fastforce
  with assms [OF this] show "interleaved J V (harmless V) e (snd (f e))"
    by (auto simp: interleaved_def)
qed

lemmas law_reads = machine_views_def [THEN iffD1, THEN conjunct1, rule_format]
  machine_views_def [THEN iffD1, THEN conjunct2, rule_format]

lemmas law_removals = omni_removals_def [THEN iffD1, THEN conjunct1, rule_format]
  omni_removals_def [THEN iffD1, THEN conjunct2, rule_format]

lemma law_keeps:
  assumes "binding_laws J E V"
  shows
    "keeps J V (k8s_GetMachine E ns n)"
    "keeps J V (k8s_ListMachines E ns l)"
    "keeps J V (k8s_CreateMachine E m)"
    "keeps J V (k8s_DeleteMachine E ns n)"
    "keeps J V (k8s_UpdateMachineStatus E m)"
    "keeps J V (k8s_GetCluster E ns n)"
    "keeps J V (k8s_UpdateCluster E c)"
    "keeps J V (k8s_UpdateClusterStatus E c)"
    "keeps J V (k8s_GetSecret E ns n)"
    "keeps J V (k8s_DeleteSecret E ns n)"
    "keeps J V (k8s_CreateOrUpdateSecret E ns n f)"
    "keeps J V (omni_Kubeconfig E cn a)"
    "keeps J V (omni_Reboot E cn a')"
    "keeps J V (cosi_Get E t i)"
    "keeps J V (cosi_List E t q)"
    "keeps J V (cosi_Update E r)"
    "keeps J V (cosi_Teardown E t i)"
    "keeps J V (cosi_Destroy E t i)"
proof -
  have views: "machine_views J E V" and gone: "omni_removals J E V"
    using assms by (simp_all add: binding_laws_def)
  show "keeps J V (k8s_GetMachine E ns n)" by (rule keeps_call) (erule law_reads(1) [OF views])
  show "keeps J V (k8s_ListMachines E ns l)" by (rule keeps_call) (erule law_reads(2) [OF views])
  show "keeps J V (cosi_Teardown E t i)" by (rule keeps_call) (erule law_removals(1) [OF gone])
  show "keeps J V (cosi_Destroy E t i)" by (rule keeps_call) (erule law_removals(2) [OF gone])
qed (use assms in \<open>simp_all add: binding_laws_def machine_edits_def omni_edits_def elsewhere_def\<close>)

text \<open>What a read, a create, an update and a removal leave true, for a machine no other pass is acting for.\<close>

lemma get_held:
  assumes "binding_laws J E V" and "n \<notin> J" and "k8s_GetMachine E ns n e = (Inr m, e')"
  shows "m_key m = (ns, n)" "m_DeletionTimestamp m = None \<Longrightarrow> machineFinalizerName \<in> set (om_Finalizers (m_Meta m)) \<Longrightarrow>
    (ns, n) \<in> ob_Held V e'"
proof -
  have "interleaved J V (\<lambda>e1 e2. harmless V e1 e2 \<and> (\<forall>m'. Inr m = (Inr m' :: goerror + machine) \<longrightarrow> m_key m' = (ns, n) \<and>
      (m_DeletionTimestamp m' = None \<longrightarrow> machineFinalizerName \<in> set (om_Finalizers (m_Meta m')) \<longrightarrow>
        (ns, n) \<in> ob_Held V e2))) e e'"
    using law_reads(1) [OF _ assms(3)] assms(1) by (simp add: binding_laws_def)
  then obtain e2 where e2: "m_key m = (ns, n)" "acts J V e2 e'"
      "m_DeletionTimestamp m = None \<Longrightarrow> machineFinalizerName \<in> set (om_Finalizers (m_Meta m)) \<Longrightarrow> (ns, n) \<in> ob_Held V e2"
    unfolding interleaved_def by auto
  show "m_key m = (ns, n)" by (rule e2(1))
  show "(ns, n) \<in> ob_Held V e'" if "m_DeletionTimestamp m = None" "machineFinalizerName \<in> set (om_Finalizers (m_Meta m))"
    using held_stable [OF e2(2) assms(2) e2(3)] that .
qed

lemma list_served:
  assumes "binding_laws J E V" and "k8s_ListMachines E ns l e = (Inr ms, e')"
  shows "set ms \<subseteq> ob_Versions V e'"
proof (rule interleaved_stable [OF law_reads(2) [OF _ assms(2)]])
  show "machine_views J E V" using assms(1) by (simp add: binding_laws_def)
qed (simp, erule (1) served_stable)

lemma removed_unbound:
  assumes "binding_laws J E V" and "i \<notin> J"
  shows "cosi_Teardown E MachineSetNodeType i e = (Inl x, e') \<Longrightarrow> IsNotFoundError x \<Longrightarrow> i \<notin> ob_Nodes V e'"
    and "cosi_Destroy E MachineSetNodeType i e = (r, e') \<Longrightarrow> (\<And>x. r = Inl x \<Longrightarrow> IsNotFoundError x) \<Longrightarrow> i \<notin> ob_Nodes V e'"
proof -
  have gone: "omni_removals J E V" using assms(1) by (simp add: binding_laws_def)
  show "i \<notin> ob_Nodes V e'" if "cosi_Teardown E MachineSetNodeType i e = (Inl x, e')" "IsNotFoundError x"
    by (rule interleaved_stable [OF law_removals(1) [OF gone that(1)]])
      (use that(2) in simp, erule (1) unbound_stable [OF _ assms(2)])
  show "i \<notin> ob_Nodes V e'" if "cosi_Destroy E MachineSetNodeType i e = (r, e')" "\<And>x. r = Inl x \<Longrightarrow> IsNotFoundError x"
    by (rule interleaved_stable [OF law_removals(2) [OF gone that(1)]])
      (use that(2) in simp, erule (1) unbound_stable [OF _ assms(2)])
qed

lemma update_acts:
  assumes laws: "binding_laws J E V"
  shows "keeps_finalizers V e m \<Longrightarrow> acts J V e (snd (k8s_UpdateMachine E m e))"
    and "m_key m = (ns, n) \<Longrightarrow> n \<notin> J \<Longrightarrow> n \<notin> ob_Nodes V e \<Longrightarrow> acts (insert n J) V e (snd (k8s_UpdateMachine E m e))"
proof -
  have law: "interleaved J V (\<lambda>e1 e2. ob_Nodes V e2 \<subseteq> ob_Nodes V e1 \<and> ob_Versions V e1 \<subseteq> ob_Versions V e2 \<and>
      ob_Held V e1 - {m_key m} \<subseteq> ob_Held V e2 \<and>
      (keeps_finalizers V e1 m \<longrightarrow> ob_Held V e1 \<subseteq> ob_Held V e2)) e (snd (k8s_UpdateMachine E m e))"
    using laws by (simp add: binding_laws_def machine_edits_def)
  show "acts J V e (snd (k8s_UpdateMachine E m e))" if "keeps_finalizers V e m"
  proof (rule interleaved_acts [OF law _ subset_refl])
    fix e1 e2
    assume "acts J V e e1"
    with that have "keeps_finalizers V e1 m" unfolding keeps_finalizers_def acts_def by blast
    then show "acts J V e1 e2" if "ob_Nodes V e2 \<subseteq> ob_Nodes V e1 \<and> ob_Versions V e1 \<subseteq> ob_Versions V e2 \<and>
        ob_Held V e1 - {m_key m} \<subseteq> ob_Held V e2 \<and> (keeps_finalizers V e1 m \<longrightarrow> ob_Held V e1 \<subseteq> ob_Held V e2)"
      using that by (auto intro!: harmless_acts simp: harmless_def)
  qed
  show "acts (insert n J) V e (snd (k8s_UpdateMachine E m e))"
    if key: "m_key m = (ns, n)" and n: "n \<notin> J" "n \<notin> ob_Nodes V e"
  proof (rule interleaved_acts [OF law])
    fix e1 e2
    assume "acts J V e e1"
    with n have "n \<notin> ob_Nodes V e1" by (blast dest: unbound_stable)
    then show "acts (insert n J) V e1 e2" if "ob_Nodes V e2 \<subseteq> ob_Nodes V e1 \<and> ob_Versions V e1 \<subseteq> ob_Versions V e2 \<and>
        ob_Held V e1 - {m_key m} \<subseteq> ob_Held V e2 \<and> (keeps_finalizers V e1 m \<longrightarrow> ob_Held V e1 \<subseteq> ob_Held V e2)"
      using that key unfolding acts_def by (intro conjI ballI) auto
  qed blast
qed

lemma create_acts:
  assumes laws: "binding_laws J E V"
  shows "r_Type r \<noteq> MachineSetNodeType \<Longrightarrow> acts J V e (snd (cosi_Create E r e))"
    and "r_ID r \<notin> J \<Longrightarrow> (ns, r_ID r) \<in> ob_Held V e \<Longrightarrow> acts (insert (r_ID r) J) V e (snd (cosi_Create E r e))"
proof -
  have law: "interleaved J V (\<lambda>e1 e2.
      ob_Nodes V e2 \<subseteq> ob_Nodes V e1 \<union> (if r_Type r = MachineSetNodeType then {r_ID r} else {}) \<and>
      ob_Held V e1 \<subseteq> ob_Held V e2 \<and> ob_Versions V e1 \<subseteq> ob_Versions V e2) e (snd (cosi_Create E r e))"
    using laws by (simp add: binding_laws_def omni_edits_def)
  show "acts J V e (snd (cosi_Create E r e))" if "r_Type r \<noteq> MachineSetNodeType"
    by (rule interleaved_acts [OF law _ subset_refl]) (use that in \<open>auto intro!: harmless_acts simp: harmless_def\<close>)
  show "acts (insert (r_ID r) J) V e (snd (cosi_Create E r e))" if n: "r_ID r \<notin> J" "(ns, r_ID r) \<in> ob_Held V e"
  proof (rule interleaved_acts [OF law])
    fix e1 e2
    assume "acts J V e e1"
    with n have "(ns, r_ID r) \<in> ob_Held V e1" by (blast dest: held_stable)
    then show "acts (insert (r_ID r) J) V e1 e2" if "ob_Nodes V e2 \<subseteq> ob_Nodes V e1 \<union> (if r_Type r = MachineSetNodeType then {r_ID r} else {}) \<and>
        ob_Held V e1 \<subseteq> ob_Held V e2 \<and> ob_Versions V e1 \<subseteq> ob_Versions V e2"
      using that unfolding acts_def by (fastforce split: if_splits)
  qed blast
qed

end
