(* ===== verification/Binding_Passes.thy ===== *)
theory Binding_Passes
  imports Binding_Laws Drift_Properties
begin

text \<open>
  The passes of the two controllers under \<open>binding_laws\<close>: a pass of the cluster controller binds nothing
  and takes no finalizer away; a pass for one machine acts for that machine only, binding it while its
  finalizer is held and releasing the finalizer once it is unbound.
\<close>

section \<open>The calls\<close>

lemma keeps_moves: "keeps J V f \<Longrightarrow> bind.moves J V f"
  unfolding keeps_def bind.moves_def by (rule allI, rule interleaved_acts [OF _ harmless_acts subset_refl]) blast+

lemma laws_calm:
  assumes laws: "binding_laws J E V"
  shows "bind.calm J V E" "bind.calm_removals J V E" "bind.calm_creates J V E"
proof -
  have "keeps J V (time_Now E)"
    using laws by (simp add: binding_laws_def elsewhere_def)
  then show "bind.calm J V E" "bind.calm_removals J V E"
    unfolding bind.calm_def bind.calm_removals_def using law_keeps [OF laws] by (simp_all add: keeps_moves)
  show "bind.calm_creates J V E"
    unfolding bind.calm_creates_def
    using create_acts(1) [OF laws] law_keeps(16) [OF laws, THEN keeps_moves] by (simp add: bind.moves_def)
qed

section \<open>The cluster controller\<close>

text \<open>An update made from a version that was served keeps the finalizers of that version.\<close>

abbreviation served :: "'e observer \<Rightarrow> machine list \<Rightarrow> 'e \<Rightarrow> bool" where
  "served V ms e \<equiv> set ms \<subseteq> ob_Versions V e"

lemma kept_served: "bind.kept J V (served V ms)"
  by (auto simp: bind.kept_def acts_def)

lemma listed_served:
  assumes "binding_laws J E V" and "ext cs (k8s_ListMachines E ns l) w = (Inr ms, w')"
  shows "served V ms (env w')"
proof (rule list_served [OF assms(1)])
  show "k8s_ListMachines E ns l (env w) = (Inr ms, env w')"
    using assms(2) by (auto simp: ext_def split: prod.splits)
qed

lemma leads_update_served:
  assumes laws: "binding_laws J E V" and m: "m \<in> set ms" and key: "m_key m' = m_key m"
    and rv: "om_ResourceVersion (m_Meta m') = om_ResourceVersion (m_Meta m)"
    and fs: "om_Finalizers (m_Meta m') = om_Finalizers (m_Meta m)"
  shows "bind.leads_from J V (served V ms) (updateMachine E m')"
proof (rule bind.leads_from_ext)
  fix e
  assume "served V ms e"
  with m key rv fs have "keeps_finalizers V e m'"
    unfolding keeps_finalizers_def by (metis subsetD)
  then show "acts J V e (snd (k8s_UpdateMachine E m' e))"
    by (rule update_acts(1) [OF laws])
qed

lemma leads_syncSpecs:
  assumes laws: "binding_laws J E V" and active: "\<And>m. m \<in> set active \<Longrightarrow> m \<in> set ms \<or> om_ResourceVersion (m_Meta m) = ''''"
  shows "bind.leads_from J V (served V ms) (syncSpecs E cn s role spec active)"
  unfolding syncSpecs_def
proof (rule bind.leads_from_for [OF kept_served])
  fix m
  assume m: "m \<in> set active"
  show "bind.leads_from J V (served V ms) (if om_ResourceVersion (m_Meta m) = '''' then io_ret ()
     else io_wrap (\<lambda>e. Wrapf (''sync machine '' @ m_Name m @ '' spec: '') e '''') (syncMachineSpec E m cn s role spec))"
  proof (cases "om_ResourceVersion (m_Meta m) = ''''")
    case False
    with active m have "m \<in> set ms" by blast
    then have "bind.leads_from J V (served V ms) (updateMachine E (syncedMachine m cn s role spec))"
      by (rule leads_update_served [OF laws]) (simp_all add: syncedMachine_def Let_def m_key_def)
    then have "bind.leads_from J V (served V ms) (syncMachineSpec E m cn s role spec)"
      unfolding syncMachineSpec_def Let_def by (auto intro: bind.leads_from_leads bind.leads_ret)
    with False show ?thesis by (simp add: bind.leads_from_wrap)
  qed (simp add: bind.leads_from_leads bind.leads_ret)
qed

lemma active_origin:
  assumes run: "scaleTo E recorder cluster cn s role spec active deleting claimed w = (Inr (active', claimed'), w')"
    and m: "m \<in> set active'"
  shows "m \<in> set active \<or> om_ResourceVersion (m_Meta m) = ''''"
proof (cases "int (length active)" "mss_Replicas spec" rule: linorder_cases)
  case less
  with run have "scaleUp E recorder cluster cn s role spec active claimed w = (Inr (active', claimed'), w')"
    by (simp add: scaleTo_def)
  from run_scaleUp [OF this less refl] obtain fresh where "active' = active @ map (synthetic_machine '''') fresh"
    by metis
  with m show ?thesis by (auto simp: synthetic_machine_def empty_meta_def)
next
  case equal
  with run m show ?thesis by (auto simp: scaleTo_def io_iff)
next
  case greater
  with run obtain w1 where "scaleDown E recorder s role spec active deleting w = (Inr active', w1)"
    by (auto simp: scaleTo_def io_iff)
  then obtain k health where "active' = drop k (sort_for_removal health active)"
    using run_scaleDown by metis
  with m have "m \<in> set (sort_for_removal health active)" by (metis in_set_dropD)
  then show ?thesis by (simp add: sort_for_removal_def)
qed

lemma leads_allocation:
  assumes laws: "binding_laws J E V"
  shows "bind.leads J V (reconcileMachineSetAllocation E recorder cluster cn s role spec claimed)"
  unfolding reconcileMachineSetAllocation_def
proof (rule bind.leads_learn [where Q = "served V"])
  show "bind.leads J V (io_wrap g (listMachineSetMachines E ns cn s))" for g ns
    unfolding listMachineSetMachines_def by (intro bind.calm_reads laws laws_calm [OF laws])
  show "served V ms (env w')"
    if "io_wrap g (listMachineSetMachines E ns cn s) w = (Inr ms, w')" for g ns w ms w'
    using that listed_served [OF laws] by (simp add: io_iff listMachineSetMachines_def)
  fix listed
  show "bind.leads_from J V (served V listed)
     (io_bind (io_wrap (\<lambda>e. Wrapf (''list omni bindings for '' @ s @ '': '') e '''')
                (AllocatedMachineSetNodes E s)) (\<lambda>bound.
     io_bind (adoptBindings E recorder cluster cn s role spec bound (map m_Name listed) listed) (\<lambda>existing.
     io_bind (scaleTo E recorder cluster cn s role spec (active_of existing) (deleting_of existing)
                (claim_all (map m_Name existing) claimed)) (\<lambda>(active, claimed').
     io_bind (syncSpecs E cn s role spec active) (\<lambda>_.
     io_bind (reconcileExtensions E cn s spec) (\<lambda>_. io_ret (map m_Name active, claimed')))))))"
  proof (rule bind.leads_from_bind [OF kept_served], intro bind.leads_from_leads bind.calm_reads laws laws_calm [OF laws],
      rule bind.leads_from_bind [OF kept_served], intro bind.leads_from_leads bind.calm_adoption laws laws_calm [OF laws],
      rule bind.leads_from_bind [OF kept_served], intro bind.leads_from_leads bind.calm_adoption laws laws_calm [OF laws])
    fix bound existing r and w w1 w2 w3 :: "'a world"
    assume adopt: "adoptBindings E recorder cluster cn s role spec bound (map m_Name listed) listed w = (Inr existing, w1)"
      and run: "scaleTo E recorder cluster cn s role spec (active_of existing) (deleting_of existing)
        (claim_all (map m_Name existing) claimed) w2 = (Inr r, w3)"
    obtain active claimed' where r: "r = (active, claimed')" by fastforce
    have "m \<in> set existing \<Longrightarrow> m \<in> set listed \<or> om_ResourceVersion (m_Meta m) = []" for m
      using run_adoptBindings [OF adopt] by (auto simp: synthetic_machine_def empty_meta_def)
    then have "m \<in> set active \<Longrightarrow> m \<in> set listed \<or> om_ResourceVersion (m_Meta m) = []" for m
      using active_origin [OF run [unfolded r]] by (auto simp: active_of_def)
    then show "bind.leads_from J V (served V listed) (case r of (active, claimed') \<Rightarrow>
        io_bind (syncSpecs E cn s role spec active) (\<lambda>_.
        io_bind (reconcileExtensions E cn s spec) (\<lambda>_. io_ret (map m_Name active, claimed'))))"
      unfolding r prod.case
      by (intro bind.leads_from_bind kept_served leads_syncSpecs laws laws_calm [OF laws] bind.leads_from_leads bind.calm_objects bind.calm_release bind.calm_machine_config bind.leads_ret)
  qed
qed

lemma leads_drift:
  assumes laws: "binding_laws J E V"
  shows "bind.leads J V (signalDriftReboots E recorder cluster cn drifting)"
proof -
  have request: "bind.leads_from J V (served V ms) (request_drift_reboot E recorder cluster t d m)" if "m \<in> set ms" for ms t d m
    unfolding request_drift_reboot_def
    by (intro bind.leads_from_bind kept_served bind.leads_from_wrap leads_update_served [OF laws that]
        bind.leads_from_leads bind.calm_reads bind.calm_status laws laws_calm [OF laws]) (simp_all add: request_reboot_def m_key_def)
  have pick: "bind.leads_from J V (served V ms) (pick_drift_reboot E recorder cluster drifting ms)" for ms
    unfolding pick_drift_reboot_def Let_def
  proof (rule bind.leads_from_bind [OF kept_served])
    show "bind.leads_from J V (served V ms) (now E)"
      by (intro bind.leads_from_leads bind.calm_now laws laws_calm [OF laws])
    show "bind.leads_from J V (served V ms) (case selectDriftRebootCandidate drifting (machines_by_id ms) t of
        None \<Rightarrow> await_cooldown E recorder cluster drifting
      | Some candidate \<Rightarrow> (case map_of (machines_by_id ms) (mcd_MachineID candidate) of
            None \<Rightarrow> io_raise (Panic ''nil pointer dereference'')
          | Some m \<Rightarrow> request_drift_reboot E recorder cluster t candidate m))" for t
      using map_of_machines_by_id
      by (fastforce split: option.split intro: request bind.leads_from_leads bind.calm_status laws laws_calm [OF laws] bind.leads_raise)
  qed
  have "bind.leads J V (io_bind (listClusterMachines E ns cn) (\<lambda>machines.
      if anyRebootInFlight machines then set_cluster_condition E cluster c
      else pick_drift_reboot E recorder cluster drifting machines))" for ns c
    by (rule bind.leads_learn [where Q = "served V"])
      (auto simp: listClusterMachines_def intro: pick listed_served [OF laws, THEN subsetD] bind.calm_calls bind.calm_status
        laws_calm [OF laws] bind.leads_from_leads)
  then show ?thesis
    unfolding signalDriftReboots_def by (intro bind.calm_status laws laws_calm [OF laws] bind.leads_if)
qed

lemma leads_allocateMachineSet:
  assumes "binding_laws J E V"
  shows "bind.leads J V (allocateMachineSet E R cluster before cn s omniRole role r1 r2 spec alloc)"
  unfolding allocateMachineSet_def by (intro bind.calm_reads leads_allocation bind.calm_ensures bind.calm_status assms laws_calm [OF assms])

lemma leads_allocateWorkerSets:
  assumes "binding_laws J E V"
  shows "bind.leads J V (allocateWorkerSets E R cluster before cn ws alloc)"
  by (induction ws arbitrary: alloc) (auto intro!: bind.calm_reads leads_allocateMachineSet assms laws_calm [OF assms])

lemma leads_cluster:
  assumes "binding_laws J E V"
  shows "bind.leads J V (Reconcile E R ns name)"
  unfolding Reconcile_def reconcileCluster_def convergeCluster_def ensureCluster_def settleCluster_def
    allocateControlPlaneMachines_def allocateWorkerMachines_def Let_def
  by (intro bind.calm_reads bind.calm_status leads_allocateMachineSet leads_allocateWorkerSets bind.calm_teardowns leads_drift
      bind.calm_secrets bind.calm_ensures assms laws_calm [OF assms])

section \<open>A pass of the machine controller\<close>

text \<open>Held, the machine may be bound: the first call of the convergence is the create.\<close>

abbreviation held :: "'e observer \<Rightarrow> string \<Rightarrow> string \<Rightarrow> 'e \<Rightarrow> bool" where
  "held V ns i e \<equiv> (ns, i) \<in> ob_Held V e"

abbreviation unbound :: "'e observer \<Rightarrow> string \<Rightarrow> 'e \<Rightarrow> bool" where
  "unbound V i e \<equiv> i \<notin> ob_Nodes V e"

lemma binds_held:
  assumes laws: "binding_laws J E V" and new: "omni_constructors E" and i: "i \<notin> J"
  shows "bind.leads_from (insert i J) V (held V ns i) (EnsureMachineSetNode E cn s i role)"
proof -
  have ID: "r_ID (machine_set_node E cn s i role) = i"
    using new by (simp add: machine_set_node_def with_spec_def omni_constructors_def)
  have "bind.leads_from (insert i J) V (held V ns i) (StateCreate E (machine_set_node E cn s i role))"
    unfolding StateCreate_def
    using create_acts(2) [OF laws, of "machine_set_node E cn s i role"] i
    by (intro bind.leads_from_ext) (simp add: ID)
  moreover have "bind.leads (insert i J) V (StateGet E t j)" for t j
    by (rule leads_mono [OF bind.calm_state(1) [OF laws_calm(1) [OF laws]]]) blast
  ultimately show ?thesis
    unfolding EnsureMachineSetNode_def by (intro bind.leads_from_first bind.leads_from_try bind.leads_rules)
qed

lemma converge_held:
  assumes laws: "binding_laws J E V" and new: "omni_constructors E" and i: "m_Name machine \<notin> J"
  shows "bind.leads_from (insert (m_Name machine) J) V (held V ns (m_Name machine))
    (convergeMachine E (OmniClient E) recorder machine)"
proof -
  note calm = laws_calm [OF laws]
  note parts = bind.calm_machine_config(1,2) [OF calm] bind.calm_status(5,6) [OF calm(1)]
  note parts = parts [THEN leads_mono, OF subset_insertI [of _ "m_Name machine"]]
  have "bind.leads_from (insert (m_Name machine) J) V (held V ns (m_Name machine))
    (io_bind (io_try (EnsureMachineSetNode E cn s (m_Name machine) role)) (\<lambda>bound. case bound of
       Inl err \<Rightarrow> machine_setFailure E recorder machine (m_Status machine) ''BindFailed'' err
     | Inr _ \<Rightarrow> io_bind (io_try (applyConfigPatches (OmniClient E) machine)) (\<lambda>applied. case applied of
           Inl err \<Rightarrow> machine_setFailure E recorder machine (m_Status machine) ''ConfigPatchFailed'' err
         | Inr _ \<Rightarrow> io_bind (io_try (reconcileKernelArgs (OmniClient E) machine)) (\<lambda>args. case args of
               Inl err \<Rightarrow> machine_setFailure E recorder machine (m_Status machine) ''KernelArgsFailed'' err
             | Inr _ \<Rightarrow> rebootAndFinish E (OmniClient E) recorder machine))))" for cn s role
    by (rule bind.leads_from_first [OF bind.leads_from_try [OF binds_held [OF laws new i]]])
      (intro bind.leads_rules parts)
  then show ?thesis
    unfolding convergeMachine_def Let_def OmniClient_simps
    by (auto intro: bind.leads_from_leads parts split: sum.split)
qed

text \<open>After the teardown the machine is not bound, and nothing but a pass for it would bind it.\<close>

lemma deleted_unbound:
  assumes laws: "binding_laws J E V" and i: "i \<notin> J" and run: "DeleteMachineSetNode E i w = (Inr u, w')"
  shows "unbound V i (env w')"
proof -
  have ext: "f (env w) = (r, env w')" if "ext cs f w = (r, w')" for cs r w w' and f :: "'a \<Rightarrow> (goerror + 'b) \<times> 'a"
    using that by (auto simp: ext_def split: prod.splits)
  obtain r w1 where first: "StateTeardown E MachineSetNodeType i w = (r, w1)" by fastforce
  note run' = run [unfolded DeleteMachineSetNode_def teardownAndDestroy_def io_bind_def io_try_def, simplified, unfolded first, simplified]
  show ?thesis
  proof (cases r)
    case (Inl err)
    with run' have "IsNotFoundError err" "w1 = w'" by (auto simp: io_ret_def io_raise_def split: if_splits)
    with Inl first show ?thesis
      using removed_unbound(1) [OF laws i] by (auto simp: StateTeardown_def dest: ext)
  next
    case (Inr ready)
    obtain d w2 where second: "StateDestroy E MachineSetNodeType i w1 = (d, w2)" by fastforce
    with Inr run' have "w2 = w'" "\<And>err. d = Inl err \<Longrightarrow> IsNotFoundError err"
      by (auto simp: io_ret_def io_raise_def split: if_splits sum.splits)
    with second show ?thesis
      using removed_unbound(2) [OF laws i] by (auto simp: StateDestroy_def dest: ext)
  qed
qed

lemma torn_down_unbound:
  assumes laws: "binding_laws J E V" and i: "m_Name machine \<notin> J"
    and run: "machine_teardown (OmniClient E) machine w = (Inr u, w')"
  shows "unbound V (m_Name machine) (env w')"
proof -
  obtain w1 w2 where node: "DeleteMachineSetNode E (m_Name machine) w = (Inr (), w1)"
      and patches: "DeleteConfigPatchesForMachine E (ms_ClusterName (m_Spec machine)) (m_Name machine) w1 = (Inr (), w2)"
      and args: "DeleteKernelArgsForMachine E (m_Name machine) w2 = (Inr u, w')"
    using run by (auto simp: machine_teardown_def releaseMachineOmni_def io_iff)
  have "unbound V (m_Name machine) (env w1)"
    by (rule deleted_unbound [OF laws i node])
  moreover have "acts J V (env w1) (env w2)"
    using patches bind.leadsD bind.calm_deletes(6) [OF laws_calm(1,2) [OF laws]] by blast
  moreover have "acts J V (env w2) (env w')"
    using args bind.leadsD bind.calm_deletes(3) [OF laws_calm(1,2) [OF laws]] by blast
  ultimately show ?thesis
    using unbound_stable i by metis
qed

lemma torn_down_update:
  assumes laws: "binding_laws J E V" and i: "m_Name machine \<notin> J" and key: "m_key m = m_key machine"
  shows "bind.leads (insert (m_Name machine) J) V (io_bind (io_wrap g (machine_teardown (OmniClient E) machine))
    (\<lambda>_. io_bind (updateMachine E m) (\<lambda>_. io_ret r)))"
proof (rule bind.leads_learn [where Q = "\<lambda>_. unbound V (m_Name machine)"])
  have "bind.leads J V (io_wrap g (machine_teardown (OmniClient E) machine))"
    unfolding machine_teardown_def by (intro bind.calm_reads bind.calm_objects bind.calm_release bind.calm_machine_config laws laws_calm [OF laws])
  then show "bind.leads (insert (m_Name machine) J) V (io_wrap g (machine_teardown (OmniClient E) machine))"
    by (rule leads_mono) blast
  show "unbound V (m_Name machine) (env w')"
    if "io_wrap g (machine_teardown (OmniClient E) machine) w = (Inr u, w')" for w u w'
    using that torn_down_unbound [OF laws i] by (simp add: io_iff)
  have "bind.leads_from (insert (m_Name machine) J) V (unbound V (m_Name machine)) (updateMachine E m)"
    using update_acts(2) [OF laws _ i] key by (intro bind.leads_from_ext) (simp add: m_key_def)
  then show "bind.leads_from (insert (m_Name machine) J) V (unbound V (m_Name machine))
      (io_bind (updateMachine E m) (\<lambda>_. io_ret r))" for u :: unit
    by (intro bind.leads_from_first bind.leads_ret)
qed

text \<open>The pass for one machine, with passes for others going on.\<close>

lemma machine_pass_acts:
  assumes laws: "binding_laws J E V" and new: "omni_constructors E" and fin: "finalizer_helpers E" and i: "name \<notin> J"
  shows "bind.leads (insert name J) V (MachineReconcile E (OmniClient E) recorder ns name)"
  unfolding MachineReconcile_def
proof (rule bind.leads_learn [where Q = "\<lambda>got e. \<forall>m. got = Inr m \<longrightarrow> m_key m = (ns, name) \<and>
    (m_DeletionTimestamp m = None \<longrightarrow> machineFinalizerName \<in> set (om_Finalizers (m_Meta m)) \<longrightarrow> held V ns name e)"])
  show "bind.leads (insert name J) V (io_try (ext [] (k8s_GetMachine E ns name)))"
    by (rule leads_mono [OF bind.leads_try [OF bind.calm_calls(1) [OF laws_calm(1) [OF laws]]]]) blast
  show "\<forall>m. got = Inr m \<longrightarrow> m_key m = (ns, name) \<and>
      (m_DeletionTimestamp m = None \<longrightarrow> machineFinalizerName \<in> set (om_Finalizers (m_Meta m)) \<longrightarrow> held V ns name (env w'))"
    if "io_try (ext [] (k8s_GetMachine E ns name)) w = (Inr got, w')" for w got w'
    using that get_held [OF laws i] by (auto simp: io_iff ext_def split: prod.splits)
  fix got
  show "bind.leads_from (insert name J) V (\<lambda>e. \<forall>m. got = Inr m \<longrightarrow> m_key m = (ns, name) \<and>
      (m_DeletionTimestamp m = None \<longrightarrow> machineFinalizerName \<in> set (om_Finalizers (m_Meta m)) \<longrightarrow> held V ns name e))
    (case got of Inl err \<Rightarrow> if IsNotFound err then io_ret zero_result else io_raise err
     | Inr machine \<Rightarrow> reconcileMachine E (OmniClient E) recorder machine)"
  proof (cases got)
    case (Inl err)
    then show ?thesis by (auto intro: bind.leads_from_leads bind.leads_rules)
  next
    case (Inr machine)
    define fs where "fs = om_Finalizers (m_Meta machine)"
    note cases = Inr reconcileMachine_def Let_def fs_def [symmetric]
    show ?thesis
    proof (cases "m_key machine = (ns, name)")
      case True
      then have name: "m_Name machine = name" and ns: "m_Namespace machine = ns" by (simp_all add: m_key_def)
      have add: "bind.leads (insert name J) V (updateMachine E (with_finalizers (k8s_AddFinalizer E fs machineFinalizerName) machine))"
        by (rule bind.leads_ext, rule acts_mono [OF update_acts(1) [OF laws]])
          (use fin in \<open>auto simp: keeps_finalizers_def with_finalizers_def finalizer_helpers_def\<close>)
      have remove: "bind.leads (insert name J) V (io_bind (io_wrap g (machine_teardown (OmniClient E) machine))
          (\<lambda>_. io_bind (updateMachine E (with_finalizers fs' machine)) (\<lambda>_. io_ret r)))" for g fs' and r :: ctrl_result
        using torn_down_update [OF laws, of machine "with_finalizers fs' machine"] i name
        by (simp add: with_finalizers_def m_key_def)
      show ?thesis
      proof (cases "m_DeletionTimestamp machine = None \<and> machineFinalizerName \<in> set fs")
        case True
        with fin have "reconcileMachine E (OmniClient E) recorder machine = convergeMachine E (OmniClient E) recorder machine"
          by (simp add: cases finalizer_helpers_def)
        with True show ?thesis
          using converge_held [OF laws new, of machine ns recorder] i name ns
          unfolding bind.leads_from_def Inr by (simp add: fs_def m_key_def)
      next
        case False
        have "bind.leads (insert name J) V (reconcileMachine E (OmniClient E) recorder machine)"
          unfolding reconcileMachine_def Let_def fs_def [symmetric]
          using False fin
          by (cases "m_DeletionTimestamp machine") (simp_all add: finalizer_helpers_def remove add bind.leads_rules)
        then show ?thesis by (simp add: Inr bind.leads_from_leads)
      qed
    next
      case False
      with Inr show ?thesis by (simp add: bind.leads_from_def)
    qed
  qed
qed

end
