(* ===== verification/Crash.thy ===== *)
theory Crash
  imports World
begin

text \<open>
  A controller that is killed: after a number of calls, whatever else its pass calls has no effect. The
  environment carries the number of calls left, so that a pass may stop after any of them.
\<close>

definition killed :: "('e \<Rightarrow> (goerror + 'r) \<times> 'e) \<Rightarrow> 'e \<times> nat \<Rightarrow> (goerror + 'r) \<times> ('e \<times> nat)" where
  "killed f s = (case s of
       (e, 0) \<Rightarrow> (Inl (Errorf ''killed''), (e, 0))
     | (e, Suc n) \<Rightarrow> (case f e of (r, e') \<Rightarrow> (r, (e', n))))"

definition killed_now :: "('e \<Rightarrow> int \<times> 'e) \<Rightarrow> 'e \<times> nat \<Rightarrow> int \<times> ('e \<times> nat)" where
  "killed_now f s = (case s of (e, 0) \<Rightarrow> (0, (e, 0)) | (e, Suc n) \<Rightarrow> (case f e of (t, e') \<Rightarrow> (t, (e', n))))"

definition killed_ops :: "'e ops \<Rightarrow> ('e \<times> nat) ops" where
  "killed_ops E =
     \<lparr>k8s_GetCluster = (\<lambda>x y. killed (k8s_GetCluster E x y)),
      k8s_GetMachine = (\<lambda>x y. killed (k8s_GetMachine E x y)),
      k8s_GetSecret = (\<lambda>x y. killed (k8s_GetSecret E x y)),
      k8s_ListMachines = (\<lambda>x y. killed (k8s_ListMachines E x y)),
      k8s_CreateMachine = (\<lambda>x. killed (k8s_CreateMachine E x)),
      k8s_UpdateMachine = (\<lambda>x. killed (k8s_UpdateMachine E x)),
      k8s_DeleteMachine = (\<lambda>x y. killed (k8s_DeleteMachine E x y)),
      k8s_UpdateMachineStatus = (\<lambda>x. killed (k8s_UpdateMachineStatus E x)),
      k8s_UpdateCluster = (\<lambda>x. killed (k8s_UpdateCluster E x)),
      k8s_UpdateClusterStatus = (\<lambda>x. killed (k8s_UpdateClusterStatus E x)),
      k8s_DeleteSecret = (\<lambda>x y. killed (k8s_DeleteSecret E x y)),
      k8s_CreateOrUpdateSecret = (\<lambda>x y z. killed (k8s_CreateOrUpdateSecret E x y z)),
      k8s_ContainsFinalizer = k8s_ContainsFinalizer E,
      k8s_AddFinalizer = k8s_AddFinalizer E,
      k8s_RemoveFinalizer = k8s_RemoveFinalizer E,
      k8s_SetControllerReference = k8s_SetControllerReference E,
      k8s_SetStatusCondition = (\<lambda>s. k8s_SetStatusCondition E (fst s)),
      k8s_LabelSelectorAsSelector = k8s_LabelSelectorAsSelector E,
      k8s_LoadKubeconfig = k8s_LoadKubeconfig E,
      cosi_Get = (\<lambda>x y. killed (cosi_Get E x y)),
      cosi_List = (\<lambda>x y. killed (cosi_List E x y)),
      cosi_Create = (\<lambda>x. killed (cosi_Create E x)),
      cosi_Update = (\<lambda>x. killed (cosi_Update E x)),
      cosi_Teardown = (\<lambda>x y. killed (cosi_Teardown E x y)),
      cosi_Destroy = (\<lambda>x y. killed (cosi_Destroy E x y)),
      omni_New = omni_New E,
      omni_NewMachineSetNode = omni_NewMachineSetNode E,
      omni_NewConfigPatch = omni_NewConfigPatch E,
      omni_SetUncompressedData = omni_SetUncompressedData E,
      omni_GetUncompressedData = omni_GetUncompressedData E,
      omni_ControlPlanesResourceID = omni_ControlPlanesResourceID E,
      omni_LabelCluster = omni_LabelCluster E,
      omni_LabelMachineSet = omni_LabelMachineSet E,
      omni_LabelClusterMachine = omni_LabelClusterMachine E,
      omni_LabelControlPlaneRole = omni_LabelControlPlaneRole E,
      omni_LabelWorkerRole = omni_LabelWorkerRole E,
      omni_MachineStatusLabelAvailable = omni_MachineStatusLabelAvailable E,
      omni_Kubeconfig = (\<lambda>x y. killed (omni_Kubeconfig E x y)),
      omni_Reboot = (\<lambda>x y. killed (omni_Reboot E x y)),
      time_Now = killed_now (time_Now E),
      time_FormatRFC3339 = time_FormatRFC3339 E,
      time_ParseRFC3339 = time_ParseRFC3339 E,
      json_Unmarshal = json_Unmarshal E,
      map_order = map_order E\<rparr>"

end
