(* ===== verification/Binding_Crash.thy ===== *)
theory Binding_Crash
  imports Binding_Passes Crash
begin

text \<open>
  The laws of \<open>Binding_Laws\<close> hold for a controller that is killed where they hold for one that is not, so
  that what a pass preserves holds after each of its calls.
\<close>

definition killed_observer :: "'e observer \<Rightarrow> ('e \<times> nat) observer" where
  "killed_observer V = \<lparr>ob_Nodes = (\<lambda>s. ob_Nodes V (fst s)), ob_Held = (\<lambda>s. ob_Held V (fst s)),
     ob_Versions = (\<lambda>s. ob_Versions V (fst s))\<rparr>"

lemma killed_observer_simps [simp]:
  "ob_Nodes (killed_observer V) s = ob_Nodes V (fst s)" "ob_Held (killed_observer V) s = ob_Held V (fst s)"
  "ob_Versions (killed_observer V) s = ob_Versions V (fst s)"
  by (simp_all add: killed_observer_def)

lemma killed_acts [simp]: "acts J (killed_observer V) s s' \<longleftrightarrow> acts J V (fst s) (fst s')"
  by (simp add: acts_def)

lemma killed_harmless [simp]: "harmless (killed_observer V) s s' \<longleftrightarrow> harmless V (fst s) (fst s')"
  by (simp add: harmless_def)

lemma killed_keeps_finalizers [simp]: "keeps_finalizers (killed_observer V) s m \<longleftrightarrow> keeps_finalizers V (fst s) m"
  by (simp add: keeps_finalizers_def)

lemma killed_interleaved:
  assumes "interleaved J V effect (fst s) (fst s')" and "\<And>e1 e2. effect e1 e2 \<Longrightarrow> effect' (e1, snd s) (e2, snd s')"
  shows "interleaved J (killed_observer V) effect' s s'"
proof -
  obtain e1 e2 where "acts J V (fst s) e1" "effect e1 e2" "acts J V e2 (fst s')"
    using assms(1) unfolding interleaved_def by blast
  with assms(2) show ?thesis
    unfolding interleaved_def by (intro exI [of _ "(e1, snd s)"] exI [of _ "(e2, snd s')"]) simp
qed

lemma unmoved: "effect s s \<Longrightarrow> interleaved J (killed_observer V) effect s s"
  unfolding interleaved_def by (blast intro: acts_refl)

text \<open>A call that is made behaves as it does, one that is not made fails and leaves everything alone.\<close>

lemma killed_call:
  assumes run: "killed f s = (r, s')"
    and call: "\<And>e'. f (fst s) = (r, e') \<Longrightarrow> interleaved J V effect (fst s) e'"
    and effect: "\<And>e1 e2 n n'. effect e1 e2 \<Longrightarrow> effect' (e1, n) (e2, n')"
    and dead: "r = Inl (Errorf ''killed'') \<Longrightarrow> effect' s s"
  shows "interleaved J (killed_observer V) effect' s s'"
proof (cases "snd s")
  case 0
  with run have "r = Inl (Errorf ''killed'')" "s' = s" by (auto simp: killed_def split: prod.splits)
  then show ?thesis by (auto intro: unmoved dead)
next
  case (Suc n)
  with run have "f (fst s) = (r, fst s')" by (auto simp: killed_def split: prod.splits)
  then show ?thesis by (intro killed_interleaved [OF call]) (auto intro: effect)
qed

lemma killed_keeps: "keeps J V f \<Longrightarrow> keeps J (killed_observer V) (killed f)"
  unfolding keeps_def
proof
  fix s
  assume f: "\<forall>e. interleaved J V (harmless V) e (snd (f e))"
  show "interleaved J (killed_observer V) (harmless (killed_observer V)) s (snd (killed f s))"
  proof (rule killed_call [OF surjective_pairing, where effect = "harmless V"])
    show "interleaved J V (harmless V) (fst s) e'" if "f (fst s) = (fst (killed f s), e')" for e'
      using f that by (metis snd_conv)
  qed (simp_all add: harmless_def)
qed

lemma killed_keeps_now: "keeps J V f \<Longrightarrow> keeps J (killed_observer V) (killed_now f)"
  unfolding keeps_def
proof
  fix s
  assume f: "\<forall>e. interleaved J V (harmless V) e (snd (f e))"
  show "interleaved J (killed_observer V) (harmless (killed_observer V)) s (snd (killed_now f s))"
  proof (cases "snd s")
    case 0
    then have "snd (killed_now f s) = s" by (auto simp: killed_now_def split: prod.splits)
    then show ?thesis by (simp add: unmoved harmless_def)
  next
    case (Suc n)
    then have "fst (snd (killed_now f s)) = snd (f (fst s))" by (auto simp: killed_now_def split: prod.splits)
    with f show ?thesis by (intro killed_interleaved [where effect = "harmless V"]) simp_all
  qed
qed

lemma killed_views: "machine_views J E V \<Longrightarrow> machine_views J (killed_ops E) (killed_observer V)"
proof -
  assume views: "machine_views J E V"
  show ?thesis
    unfolding machine_views_def
  proof (intro conjI allI impI)
    fix ns n s s' and r :: "goerror + machine"
    assume run: "k8s_GetMachine (killed_ops E) ns n s = (r, s')"
    show "interleaved J (killed_observer V) (\<lambda>e1 e2. harmless (killed_observer V) e1 e2 \<and>
        (\<forall>m. r = Inr m \<longrightarrow> m_key m = (ns, n) \<and>
           (m_DeletionTimestamp m = None \<longrightarrow> machineFinalizerName \<in> set (om_Finalizers (m_Meta m)) \<longrightarrow>
              (ns, n) \<in> ob_Held (killed_observer V) e2))) s s'"
      by (rule killed_call [OF run [unfolded killed_ops_def ops.simps] law_reads(1) [OF views]])
        (simp_all add: harmless_def)
  next
    fix ns l s s' and r :: "goerror + machine list"
    assume run: "k8s_ListMachines (killed_ops E) ns l s = (r, s')"
    show "interleaved J (killed_observer V) (\<lambda>e1 e2. harmless (killed_observer V) e1 e2 \<and>
        (\<forall>ms. r = Inr ms \<longrightarrow> set ms \<subseteq> ob_Versions (killed_observer V) e2)) s s'"
      by (rule killed_call [OF run [unfolded killed_ops_def ops.simps] law_reads(2) [OF views]])
        (simp_all add: harmless_def)
  qed
qed

lemma killed_removals: "omni_removals J E V \<Longrightarrow> omni_removals J (killed_ops E) (killed_observer V)"
proof -
  assume gone: "omni_removals J E V"
  show ?thesis
    unfolding omni_removals_def
  proof (intro conjI allI impI)
    fix t i s s' and r :: "goerror + bool"
    assume run: "cosi_Teardown (killed_ops E) t i s = (r, s')"
    show "interleaved J (killed_observer V) (\<lambda>e1 e2. harmless (killed_observer V) e1 e2 \<and>
        (\<forall>x. r = Inl x \<longrightarrow> t = MachineSetNodeType \<longrightarrow> IsNotFoundError x \<longrightarrow> i \<notin> ob_Nodes (killed_observer V) e2)) s s'"
      by (rule killed_call [OF run [unfolded killed_ops_def ops.simps] law_removals(1) [OF gone]])
        (simp_all add: harmless_def)
  next
    fix t i s s' and r :: "goerror + unit"
    assume run: "cosi_Destroy (killed_ops E) t i s = (r, s')"
    show "interleaved J (killed_observer V) (\<lambda>e1 e2. harmless (killed_observer V) e1 e2 \<and>
        ((\<forall>x. r = Inl x \<longrightarrow> IsNotFoundError x) \<longrightarrow> t = MachineSetNodeType \<longrightarrow> i \<notin> ob_Nodes (killed_observer V) e2)) s s'"
      by (rule killed_call [OF run [unfolded killed_ops_def ops.simps] law_removals(2) [OF gone]])
        (simp_all add: harmless_def)
  qed
qed

lemma killed_edits: "machine_edits J E V \<Longrightarrow> machine_edits J (killed_ops E) (killed_observer V)"
proof -
  assume "machine_edits J E V"
  note edits = this [unfolded machine_edits_def]
  show ?thesis
    unfolding machine_edits_def killed_ops_def ops.simps
  proof (intro conjI allI)
    fix m s
    show "interleaved J (killed_observer V) (\<lambda>e1 e2. ob_Nodes (killed_observer V) e2 \<subseteq> ob_Nodes (killed_observer V) e1 \<and>
        ob_Versions (killed_observer V) e1 \<subseteq> ob_Versions (killed_observer V) e2 \<and>
        ob_Held (killed_observer V) e1 - {m_key m} \<subseteq> ob_Held (killed_observer V) e2 \<and>
        (keeps_finalizers (killed_observer V) e1 m \<longrightarrow> ob_Held (killed_observer V) e1 \<subseteq> ob_Held (killed_observer V) e2))
        s (snd (killed (k8s_UpdateMachine E m) s))"
    proof (rule killed_call [OF surjective_pairing, where effect = "\<lambda>e1 e2. ob_Nodes V e2 \<subseteq> ob_Nodes V e1 \<and>
        ob_Versions V e1 \<subseteq> ob_Versions V e2 \<and> ob_Held V e1 - {m_key m} \<subseteq> ob_Held V e2 \<and>
        (keeps_finalizers V e1 m \<longrightarrow> ob_Held V e1 \<subseteq> ob_Held V e2)"])
      show "interleaved J V (\<lambda>e1 e2. ob_Nodes V e2 \<subseteq> ob_Nodes V e1 \<and>
          ob_Versions V e1 \<subseteq> ob_Versions V e2 \<and> ob_Held V e1 - {m_key m} \<subseteq> ob_Held V e2 \<and>
          (keeps_finalizers V e1 m \<longrightarrow> ob_Held V e1 \<subseteq> ob_Held V e2)) (fst s) e'"
        if "k8s_UpdateMachine E m (fst s) = (r, e')" for r e'
        using edits [THEN conjunct2, THEN conjunct2, THEN conjunct2, THEN spec, THEN spec, of m "fst s"] that by simp
    qed auto
  qed (simp_all add: edits killed_keeps)
qed

lemma killed_creates: "omni_edits J E V \<Longrightarrow> omni_edits J (killed_ops E) (killed_observer V)"
proof -
  assume "omni_edits J E V"
  note edits = this [unfolded omni_edits_def]
  show ?thesis
    unfolding omni_edits_def killed_ops_def ops.simps
  proof (intro conjI allI)
    fix x s
    let ?new = "if r_Type x = MachineSetNodeType then {r_ID x} else {}"
    show "interleaved J (killed_observer V) (\<lambda>e1 e2. ob_Nodes (killed_observer V) e2 \<subseteq> ob_Nodes (killed_observer V) e1 \<union> ?new \<and>
        ob_Held (killed_observer V) e1 \<subseteq> ob_Held (killed_observer V) e2 \<and>
        ob_Versions (killed_observer V) e1 \<subseteq> ob_Versions (killed_observer V) e2) s (snd (killed (cosi_Create E x) s))"
    proof (rule killed_call [OF surjective_pairing, where effect = "\<lambda>e1 e2. ob_Nodes V e2 \<subseteq> ob_Nodes V e1 \<union> ?new \<and>
        ob_Held V e1 \<subseteq> ob_Held V e2 \<and> ob_Versions V e1 \<subseteq> ob_Versions V e2"])
      show "interleaved J V (\<lambda>e1 e2. ob_Nodes V e2 \<subseteq> ob_Nodes V e1 \<union> ?new \<and>
          ob_Held V e1 \<subseteq> ob_Held V e2 \<and> ob_Versions V e1 \<subseteq> ob_Versions V e2) (fst s) e'"
        if "cosi_Create E x (fst s) = (r, e')" for r e'
        using edits [THEN conjunct2, THEN conjunct2, THEN conjunct2, THEN spec, THEN spec, of x "fst s"] that by simp
    qed auto
  qed (simp_all add: edits killed_keeps)
qed

lemma killed_elsewhere: "elsewhere J E V \<Longrightarrow> elsewhere J (killed_ops E) (killed_observer V)"
  unfolding elsewhere_def killed_ops_def ops.simps by (simp add: killed_keeps killed_keeps_now)

lemma killed_laws: "binding_laws J E V \<Longrightarrow> binding_laws J (killed_ops E) (killed_observer V)"
  by (simp add: binding_laws_def killed_views killed_edits killed_creates killed_removals killed_elsewhere)

lemma killed_helpers:
  "omni_constructors E \<Longrightarrow> omni_constructors (killed_ops E)" "finalizer_helpers E \<Longrightarrow> finalizer_helpers (killed_ops E)"
  by (simp_all add: omni_constructors_def finalizer_helpers_def killed_ops_def)

end
