(* ===== verification/Binding_Env.thy ===== *)
theory Binding_Env
  imports Binding_Laws Memory_Env
begin

text \<open>
  An API server that numbers the versions of every \<open>Machine\<close> object and accepts an update only over the
  latest one, on top of the environment in memory: it satisfies \<open>binding_laws\<close>.
\<close>

section \<open>Versioned objects\<close>

record versioned =
  vn_base :: memory
  vn_keys :: "(string \<times> string) list"
  vn_object :: "string \<times> string \<Rightarrow> machine option"
  vn_version :: "string \<times> string \<Rightarrow> nat"

definition stamp :: "nat \<Rightarrow> string" where
  "stamp n = replicate n CHR ''x''"

lemma stamp_inject [simp]: "stamp m = stamp n \<longleftrightarrow> m = n"
  by (metis length_replicate stamp_def)

definition as_read :: "string \<times> string \<Rightarrow> nat \<Rightarrow> machine \<Rightarrow> machine" where
  "as_read k n m = m\<lparr>m_Meta := (m_Meta m)\<lparr>om_Namespace := fst k, om_Name := snd k, om_ResourceVersion := stamp n\<rparr>\<rparr>"

definition on_base :: "(memory \<Rightarrow> 'r \<times> memory) \<Rightarrow> versioned \<Rightarrow> 'r \<times> versioned" where
  "on_base f e = (case f (vn_base e) of (r, b) \<Rightarrow> (r, e\<lparr>vn_base := b\<rparr>))"

definition vn_store :: "string \<times> string \<Rightarrow> machine option \<Rightarrow> versioned \<Rightarrow> versioned" where
  "vn_store k m e = e\<lparr>vn_object := (vn_object e)(k := m), vn_version := (vn_version e)(k := Suc (vn_version e k))\<rparr>"

definition vn_Get :: "string \<Rightarrow> string \<Rightarrow> versioned \<Rightarrow> (goerror + machine) \<times> versioned" where
  "vn_Get ns n e = ((case vn_object e (ns, n) of None \<Rightarrow> Inl (ApiError NotFound ''not found'')
     | Some m \<Rightarrow> Inr (as_read (ns, n) (vn_version e (ns, n)) m)), e)"

definition vn_List :: "string \<Rightarrow> (string, string) gomap \<Rightarrow> versioned \<Rightarrow> (goerror + machine list) \<times> versioned" where
  "vn_List ns want e = (Inr (map (\<lambda>k. as_read k (vn_version e k) (the (vn_object e k)))
       (filter (\<lambda>k. fst k = ns \<and> (case vn_object e k of None \<Rightarrow> False
          | Some m \<Rightarrow> carries_labels want (om_Labels (m_Meta m)))) (vn_keys e))), e)"

definition vn_Create :: "machine \<Rightarrow> versioned \<Rightarrow> (goerror + unit) \<times> versioned" where
  "vn_Create m e = (if vn_object e (m_key m) = None
     then (Inr (), vn_store (m_key m) (Some m) (e\<lparr>vn_keys := vn_keys e @ [m_key m]\<rparr>))
     else (Inl (ApiError AlreadyExists ''exists''), e))"

text \<open>An update over the latest version; an object that is being deleted goes with its last finalizer.\<close>

definition vn_Update :: "machine \<Rightarrow> versioned \<Rightarrow> (goerror + unit) \<times> versioned" where
  "vn_Update m e = (case vn_object e (m_key m) of None \<Rightarrow> (Inl (ApiError NotFound ''not found''), e)
     | Some cur \<Rightarrow> if om_ResourceVersion (m_Meta m) \<noteq> stamp (vn_version e (m_key m))
         then (Inl (Errorf ''the object has been modified''), e)
         else (Inr (), vn_store (m_key m) (if m_DeletionTimestamp m \<noteq> None \<and> om_Finalizers (m_Meta m) = [] then None
                                           else Some m) e))"

definition vn_UpdateStatus :: "machine \<Rightarrow> versioned \<Rightarrow> (goerror + unit) \<times> versioned" where
  "vn_UpdateStatus m e = (case vn_object e (m_key m) of None \<Rightarrow> (Inl (ApiError NotFound ''not found''), e)
     | Some cur \<Rightarrow> (Inr (), vn_store (m_key m) (Some (cur\<lparr>m_Status := m_Status m\<rparr>)) e))"

definition vn_Delete :: "string \<Rightarrow> string \<Rightarrow> versioned \<Rightarrow> (goerror + unit) \<times> versioned" where
  "vn_Delete ns n e = (case vn_object e (ns, n) of None \<Rightarrow> (Inl (ApiError NotFound ''not found''), e)
     | Some cur \<Rightarrow> (Inr (), vn_store (ns, n) (if om_Finalizers (m_Meta cur) = [] then None
         else Some (cur\<lparr>m_Meta := (m_Meta cur)\<lparr>om_DeletionTimestamp := Some (mem_clock (vn_base e))\<rparr>\<rparr>)) e))"

definition versioned_ops :: "versioned ops" where
  "versioned_ops =
     \<lparr>k8s_GetCluster = (\<lambda>ns n. on_base (k8s_GetCluster memory_ops ns n)),
      k8s_GetMachine = vn_Get,
      k8s_GetSecret = (\<lambda>ns n. on_base (k8s_GetSecret memory_ops ns n)),
      k8s_ListMachines = vn_List,
      k8s_CreateMachine = vn_Create,
      k8s_UpdateMachine = vn_Update,
      k8s_DeleteMachine = vn_Delete,
      k8s_UpdateMachineStatus = vn_UpdateStatus,
      k8s_UpdateCluster = (\<lambda>c. on_base (k8s_UpdateCluster memory_ops c)),
      k8s_UpdateClusterStatus = (\<lambda>c. on_base (k8s_UpdateClusterStatus memory_ops c)),
      k8s_DeleteSecret = (\<lambda>ns n. on_base (k8s_DeleteSecret memory_ops ns n)),
      k8s_CreateOrUpdateSecret = (\<lambda>ns n f. on_base (k8s_CreateOrUpdateSecret memory_ops ns n f)),
      k8s_ContainsFinalizer = k8s_ContainsFinalizer memory_ops,
      k8s_AddFinalizer = k8s_AddFinalizer memory_ops,
      k8s_RemoveFinalizer = k8s_RemoveFinalizer memory_ops,
      k8s_SetControllerReference = k8s_SetControllerReference memory_ops,
      k8s_SetStatusCondition = (\<lambda>e. k8s_SetStatusCondition memory_ops (vn_base e)),
      k8s_LabelSelectorAsSelector = k8s_LabelSelectorAsSelector memory_ops,
      k8s_LoadKubeconfig = k8s_LoadKubeconfig memory_ops,
      cosi_Get = (\<lambda>t i. on_base (mem_Get t i)),
      cosi_List = (\<lambda>t q. on_base (mem_List t q)),
      cosi_Create = (\<lambda>r. on_base (mem_Create r)),
      cosi_Update = (\<lambda>r. on_base (mem_Update r)),
      cosi_Teardown = (\<lambda>t i. on_base (mem_Teardown t i)),
      cosi_Destroy = (\<lambda>t i. on_base (mem_Destroy t i)),
      omni_New = omni_New memory_ops,
      omni_NewMachineSetNode = omni_NewMachineSetNode memory_ops,
      omni_NewConfigPatch = omni_NewConfigPatch memory_ops,
      omni_SetUncompressedData = omni_SetUncompressedData memory_ops,
      omni_GetUncompressedData = omni_GetUncompressedData memory_ops,
      omni_ControlPlanesResourceID = omni_ControlPlanesResourceID memory_ops,
      omni_LabelCluster = omni_LabelCluster memory_ops,
      omni_LabelMachineSet = omni_LabelMachineSet memory_ops,
      omni_LabelClusterMachine = omni_LabelClusterMachine memory_ops,
      omni_LabelControlPlaneRole = omni_LabelControlPlaneRole memory_ops,
      omni_LabelWorkerRole = omni_LabelWorkerRole memory_ops,
      omni_MachineStatusLabelAvailable = omni_MachineStatusLabelAvailable memory_ops,
      omni_Kubeconfig = (\<lambda>cn a. on_base (omni_Kubeconfig memory_ops cn a)),
      omni_Reboot = (\<lambda>cn a. on_base (omni_Reboot memory_ops cn a)),
      time_Now = on_base (time_Now memory_ops),
      time_FormatRFC3339 = time_FormatRFC3339 memory_ops,
      time_ParseRFC3339 = time_ParseRFC3339 memory_ops,
      json_Unmarshal = json_Unmarshal memory_ops,
      map_order = map_order memory_ops\<rparr>"

text \<open>Of the versions up to the latest, the latest one shows the finalizers the object has.\<close>

definition versioned_observer :: "versioned observer" where
  "versioned_observer =
     \<lparr>ob_Nodes = (\<lambda>e. {i. mem_view (vn_base e) (MachineSetNodeType, i) \<noteq> None}),
      ob_Held = (\<lambda>e. {k. \<exists>m. vn_object e k = Some m \<and> machineFinalizerName \<in> set (om_Finalizers (m_Meta m))}),
      ob_Versions = (\<lambda>e. {m. \<exists>n \<le> vn_version e (m_key m). om_ResourceVersion (m_Meta m) = stamp n \<and>
         (n = vn_version e (m_key m) \<longrightarrow>
            (\<forall>cur. vn_object e (m_key m) = Some cur \<longrightarrow> om_Finalizers (m_Meta m) = om_Finalizers (m_Meta cur)))})\<rparr>"

lemma observer_simps [simp]:
  "i \<in> ob_Nodes versioned_observer e \<longleftrightarrow> mem_view (vn_base e) (MachineSetNodeType, i) \<noteq> None"
  "k \<in> ob_Held versioned_observer e \<longleftrightarrow>
     (\<exists>m. vn_object e k = Some m \<and> machineFinalizerName \<in> set (om_Finalizers (m_Meta m)))"
  "m \<in> ob_Versions versioned_observer e \<longleftrightarrow> (\<exists>n \<le> vn_version e (m_key m). om_ResourceVersion (m_Meta m) = stamp n \<and>
     (n = vn_version e (m_key m) \<longrightarrow>
        (\<forall>cur. vn_object e (m_key m) = Some cur \<longrightarrow> om_Finalizers (m_Meta m) = om_Finalizers (m_Meta cur))))"
  by (simp_all add: versioned_observer_def)

section \<open>The laws hold\<close>

lemma interleaved_now: "effect e e' \<Longrightarrow> interleaved J V effect e e'"
  unfolding interleaved_def by (blast intro: acts_refl)

lemma keeps_now: "(\<And>e. harmless V e (snd (f e))) \<Longrightarrow> keeps J V f"
  by (simp add: keeps_def interleaved_now)

lemma m_key_as_read [simp]: "m_key (as_read k n m) = k"
  by (cases k) (simp add: as_read_def m_key_def)

lemma harmless_base:
  "(\<And>b i. mem_view (snd (f b)) (MachineSetNodeType, i) \<noteq> None \<Longrightarrow> mem_view b (MachineSetNodeType, i) \<noteq> None) \<Longrightarrow>
   harmless versioned_observer e (snd (on_base f e))"
  by (auto simp: harmless_def on_base_def split: prod.splits)

text \<open>Storing an object leaves the versions known, and other objects.\<close>

lemma store_versions: "ob_Versions versioned_observer e \<subseteq> ob_Versions versioned_observer (vn_store k m e)"
  by (auto simp: vn_store_def)

lemma store_simps [simp]:
  "vn_base (vn_store k m e) = vn_base e" "vn_object (vn_store k m e) = (vn_object e)(k := m)"
  by (simp_all add: vn_store_def)

lemma versioned_views: "machine_views J versioned_ops versioned_observer"
proof -
  have as_read: "as_read k (vn_version e k) m \<in> ob_Versions versioned_observer e" if "vn_object e k = Some m" for k e m
    using that by (auto simp: as_read_def m_key_def)
  show ?thesis
    unfolding machine_views_def
  proof (intro conjI allI impI; rule interleaved_now)
    fix ns n e r e'
    assume get: "k8s_GetMachine versioned_ops ns n e = (r, e')"
    then show "harmless versioned_observer e e' \<and> (\<forall>m. r = Inr m \<longrightarrow> m_key m = (ns, n) \<and>
        (m_DeletionTimestamp m = None \<longrightarrow> machineFinalizerName \<in> set (om_Finalizers (m_Meta m)) \<longrightarrow>
           (ns, n) \<in> ob_Held versioned_observer e'))"
      by (auto simp: versioned_ops_def vn_Get_def harmless_def as_read_def split: option.splits) (simp add: m_key_def)
  next
    fix ns l e r e'
    assume "k8s_ListMachines versioned_ops ns l e = (r, e')"
    then show "harmless versioned_observer e e' \<and> (\<forall>ms. r = Inr ms \<longrightarrow> set ms \<subseteq> ob_Versions versioned_observer e')"
      by (auto simp: versioned_ops_def vn_List_def harmless_def split: option.splits simp del: observer_simps(3))
        (erule as_read)
  qed
qed

lemma versioned_edits: "machine_edits J versioned_ops versioned_observer"
  unfolding machine_edits_def
proof (intro conjI allI)
  show "keeps J versioned_observer (k8s_CreateMachine versioned_ops m)" for m
    by (rule keeps_now) (auto simp: versioned_ops_def vn_Create_def harmless_def vn_store_def split: option.splits)
  show "keeps J versioned_observer (k8s_UpdateMachineStatus versioned_ops m)" for m
    by (rule keeps_now) (auto simp: versioned_ops_def vn_UpdateStatus_def harmless_def vn_store_def split: option.splits)
  show "keeps J versioned_observer (k8s_DeleteMachine versioned_ops ns n)" for ns n
    by (rule keeps_now) (auto simp: versioned_ops_def vn_Delete_def harmless_def vn_store_def split: option.splits)
  fix m e
  let ?e = "snd (k8s_UpdateMachine versioned_ops m e)" and ?V = versioned_observer
  have fins: "om_Finalizers (m_Meta m) = om_Finalizers (m_Meta cur)"
    if "vn_object e (m_key m) = Some cur" "om_ResourceVersion (m_Meta m) = stamp (vn_version e (m_key m))"
      "keeps_finalizers ?V e m" "machineFinalizerName \<notin> set (om_Finalizers (m_Meta m))" for cur
    using that by (auto simp: keeps_finalizers_def)
  have "ob_Nodes ?V ?e \<subseteq> ob_Nodes ?V e \<and> ob_Versions ?V e \<subseteq> ob_Versions ?V ?e \<and>
      ob_Held ?V e - {m_key m} \<subseteq> ob_Held ?V ?e \<and> (keeps_finalizers ?V e m \<longrightarrow> ob_Held ?V e \<subseteq> ob_Held ?V ?e)"
  proof (cases "\<exists>cur. vn_object e (m_key m) = Some cur \<and> om_ResourceVersion (m_Meta m) = stamp (vn_version e (m_key m))")
    case True
    then obtain cur where cur: "vn_object e (m_key m) = Some cur" "om_ResourceVersion (m_Meta m) = stamp (vn_version e (m_key m))"
      by blast
    have e': "?e = vn_store (m_key m) (if m_DeletionTimestamp m \<noteq> None \<and> om_Finalizers (m_Meta m) = [] then None else Some m) e"
      using cur by (simp add: versioned_ops_def vn_Update_def)
    show ?thesis
    proof (intro conjI subsetI impI)
      show "i \<in> ob_Nodes ?V e" if "i \<in> ob_Nodes ?V ?e" for i
        using that by (simp add: e')
      show "x \<in> ob_Versions ?V ?e" if "x \<in> ob_Versions ?V e" for x
        using that store_versions unfolding e' by blast
      show "k \<in> ob_Held ?V ?e" if "k \<in> ob_Held ?V e - {m_key m}" for k
        using that by (simp add: e')
      show "k \<in> ob_Held ?V ?e" if "keeps_finalizers ?V e m" "k \<in> ob_Held ?V e" for k
      proof (cases "k = m_key m")
        case True
        have "machineFinalizerName \<in> set (om_Finalizers (m_Meta m))"
          by (rule ccontr) (use True that cur fins [OF cur] in auto)
        then show ?thesis using True by (auto simp: e')
      qed (use that in \<open>simp add: e'\<close>)
    qed
  next
    case False
    then have "?e = e" by (auto simp: versioned_ops_def vn_Update_def split: option.splits)
    then show ?thesis by simp
  qed
  then show "interleaved J ?V (\<lambda>e1 e2. ob_Nodes ?V e2 \<subseteq> ob_Nodes ?V e1 \<and> ob_Versions ?V e1 \<subseteq> ob_Versions ?V e2 \<and>
      ob_Held ?V e1 - {m_key m} \<subseteq> ob_Held ?V e2 \<and> (keeps_finalizers ?V e1 m \<longrightarrow> ob_Held ?V e1 \<subseteq> ob_Held ?V e2)) e ?e"
    by (rule interleaved_now)
qed

lemma keeps_base:
  "(\<And>b i. mem_view (snd (f b)) (MachineSetNodeType, i) \<noteq> None \<Longrightarrow> mem_view b (MachineSetNodeType, i) \<noteq> None) \<Longrightarrow>
   keeps J versioned_observer (on_base f)"
  by (rule keeps_now) (rule harmless_base)

lemma keeps_view: "(\<And>b. mem_view (snd (f b)) = mem_view b) \<Longrightarrow> keeps J versioned_observer (on_base f)"
  by (rule keeps_base) simp

lemma other_field_view [simp]:
  "mem_view (b\<lparr>mem_clusters := cs\<rparr>) = mem_view b" "mem_view (b\<lparr>mem_secrets := ss\<rparr>) = mem_view b"
  "mem_view (b\<lparr>mem_clock := t\<rparr>) = mem_view b"
  by (simp_all add: mem_view_def fun_eq_iff)

lemma versioned_elsewhere: "elsewhere J versioned_ops versioned_observer"
  unfolding elsewhere_def versioned_ops_def ops.simps
  by (intro conjI allI keeps_view) (simp_all add: memory_fields found_def omni_answer_def mem_CreateOrUpdateSecret_def)

lemma versioned_omni: "omni_edits J versioned_ops versioned_observer"
  unfolding omni_edits_def
proof (intro conjI allI)
  show "keeps J versioned_observer (cosi_Get versioned_ops t i)" for t i
    unfolding versioned_ops_def ops.simps by (rule keeps_view) (simp add: mem_Get_def)
  show "keeps J versioned_observer (cosi_List versioned_ops t q)" for t q
    unfolding versioned_ops_def ops.simps by (rule keeps_view) (simp add: mem_List_def)
  show "keeps J versioned_observer (cosi_Update versioned_ops r)" for r
    by (simp add: versioned_ops_def, rule keeps_base)
      (auto simp: mem_Update_def mem_view_def find_key_map split: if_splits)
  show "interleaved J versioned_observer (\<lambda>e1 e2. ob_Nodes versioned_observer e2 \<subseteq> ob_Nodes versioned_observer e1 \<union>
        (if r_Type r = MachineSetNodeType then {r_ID r} else {}) \<and>
      ob_Held versioned_observer e1 \<subseteq> ob_Held versioned_observer e2 \<and>
      ob_Versions versioned_observer e1 \<subseteq> ob_Versions versioned_observer e2) e (snd (cosi_Create versioned_ops r e))" for r e
  proof (rule interleaved_now)
    have "mem_view (snd (mem_Create r b)) (t, i) \<noteq> None \<Longrightarrow> mem_view b (t, i) \<noteq> None \<or> key_of r = (t, i)" for b t i
      by (auto simp: mem_Create_def mem_view_def find_key_append split: option.splits if_splits)
    then show "ob_Nodes versioned_observer (snd (cosi_Create versioned_ops r e)) \<subseteq> ob_Nodes versioned_observer e \<union>
          (if r_Type r = MachineSetNodeType then {r_ID r} else {}) \<and>
        ob_Held versioned_observer e \<subseteq> ob_Held versioned_observer (snd (cosi_Create versioned_ops r e)) \<and>
        ob_Versions versioned_observer e \<subseteq> ob_Versions versioned_observer (snd (cosi_Create versioned_ops r e))"
      by (auto simp: versioned_ops_def on_base_def case_prod_unfold key_of_def) (metis not_Some_eq)+
  qed
qed

lemma versioned_removals: "omni_removals J versioned_ops versioned_observer"
  unfolding omni_removals_def
proof (intro conjI allI impI; rule interleaved_now)
  show "harmless versioned_observer e e' \<and> (\<forall>x. r = Inl x \<longrightarrow> t = MachineSetNodeType \<longrightarrow> IsNotFoundError x \<longrightarrow>
      i \<notin> ob_Nodes versioned_observer e')" if "cosi_Teardown versioned_ops t i e = (r, e')" for t i e r e'
    using that by (auto simp: versioned_ops_def on_base_def mem_Teardown_def harmless_def split: if_splits)
  show "harmless versioned_observer e e' \<and> ((\<forall>x. r = Inl x \<longrightarrow> IsNotFoundError x) \<longrightarrow> t = MachineSetNodeType \<longrightarrow>
      i \<notin> ob_Nodes versioned_observer e')" if "cosi_Destroy versioned_ops t i e = (r, e')" for t i e r e'
    using that by (auto simp: versioned_ops_def on_base_def mem_Destroy_def harmless_def mem_view_def find_key_filter split: if_splits)
qed

lemma versioned_laws: "binding_laws J versioned_ops versioned_observer"
  by (simp add: binding_laws_def versioned_views versioned_edits versioned_omni versioned_removals versioned_elsewhere)

lemma versioned_helpers: "finalizer_helpers versioned_ops" "omni_constructors versioned_ops"
  using memory_constructors
  by (simp_all add: finalizer_helpers_def omni_constructors_def versioned_ops_def memory_fields)

end
