(* ===== verification/Binding_System.thy ===== *)
theory Binding_System
  imports Binding_Crash Binding_Env Machine_Properties
begin

text \<open>
  Both controllers at work: no interleaving of their passes with each other and with others ever leaves a
  binding behind that no \<open>Machine\<close> object guards, shown on the environment of \<open>Binding_Env\<close> as well.
\<close>

section \<open>The system\<close>

text \<open>
  What can happen from \<open>e0\<close> on: passes of the machine controller, with others acting for the machines of
  \<open>J\<close> between any two of its calls, but never for its own; passes of the cluster controller, with
  anything going on; either killed after \<open>n\<close> of its calls; and whatever else respects the finalizers. A
  pass by itself is of that kind (\<open>machine_pass_acts\<close> and \<open>leads_cluster\<close> at \<open>J = {}\<close>), so that the passes
  may interfere with each other.
\<close>

inductive system :: "'e observer \<Rightarrow> 'e \<Rightarrow> 'e \<Rightarrow> bool" for V :: "'e observer" and e0 :: 'e where
  start: "system V e0 e0"
| machine_pass: "system V e0 (env w) \<Longrightarrow> binding_laws J E V \<Longrightarrow> omni_constructors E \<Longrightarrow> finalizer_helpers E \<Longrightarrow>
    name \<notin> J \<Longrightarrow> system V e0 (env (snd (MachineReconcile E (OmniClient E) recorder ns name w)))"
| cluster_pass: "system V e0 (env w) \<Longrightarrow> binding_laws J E V \<Longrightarrow> system V e0 (env (snd (Reconcile E R ns name w)))"
| machine_killed: "system V e0 e \<Longrightarrow> binding_laws J E V \<Longrightarrow> omni_constructors E \<Longrightarrow> finalizer_helpers E \<Longrightarrow>
    name \<notin> J \<Longrightarrow> system V e0 (fst (env (snd (MachineReconcile (killed_ops E) (OmniClient (killed_ops E)) recorder ns name
      \<lparr>env = (e, n), calls = cs, series = g\<rparr>))))"
| cluster_killed: "system V e0 e \<Longrightarrow> binding_laws J E V \<Longrightarrow> system V e0 (fst (env (snd (Reconcile (killed_ops E) R ns name
      \<lparr>env = (e, n), calls = cs, series = g\<rparr>))))"
| others: "system V e0 e \<Longrightarrow> acts K V e e' \<Longrightarrow> system V e0 e'"

text \<open>C3: no leaked binding. Whatever passes of both controllers run, in whatever order and interleaved as
  they may be, finished, failed or killed after any of their calls, a machine that is bound in Omni and whose finalizer no \<open>Machine\<close> object holds was bound and
  without a guard to begin with: the controllers never bind a machine they would not release.\<close>

theorem no_leaked_bindings:
  assumes "system V e0 e"
  shows "leaked V e \<subseteq> leaked V e0"
  using assms
proof induction
  case (machine_pass w J E name recorder ns)
  have "bind.leads (insert name J) V (MachineReconcile E (OmniClient E) recorder ns name)"
    by (rule machine_pass_acts) (use machine_pass in auto)
  then have "acts (insert name J) V (env w) (env (snd (MachineReconcile E (OmniClient E) recorder ns name w)))"
    by (simp add: bind.leads_def)
  with machine_pass.IH show ?case
    by (blast dest: acts_leaks_nothing)
next
  case (cluster_pass w J E R ns name)
  have "acts J V (env w) (env (snd (Reconcile E R ns name w)))"
    using leads_cluster [OF cluster_pass.hyps(2)] by (simp add: bind.leads_def)
  with cluster_pass.IH show ?case
    by (blast dest: acts_leaks_nothing)
next
  case (machine_killed e J E name recorder ns n cs g)
  have "bind.leads (insert name J) (killed_observer V) (MachineReconcile (killed_ops E) (OmniClient (killed_ops E)) recorder ns name)"
    by (rule machine_pass_acts) (use machine_killed in \<open>auto intro: killed_laws killed_helpers\<close>)
  then have "acts (insert name J) V e (fst (env (snd (MachineReconcile (killed_ops E) (OmniClient (killed_ops E)) recorder ns name
      \<lparr>env = (e, n), calls = cs, series = g\<rparr>))))"
    by (metis (no_types, lifting) bind.leads_def fst_conv killed_acts world.select_convs(1))
  with machine_killed.IH show ?case
    by (blast dest: acts_leaks_nothing)
next
  case (cluster_killed e J E R ns name n cs g)
  have "bind.leads J (killed_observer V) (Reconcile (killed_ops E) R ns name)"
    using cluster_killed.hyps by (intro leads_cluster killed_laws)
  then have "acts J V e (fst (env (snd (Reconcile (killed_ops E) R ns name \<lparr>env = (e, n), calls = cs, series = g\<rparr>))))"
    by (metis (no_types, lifting) bind.leads_def fst_conv killed_acts world.select_convs(1))
  with cluster_killed.IH show ?case
    by (blast dest: acts_leaks_nothing)
qed (auto dest: acts_leaks_nothing)

section \<open>A run\<close>

definition guarded_world :: "versioned world" where
  "guarded_world =
     \<lparr>env = \<lparr>vn_base = empty_memory, vn_keys = [(''ns'', ''m1'')],
             vn_object = (\<lambda>k. if k = (''ns'', ''m1'') then Some sample_machine else None), vn_version = (\<lambda>k. 0)\<rparr>,
      calls = [], series = no_series\<rparr>"

text \<open>The machine becomes bound in this run, and no binding is leaked.\<close>

theorem no_leaked_bindings_witness:
  "let e = env (snd (MachineReconcile versioned_ops (OmniClient versioned_ops) True ''ns'' ''m1'' guarded_world))
   in ''m1'' \<in> ob_Nodes versioned_observer e \<and> leaked versioned_observer e = {}"
proof -
  let ?e = "env (snd (MachineReconcile versioned_ops (OmniClient versioned_ops) True ''ns'' ''m1'' guarded_world))"
  have "mem_view (vn_base ?e) (MachineSetNodeType, ''m1'') \<noteq> None"
    by code_simp
  moreover have "system versioned_observer (env guarded_world) ?e"
    by (rule system.machine_pass [OF system.start versioned_laws [of "{}"] versioned_helpers(2,1)]) simp
  from no_leaked_bindings [OF this] have "leaked versioned_observer ?e = {}"
    by (auto simp: leaked_def guarded_world_def mem_view_def empty_memory_def)
  ultimately show ?thesis by (simp add: Let_def)
qed

end
