(* ===== verification/Kubeconfig_Properties.thy ===== *)
theory Kubeconfig_Properties
  imports Memory_Env Cluster_Controller
begin

text \<open>
  What the kubeconfig Secrets guarantee: a credential is minted only when the stored Secret is
  missing, incomplete or thirty days old, writing the Secret makes it fresh, and what is written can be
  read back: base64 and JSON are decoded by readers defined here as the encoders' specifications.
\<close>

section \<open>When a credential is minted\<close>

lemma secretNeedsRefresh_iff:
  "secretNeedsRefresh E (Some s) k t \<longleftrightarrow> \<not> (\<exists>v r. map_of (sec_Data s) k = Some v \<and>
     time_ParseRFC3339 E (annotation_at s kubeconfigRefreshedAtAnnotation) = Some r \<and>
     t - r < kubeconfigRefreshInterval)"
proof -
  have "kubeconfigRefreshInterval \<le> time_Sub t r \<longleftrightarrow> kubeconfigRefreshInterval \<le> t - r" for r
    by (rule time_Sub_ge) (simp_all add: kubeconfigRefreshInterval_def hour_def minute_def second_def)
  then show ?thesis
    by (cases "map_of (sec_Data s) k";
        cases "time_ParseRFC3339 E (annotation_at s kubeconfigRefreshedAtAnnotation)")
      (simp_all add: secretNeedsRefresh_def not_less)
qed

lemma run_refresh_due:
  assumes "k8s_GetSecret E ns n (env w) = (r, e)"
  shows "refresh_due E ns n what k t w =
    (case r of
       Inl err \<Rightarrow> if IsNotFound err then Inr True
                 else Inl (Wrapf (''get '' @ what @ '' secret '' @ n @ '': '') err '''')
     | Inr s \<Rightarrow> Inr (secretNeedsRefresh E (Some s) k t), w\<lparr>env := e\<rparr>)"
  using assms by (cases r) (auto simp: refresh_due_def run_try_ext io_ret_def io_raise_def)



section \<open>How long a written Secret is left alone\<close>

text \<open>The mutations a pass at time \<open>t\<close> writes with, one for each form of the Secret.\<close>

definition secret_mutation :: "'e ops \<Rightarrow> reconciler \<Rightarrow> string \<Rightarrow> int \<Rightarrow> (secret \<Rightarrow> secret) \<Rightarrow> bool" where
  "secret_mutation E R cn t f \<longleftrightarrow>
     (if rc_ArgoCDClusters R then \<exists>server config. f = argocd_mutation (time_FormatRFC3339 E t) cn server config
      else \<exists>data. f = kubeconfig_mutation (time_FormatRFC3339 E t) data)"

definition secret_key :: "reconciler \<Rightarrow> string" where
  "secret_key R = (if rc_ArgoCDClusters R then ''config'' else ''value'')"

lemma mutated_needs_refresh:
  assumes f: "secret_mutation E R cn t f" and r: "time_ParseRFC3339 E (time_FormatRFC3339 E t) = Some r"
  shows "secretNeedsRefresh E (Some (f s)) (secret_key R) t' \<longleftrightarrow> kubeconfigRefreshInterval \<le> t' - r"
proof -
  have "annotation_at (f s) kubeconfigRefreshedAtAnnotation = time_FormatRFC3339 E t"
    using f by (auto simp: secret_mutation_def kubeconfig_mutation_def argocd_mutation_def stamp_refreshed_def
        annotation_at_def Let_def split: if_splits)
  moreover have "\<exists>v. map_of (sec_Data (f s)) (secret_key R) = Some v"
    using f by (auto simp: secret_mutation_def secret_key_def kubeconfig_mutation_def argocd_mutation_def Let_def split: if_splits)
  ultimately show ?thesis
    using r unfolding secretNeedsRefresh_iff by auto
qed

lemma mutated_keeps:
  assumes "secret_mutation E R cn t f"
  shows "a \<noteq> kubeconfigRefreshedAtAnnotation \<Longrightarrow> map_of (om_Annotations (sec_Meta (f s))) a = map_of (om_Annotations (sec_Meta s)) a"
    and "l \<noteq> ''argocd.argoproj.io/secret-type'' \<Longrightarrow> map_of (om_Labels (sec_Meta (f s))) l = map_of (om_Labels (sec_Meta s)) l"
  using assms by (auto simp: secret_mutation_def kubeconfig_mutation_def argocd_mutation_def stamp_refreshed_def Let_def split: if_splits)

text \<open>Both forms are one program, but for what they make of the kubeconfig.\<close>

definition secret_writer :: "'e ops \<Rightarrow> reconciler \<Rightarrow> string \<Rightarrow> int \<Rightarrow> string \<Rightarrow> ('e, secret \<Rightarrow> secret) io" where
  "secret_writer E R cn t data =
     (if rc_ArgoCDClusters R
      then io_bind (io_lift (argocd_entries E data)) (\<lambda>(server, config).
        io_ret (argocd_mutation (time_FormatRFC3339 E t) cn server config))
      else io_ret (kubeconfig_mutation (time_FormatRFC3339 E t) data))"

definition fetch_secret :: "'e ops \<Rightarrow> reconciler \<Rightarrow> string \<Rightarrow> int \<Rightarrow> ('e, bool) io" where
  "fetch_secret E R cn t =
     io_bind (GetKubeconfig E cn) (\<lambda>data. io_bind (secret_writer E R cn t data) (\<lambda>f.
       io_bind (write_secret E (rc_KubeconfigNamespace R) (secret_name R cn) f) (\<lambda>_. io_ret True)))"

lemma ensureSecret_eq:
  fixes E :: "'e ops"
  shows "ensureSecret E R cn w = io_bind (now E) (\<lambda>t.
     io_bind (refresh_due E (rc_KubeconfigNamespace R) (secret_name R cn)
       (if rc_ArgoCDClusters R then ''argocd cluster'' else ''kubeconfig'') (secret_key R) t)
     (\<lambda>due. if \<not> due then io_ret False else fetch_secret E R cn t)) w"
proof -
  have assoc: "io_bind (io_bind m f) g = io_bind m (\<lambda>x. io_bind (f x) g)" for m :: "('e, 'x) io"
      and f :: "'x \<Rightarrow> ('e, 'y) io" and g :: "'y \<Rightarrow> ('e, 'z) io"
    by (rule ext) (simp add: io_bind_def split: prod.splits sum.splits)
  have ret: "io_bind (io_ret x) g = g x" for x and g :: "'x \<Rightarrow> ('e, 'y) io"
    by (rule ext) (simp add: io_bind_def io_ret_def)
  show ?thesis
    unfolding ensureSecret_def ensureArgoCDClusterSecret_def ensureKubeconfigSecret_def fetch_secret_def
    by (simp add: secret_writer_def secret_name_def secret_key_def Let_def assoc ret case_prod_unfold cong: if_cong)
qed

lemma run_ensureSecret:
  assumes "time_Now E (env w) = (t, e1)"
    and "k8s_GetSecret E (rc_KubeconfigNamespace R) (secret_name R cn) e1 = (Inr s, e2)"
  shows "ensureSecret E R cn w =
    (if secretNeedsRefresh E (Some s) (secret_key R) t then fetch_secret E R cn t else io_ret False) (w\<lparr>env := e2\<rparr>)"
proof -
  have "now E w = (Inr t, w\<lparr>env := e1\<rparr>)"
    using assms(1) by (simp add: now_def ext_def)
  moreover have "refresh_due E (rc_KubeconfigNamespace R) (secret_name R cn) what (secret_key R) t (w\<lparr>env := e1\<rparr>) =
      (Inr (secretNeedsRefresh E (Some s) (secret_key R) t), w\<lparr>env := e2\<rparr>)" for what
    using run_refresh_due [of E _ _ "w\<lparr>env := e1\<rparr>"] assms(2) by simp
  ultimately show ?thesis
    unfolding ensureSecret_eq by (simp add: run_bind)
qed

lemma made_fetch_secret: "KubeconfigRPC cn flux_admin \<in> set (made (fetch_secret E R cn t) w)"
proof -
  obtain r w1 where r: "GetKubeconfig E cn w = (r, w1)" by fastforce
  then have calls: "calls w1 = calls w @ [KubeconfigRPC cn flux_admin]"
    by (auto simp: GetKubeconfig_def io_wrap_def ext_def split: prod.splits sum.splits)
  show ?thesis
  proof (cases r)
    case (Inl err)
    with r calls show ?thesis by (simp add: made_def fetch_secret_def run_bind_error)
  next
    case (Inr data)
    let ?rest = "io_bind (secret_writer E R cn t data) (\<lambda>f.
       io_bind (write_secret E (rc_KubeconfigNamespace R) (secret_name R cn) f) (\<lambda>_. io_ret True))"
    have "grows ?rest"
      unfolding secret_writer_def by (intro effects; simp)
    then have "calls (snd (?rest w1)) = calls w @ KubeconfigRPC cn flux_admin # made ?rest w1"
      using calls_run [of ?rest w1 "fst (?rest w1)" "snd (?rest w1)"] calls by simp
    moreover have "fetch_secret E R cn t w = ?rest w1"
      using r Inr by (simp add: fetch_secret_def run_bind)
    ultimately show ?thesis unfolding made_def [of "fetch_secret E R cn t"] by simp
  qed
qed

lemma fetch_secret_wrote:
  assumes "fetch_secret E R cn t w = (Inr True, w')"
  obtains f e where "secret_mutation E R cn t f"
    and "k8s_CreateOrUpdateSecret E (rc_KubeconfigNamespace R) (secret_name R cn) f e = (Inr (), env w')"
proof -
  obtain data f w1 w2 where f: "secret_writer E R cn t data w1 = (Inr f, w2)"
      "write_secret E (rc_KubeconfigNamespace R) (secret_name R cn) f w2 = (Inr (), w')"
    using assms unfolding fetch_secret_def by (auto simp: io_iff)
  then have "k8s_CreateOrUpdateSecret E (rc_KubeconfigNamespace R) (secret_name R cn) f (env w2) = (Inr (), env w')"
    by (auto simp: write_secret_def ext_def split: prod.splits)
  moreover have "secret_mutation E R cn t f"
    using f(1) by (auto simp: secret_writer_def secret_mutation_def io_iff split: if_splits prod.splits)
  ultimately show ?thesis by (rule that [rotated])
qed

text \<open>C36: Writing the Secret makes it fresh, whichever form the controller keeps. A pass at time \<open>t\<close> that
  reports it wrote the Secret wrote it with a stamp that holds: with a clock format that loses less
  than a second, every later pass that reads back what was written, whatever the Secret held before,
  leaves it alone until thirty days, less that second, have passed, and asks for a new token once they
  have. The token asked for lives longer than any pass that leaves the Secret alone would need it, so
  none expires in place. Labels and annotations of others on the Secret stay.\<close>

theorem refresh_stamp_holds_for_interval:
  assumes format: "\<And>t. \<exists>r. time_ParseRFC3339 E (time_FormatRFC3339 E t) = Some r \<and> r \<le> t \<and> t < r + second"
    and clock: "time_Now E (env w) = (t, e0)" and wrote: "ensureSecret E R cn w = (Inr True, w')"
  shows "\<exists>f e account.
    k8s_CreateOrUpdateSecret E (rc_KubeconfigNamespace R) (secret_name R cn) f e = (Inr (), env w') \<and>
    KubeconfigRPC cn account \<in> set (made (ensureSecret E R cn) w) \<and>
    (\<forall>s v t' e1 e2. time_Now E (env v) = (t', e1) \<and>
        k8s_GetSecret E (rc_KubeconfigNamespace R) (secret_name R cn) e1 = (Inr (f s), e2) \<longrightarrow>
      (t' + second \<le> t + 30 * 24 * hour \<longrightarrow>
        ensureSecret E R cn v = (Inr False, v\<lparr>env := e2\<rparr>) \<and> t' < t + sa_TTL account) \<and>
      (t + 30 * 24 * hour \<le> t' \<longrightarrow> KubeconfigRPC cn account \<in> set (made (ensureSecret E R cn) v))) \<and>
    (\<forall>s a. a \<noteq> kubeconfigRefreshedAtAnnotation \<longrightarrow>
       map_of (om_Annotations (sec_Meta (f s))) a = map_of (om_Annotations (sec_Meta s)) a) \<and>
    (\<forall>s l. l \<noteq> ''argocd.argoproj.io/secret-type'' \<longrightarrow>
       map_of (om_Labels (sec_Meta (f s))) l = map_of (om_Labels (sec_Meta s)) l)"
proof -
  let ?what = "if rc_ArgoCDClusters R then ''argocd cluster'' else ''kubeconfig''"
  let ?due = "refresh_due E (rc_KubeconfigNamespace R) (secret_name R cn) ?what (secret_key R) t"
  obtain r where r: "time_ParseRFC3339 E (time_FormatRFC3339 E t) = Some r" "r \<le> t" "t < r + second"
    using format by blast
  have started: "now E w = (Inr t, w\<lparr>env := e0\<rparr>)"
    using clock by (simp add: now_def ext_def)
  then obtain w1 where due: "?due (w\<lparr>env := e0\<rparr>) = (Inr True, w1)" and fetched: "fetch_secret E R cn t w1 = (Inr True, w')"
    using wrote unfolding ensureSecret_eq by (auto simp: io_iff split: if_splits)
  have "calls w1 = calls w"
    using calls_run [where m = ?due, OF due never_refresh_due] never_made [of "\<lambda>_. True" ?due _ "w\<lparr>env := e0\<rparr>", OF never_refresh_due]
    by (cases "made ?due (w\<lparr>env := e0\<rparr>)") auto
  then have "made (ensureSecret E R cn) w = made (fetch_secret E R cn t) w1"
    using started due unfolding made_def ensureSecret_eq by (simp add: run_bind)
  then have rpc: "KubeconfigRPC cn flux_admin \<in> set (made (ensureSecret E R cn) w)"
    using made_fetch_secret by simp
  obtain f e where f: "secret_mutation E R cn t f"
      and written: "k8s_CreateOrUpdateSecret E (rc_KubeconfigNamespace R) (secret_name R cn) f e = (Inr (), env w')"
    using fetch_secret_wrote [OF fetched] .
  have later: "(t' + second \<le> t + 30 * 24 * hour \<longrightarrow>
        ensureSecret E R cn v = (Inr False, v\<lparr>env := e2\<rparr>) \<and> t' < t + sa_TTL flux_admin) \<and>
      (t + 30 * 24 * hour \<le> t' \<longrightarrow> KubeconfigRPC cn flux_admin \<in> set (made (ensureSecret E R cn) v))"
    if "time_Now E (env v) = (t', e1)"
      and "k8s_GetSecret E (rc_KubeconfigNamespace R) (secret_name R cn) e1 = (Inr (f s), e2)" for s v t' e1 e2
  proof -
    have ttl: "t' + second \<le> t + 30 * 24 * hour \<Longrightarrow> t' < t + sa_TTL flux_admin"
      by (simp add: flux_admin_def hour_def minute_def second_def)
    have "kubeconfigRefreshInterval = 30 * 24 * hour"
      by (simp add: kubeconfigRefreshInterval_def)
    then have "t' + second \<le> t + 30 * 24 * hour \<Longrightarrow> \<not> secretNeedsRefresh E (Some (f s)) (secret_key R) t'"
      and "t + 30 * 24 * hour \<le> t' \<Longrightarrow> secretNeedsRefresh E (Some (f s)) (secret_key R) t'"
      using mutated_needs_refresh [OF f r(1), of s t'] r(2,3) by simp_all
    with ttl made_fetch_secret [of cn E R t' "v\<lparr>env := e2\<rparr>"] show ?thesis
      using run_ensureSecret [OF that] by (simp add: io_ret_def made_def)
  qed
  show ?thesis
    using written rpc later mutated_keeps [OF f] by blast
qed

text \<open>A clock format for the witness: the seconds in unary, of one letter before the epoch and
  another after it.\<close>

definition unary_clock :: "'e ops \<Rightarrow> 'e ops" where
  "unary_clock E = E
     \<lparr>time_FormatRFC3339 := (\<lambda>t. replicate (nat \<bar>t div second\<bar>) (if t < 0 then CHR ''-'' else CHR ''+'')),
      time_ParseRFC3339 := (\<lambda>s. Some (if s \<noteq> [] \<and> hd s = CHR ''-'' then - (int (length s) * second)
        else int (length s) * second))\<rparr>"

lemma unary_clock_format:
  "\<exists>r. time_ParseRFC3339 (unary_clock E) (time_FormatRFC3339 (unary_clock E) t) = Some r \<and> r \<le> t \<and> t < r + second"
proof -
  have pos: "0 < second"
    by (simp add: second_def)
  have split: "t = t div second * second + t mod second" "0 \<le> t mod second" "t mod second < second"
    using pos by simp_all
  have sign: "t < 0 \<longleftrightarrow> t div second < 0"
    using pos_imp_zdiv_nonneg_iff [OF pos, of t] by linarith
  have "time_ParseRFC3339 (unary_clock E) (time_FormatRFC3339 (unary_clock E) t) = Some (t div second * second)"
    using sign by (auto simp: unary_clock_def)
  with split show ?thesis
    by (intro exI [of _ "t div second * second"]) linarith
qed

theorem refresh_stamp_holds_for_interval_witness:
  "\<exists>f e w'. k8s_CreateOrUpdateSecret (unary_clock memory_ops) ''flux'' ''c1-kubeconfig'' f e = (Inr (), env w') \<and>
     ensureSecret (unary_clock memory_ops) \<lparr>rc_Recorder = False, rc_KubeconfigNamespace = ''flux'', rc_ArgoCDClusters = False\<rparr>
       ''c1'' (world_of (empty_memory\<lparr>mem_clock := 0\<rparr>)) = (Inr True, w')"
proof -
  let ?E = "unary_clock memory_ops" and ?w = "world_of (empty_memory\<lparr>mem_clock := 0\<rparr>)"
  let ?R = "\<lparr>rc_Recorder = False, rc_KubeconfigNamespace = ''flux'', rc_ArgoCDClusters = False\<rparr>"
  have "fst (ensureSecret ?E ?R ''c1'' ?w) = Inr True"
    by code_simp
  then obtain w' where wrote: "ensureSecret ?E ?R ''c1'' ?w = (Inr True, w')"
    by (cases "ensureSecret ?E ?R ''c1'' ?w") simp
  have clock: "time_Now ?E (env ?w) = (0, empty_memory\<lparr>mem_clock := 1000000000\<rparr>)"
    by (simp add: unary_clock_def memory_fields)
  from refresh_stamp_holds_for_interval [OF unary_clock_format clock wrote] wrote show ?thesis
    by (auto simp: secret_name_def)
qed

section \<open>Base64\<close>

text \<open>The standard decoder as the specification of the encoder.\<close>

definition base64_value :: "char \<Rightarrow> nat" where
  "base64_value c =
    (let n = of_char c :: nat
     in if 65 \<le> n \<and> n \<le> 90 then n - 65
        else if 97 \<le> n \<and> n \<le> 122 then n - 71
        else if 48 \<le> n \<and> n \<le> 57 then n + 4
        else if n = 43 then 62 else 63)"

fun base64_decode :: "string \<Rightarrow> string" where
  "base64_decode (a # b # c # d # rest) =
    (let x = base64_value a; y = base64_value b; z = base64_value c; u = base64_value d
     in char_of (x * 4 + y div 16) #
        (if c = CHR ''='' then []
         else char_of ((y mod 16) * 16 + z div 4) #
           (if d = CHR ''='' then []
            else char_of ((z mod 4) * 64 + u) # base64_decode rest)))"
| "base64_decode _ = []"

lemma base64_value_digit: "n < 64 \<Longrightarrow> base64_value (base64_digit n) = n"
  by (auto simp: base64_value_def base64_digit_def Let_def of_char_of take_bit_eq_mod)

lemma base64_digit_not_pad: "n < 64 \<Longrightarrow> base64_digit n \<noteq> CHR ''=''"
proof
  assume n: "n < 64" and eq: "base64_digit n = CHR ''=''"
  have "(of_char (base64_digit n) :: nat) = 61"
    unfolding eq by simp
  with n show False
    by (auto simp: base64_digit_def of_char_of take_bit_eq_mod split: if_splits)
qed

lemma of_char_less: "(of_char c :: nat) < 256"
  by (metis of_char_eq_iff of_char_mod_256 mod_less_divisor zero_less_numeral)

lemma sextets:
  assumes "x < (256::nat)" and "y < (256::nat)" and "z < (256::nat)"
  shows "x div 4 < 64" and "x mod 4 * 16 + y div 16 < 64" and "y mod 16 * 4 + z div 64 < 64" and "z mod 64 < 64"
    and "x mod 4 * 16 < 64" and "y mod 16 * 4 < 64"
proof -
  have "y div 16 < 16" "z div 64 < 4" "x mod 4 \<le> 3" "y mod 16 \<le> 15"
    using assms by auto
  then show "x div 4 < 64" "x mod 4 * 16 + y div 16 < 64" "y mod 16 * 4 + z div 64 < 64" "z mod 64 < 64"
    "x mod 4 * 16 < 64" "y mod 16 * 4 < 64"
    using assms(1) by linarith+
qed

lemma octets:
  assumes "y < (256::nat)" and "z < (256::nat)"
  shows "x div 4 * 4 + (x mod 4 * 16 + y div 16) div 16 = (x::nat)"
    and "(x mod 4 * 16 + y div 16) mod 16 * 16 + (y mod 16 * 4 + z div 64) div 4 = y"
    and "(y mod 16 * 4 + z div 64) mod 4 * 64 + z mod 64 = z"
    and "x div 4 * 4 + x mod 4 * 16 div 16 = x"
    and "(x mod 4 * 16 + y div 16) mod 16 * 16 + y mod 16 * 4 div 4 = y"
proof -
  have small: "y div 16 < 16" "z div 64 < 4"
    using assms by auto
  have "(q * 16 + r) div 16 = q" "(q * 16 + r) mod 16 = r" if "r < 16" for q r :: nat
    using that by simp_all
  moreover have "(q * 4 + r) div 4 = q" "(q * 4 + r) mod 4 = r" if "r < 4" for q r :: nat
    using that by simp_all
  ultimately show "x div 4 * 4 + (x mod 4 * 16 + y div 16) div 16 = x"
    "(x mod 4 * 16 + y div 16) mod 16 * 16 + (y mod 16 * 4 + z div 64) div 4 = y"
    "(y mod 16 * 4 + z div 64) mod 4 * 64 + z mod 64 = z"
    "x div 4 * 4 + x mod 4 * 16 div 16 = x"
    "(x mod 4 * 16 + y div 16) mod 16 * 16 + y mod 16 * 4 div 4 = y"
    using small by simp_all
qed

text \<open>The base64 encoder that writes the certificate authority into the ArgoCD configuration is
  lossless: decoding gives the bytes back; and its output is padded to whole groups of four.\<close>

lemma base64_round_trip:
  "base64_decode (base64_EncodeToString s) = s \<and>
   length (base64_EncodeToString s) = 4 * ((length s + 2) div 3)"
proof (induction s rule: base64_EncodeToString.induct)
  case 1
  show ?case by simp
next
  case (2 a)
  note a = of_char_less [of a]
  show ?case
    by (simp add: Let_def base64_value_digit sextets [OF a a a] octets [OF a a])
next
  case (3 a b)
  note a = of_char_less [of a] and b = of_char_less [of b]
  have "(of_char b :: nat) div 16 < 16"
    by (rule less_mult_imp_div_less) simp
  then show ?case
    by (simp add: Let_def base64_value_digit base64_digit_not_pad sextets [OF a b b] octets [OF b b])
next
  case (4 a b c rest)
  note a = of_char_less [of a] and b = of_char_less [of b] and c = of_char_less [of c]
  have small: "(of_char b :: nat) div 16 < 16" "(of_char c :: nat) div 64 < 4"
    by (rule less_mult_imp_div_less, simp)+
  have len: "(5 + length rest) div 3 = Suc (Suc (Suc (length rest)) div 3)"
    by arith
  show ?case
    using "4.IH" [OF refl refl refl] small
    by (simp add: Let_def base64_value_digit base64_digit_not_pad sextets [OF a b c] octets [OF b c] len)
qed

section \<open>The ArgoCD configuration\<close>

text \<open>A reader of the JSON text as the specification of its writer: a string literal, and the object
  ArgoCD expects, with the certificate authority left out when empty.\<close>

definition hex_value :: "char \<Rightarrow> nat" where
  "hex_value c = (let n = of_char c :: nat in if n < 58 then n - 48 else n - 87)"

definition escaped :: "char \<Rightarrow> char" where
  "escaped c =
     (if c = CHR ''b'' then char_of (8::nat) else if c = CHR ''t'' then char_of (9::nat)
      else if c = CHR ''n'' then char_of (10::nat) else if c = CHR ''f'' then char_of (12::nat)
      else if c = CHR ''r'' then char_of (13::nat) else c)"

fun json_body :: "string \<Rightarrow> (string \<times> string) option" where
  "json_body [] = None"
| "json_body (c # s) =
     (if (of_char c :: nat) = 34 then Some ([], s)
      else if (of_char c :: nat) \<noteq> 92 then map_option (\<lambda>(t, r). (c # t, r)) (json_body s)
      else case s of
        [] \<Rightarrow> None
      | d # s' \<Rightarrow>
          if d \<noteq> CHR ''u'' then map_option (\<lambda>(t, r). (escaped d # t, r)) (json_body s')
          else case s' of
            z # y # h # l # r' \<Rightarrow>
              map_option (\<lambda>(t, r). (char_of (16 * hex_value h + hex_value l) # t, r)) (json_body r')
          | _ \<Rightarrow> None)"

definition json_read :: "string \<Rightarrow> (string \<times> string) option" where
  "json_read s = (case s of c # r \<Rightarrow> if (of_char c :: nat) = 34 then json_body r else None | [] \<Rightarrow> None)"

lemma hex_value_digit: "n < 16 \<Longrightarrow> hex_value (hex_digit n) = n"
  by (auto simp: hex_value_def hex_digit_def of_char_of take_bit_eq_mod Let_def)

lemma plain_escapes: "escaped (char_of (34::nat)) = char_of (34::nat)" "escaped (char_of (92::nat)) = char_of (92::nat)"
  "char_of (34::nat) \<noteq> CHR ''u''" "char_of (92::nat) \<noteq> CHR ''u''"
  by code_simp+

lemma json_body_char: "json_body (json_char c @ r) = map_option (\<lambda>(t, u). (c # t, u)) (json_body r)"
proof -
  define n where "n = (of_char c :: nat)"
  have n: "n < 256" and c: "char_of n = c"
    using of_char_less [of c] by (simp_all add: n_def)
  have simple: "json_body (char_of (92::nat) # d # r) = map_option (\<lambda>(t, u). (escaped d # t, u)) (json_body r)"
    if "d \<noteq> CHR ''u''" for d
    using that by (simp add: of_char_of take_bit_eq_mod)
  show ?thesis
  proof (cases "n \<in> {34, 92, 8, 9, 10, 12, 13}")
    case True
    then consider "n = 34" | "n = 92" | "n = 8" | "n = 9" | "n = 10" | "n = 12" | "n = 13"
      by auto
    then show ?thesis
    proof cases
      case 1
      with c have c': "c = char_of (34::nat)"
        by simp
      have "c \<noteq> CHR ''u''" "escaped c = c" "(of_char c :: nat) = 34"
        using \<open>n = 34\<close> by (simp_all only: n_def, simp_all only: c' plain_escapes not_False_eq_True)
      then show ?thesis by (simp add: json_char_def Let_def simple)
    next
      case 2
      with c have c': "c = char_of (92::nat)"
        by simp
      have "c \<noteq> CHR ''u''" "escaped c = c" "(of_char c :: nat) = 92"
        using \<open>n = 92\<close> by (simp_all only: n_def, simp_all only: c' plain_escapes not_False_eq_True)
      then show ?thesis by (simp add: json_char_def Let_def simple)
    qed (use c [symmetric] in \<open>simp_all add: json_char_def simple escaped_def of_char_of take_bit_eq_mod\<close>)
  next
    case False
    show ?thesis
    proof (cases "n < 32 \<or> n = 38 \<or> n = 60 \<or> n = 62")
      case True
      have "n div 16 < 16" "n mod 16 < 16"
        using n by auto
      then have "char_of (16 * hex_value (hex_digit (n div 16)) + hex_value (hex_digit (n mod 16))) = c"
        using c by (simp add: hex_value_digit)
      with True False show ?thesis
        by (simp add: json_char_def Let_def n_def [symmetric] of_char_of take_bit_eq_mod)
    next
      case plain: False
      with False show ?thesis
        by (simp add: json_char_def Let_def n_def [symmetric])
    qed
  qed
qed

lemma json_read_string: "json_read (json_string s @ r) = Some (s, r)"
proof -
  have "json_body (concat (map json_char s) @ char_of (34::nat) # r) = Some (s, r)"
    by (induction s) (simp_all add: json_body_char of_char_of take_bit_eq_mod)
  then show ?thesis
    by (simp add: json_read_def json_string_def of_char_of take_bit_eq_mod)
qed

definition expect :: "string \<Rightarrow> string \<Rightarrow> string option" where
  "expect p s = (if take (length p) s = p then Some (drop (length p) s) else None)"

lemma expect_append [simp]: "expect p (p @ s) = Some s"
  by (simp add: expect_def)

definition token_key :: string where
  "token_key = ''{'' @ json_string ''bearerToken'' @ '':''"

definition tls_key :: string where
  "tls_key = '','' @ json_string ''tlsClientConfig'' @ '':{'' @ json_string ''insecure'' @ '':false''"

definition ca_key :: string where
  "ca_key = '','' @ json_string ''caData'' @ '':''"

definition argo_config_read :: "string \<Rightarrow> (string \<times> string) option" where
  "argo_config_read s =
     Option.bind (expect token_key s) (\<lambda>s1.
     Option.bind (json_read s1) (\<lambda>(token, s2).
     Option.bind (expect tls_key s2) (\<lambda>s3.
     if s3 = ''}}'' then Some (token, '''')
     else Option.bind (expect ca_key s3) (\<lambda>s4.
          Option.bind (json_read s4) (\<lambda>(ca, s5). if s5 = ''}}'' then Some (token, ca) else None)))))"

lemma argo_config_json_keys:
  "argo_config_json token ca =
     token_key @ json_string token @ tls_key @ (if ca = '''' then '''' else ca_key @ json_string ca) @ ''}}''"
  by (simp add: argo_config_json_def token_key_def tls_key_def ca_key_def)

lemma argo_config_round_trip: "argo_config_read (argo_config_json token ca) = Some (token, ca)"
proof -
  have "ca_key \<noteq> []"
    by (simp add: ca_key_def)
  then show ?thesis
    unfolding argo_config_read_def argo_config_json_keys by (simp add: json_read_string)
qed

text \<open>C37: The ArgoCD Secret carries the credentials of the kubeconfig, losslessly. When the kubeconfig
  parses and names a context, a cluster and a user, the entries are that cluster's server and a JSON
  object from which a reader gets back the user's token and, through base64, the bytes of the
  cluster's certificate authority; every reference that is missing is an error instead.\<close>

theorem argocd_entries_carry_credentials:
  "case k8s_LoadKubeconfig E data of
     Inl err \<Rightarrow> argocd_entries E data = Inl (Wrapf ''parse kubeconfig: '' err '''')
   | Inr cfg \<Rightarrow>
       (case argocd_entries E data of
          Inl err \<Rightarrow> (map_of (kc_Contexts cfg) (kc_CurrentContext cfg) = None \<or>
            (\<exists>x. map_of (kc_Contexts cfg) (kc_CurrentContext cfg) = Some x \<and>
              (map_of (kc_Clusters cfg) (kctx_Cluster x) = None \<or> map_of (kc_AuthInfos cfg) (kctx_AuthInfo x) = None)))
        | Inr (server, config) \<Rightarrow> (\<exists>x cl token ca.
            map_of (kc_Contexts cfg) (kc_CurrentContext cfg) = Some x \<and> map_of (kc_Clusters cfg) (kctx_Cluster x) = Some cl \<and>
            map_of (kc_AuthInfos cfg) (kctx_AuthInfo x) = Some token \<and> server = kcl_Server cl \<and>
            argo_config_read config = Some (token, ca) \<and> base64_decode ca = kcl_CertificateAuthorityData cl))"
  by (auto simp: argocd_entries_def argo_config_round_trip base64_round_trip split: sum.splits option.splits)

end
