(* ===== verification/Cluster_Properties.thy ===== *)
theory Cluster_Properties
  imports Drift_Properties
begin

text \<open>
  What the cluster controller guarantees beyond allocation and drift: which machine sets pruning may
  remove, what deletion waits for, what stays with another owner, and the scope of a reconcile.
\<close>

section \<open>Machine sets that left the spec\<close>

lemma removal_in_prune:
  assumes c: "c \<in> set (made (pruneMachineSet E cluster cn s) v)" and omni: "call_type c \<noteq> None"
  obtains v1 where "listMachineSetMachines E (oc_Namespace cluster) cn s v = (Inr [], v1)"
    and "c \<in> {TeardownResource MachineSetType i, DestroyResource MachineSetType i} \<Longrightarrow> i = s"
proof -
  obtain remaining v2 where r: "deleteMachineSetMachines E cluster cn s v = (Inr remaining, v2)"
      and c1: "c \<in> set (made (if 0 < remaining
       then io_raise (Errorf (''waiting for '' @ show_nat remaining @ '' machine(s) in orphaned set '' @
                              s @ '' to finish teardown''))
       else io_bind
              (releaseNodes E cn
                 (\<lambda>e. Wrapf (''release machine from orphaned set '' @ s @ '': '') e '''') s) (\<lambda>_.
            io_bind
              (io_wrap (\<lambda>e. Wrapf (''delete extensions configuration for orphaned machine set '' @ s @ '': '') e '''')
                 (DeleteExtensionsConfigurationForMachineSet E s)) (\<lambda>_.
            io_wrap (\<lambda>e. Wrapf (''delete orphaned machine set '' @ s @ '': '') e '''')
              (DeleteMachineSet E s)))) v2)"
    using c unfolding pruneMachineSet_def
    by (rule made_rest) ((intro effects; use omni in auto), (intro effects; simp), simp only:)
  have "remaining = 0"
    using c1 by (auto split: if_splits)
  with r obtain v1 where "listMachineSetMachines E (oc_Namespace cluster) cn s v = (Inr [], v1)"
    by (auto simp: deleteMachineSetMachines_def io_iff)
  moreover have "i = s" if "c \<in> {TeardownResource MachineSetType i, DestroyResource MachineSetType i}"
  proof (rule ccontr)
    assume "i \<noteq> s"
    with that have "never (\<lambda>d. d = c) (pruneMachineSet E cluster cn s)"
      unfolding pruneMachineSet_def releaseNodes_def releaseMachineOmni_def DeleteMachineSetNode_def
        DeleteKernelArgsForMachine_def OmniClient_simps
      by (intro effects) auto
    from never_made [OF this c] show False by simp
  qed
  ultimately show thesis
    by (rule that)
qed

text \<open>C12: Pruning removes only machine sets the spec no longer wants. Every call on an Omni resource in
  \<open>pruneOrphanedMachineSets\<close> belongs to the round of a set \<open>s\<close> that Omni listed for the cluster and
  that is neither the control plane, by the ID Omni's library gives it, nor the set of a worker group
  of the spec, whose ID is the cluster's name, a dash and the group's name; that round began by
  listing the \<open>Machine\<close> objects of \<open>s\<close> and found none, so their own teardown is over; and a machine
  set it removes is \<open>s\<close> itself.\<close>

theorem prune_spares_desired_sets:
  assumes c: "c \<in> set (made (pruneOrphanedMachineSets E cluster cn) w)" and omni: "call_type c \<noteq> None"
  shows "\<exists>before s after w1 v v1.
    ListMachineSetIDsForCluster E cn w = (Inr (before @ s # after), w1) \<and>
    s \<noteq> omni_ControlPlanesResourceID E cn \<and>
    (\<forall>worker \<in> set (ocs_Workers (oc_Spec cluster)). s \<noteq> cn @ ''-'' @ wms_Name worker) \<and>
    io_for before (pruneIfOrphaned E cluster cn) w1 = (Inr (), v) \<and>
    listMachineSetMachines E (oc_Namespace cluster) cn s v = (Inr [], v1) \<and>
    c \<in> set (made (pruneMachineSet E cluster cn s) v) \<and>
    (\<forall>i. c \<in> {TeardownResource MachineSetType i, DestroyResource MachineSetType i} \<longrightarrow> i = s)"
proof -
  obtain actual w1 where l: "ListMachineSetIDsForCluster E cn w = (Inr actual, w1)"
      and c1: "c \<in> set (made (io_for actual (pruneIfOrphaned E cluster cn)) w1)"
    using c unfolding pruneOrphanedMachineSets_def
    by (rule made_rest) ((intro effects), (unfold pruneIfOrphaned_def, intro effects; simp), simp only: io_wrap_iff)
  obtain before s after v where run: "actual = before @ s # after"
      "io_for before (pruneIfOrphaned E cluster cn) w1 = (Inr (), v)"
      and c2: "c \<in> set (made (pruneIfOrphaned E cluster cn s) v)"
    using c1 by (rule made_forE) (unfold pruneIfOrphaned_def, intro effects; simp)
  have s: "s \<noteq> omni_ControlPlanesResourceID E cn"
      "\<forall>worker \<in> set (ocs_Workers (oc_Spec cluster)). s \<noteq> cn @ ''-'' @ wms_Name worker"
    and c3: "c \<in> set (made (pruneMachineSet E cluster cn s) v)"
    using c2 by (auto simp: pruneIfOrphaned_def desiredMachineSets_def workerSetID_def split: if_splits)
  with removal_in_prune [OF c3 omni] run l show ?thesis
    by metis
qed


definition owned_by_sample :: "typed_spec \<Rightarrow> string \<Rightarrow> resource" where
  "owned_by_sample spec i =
     \<lparr>r_ID = i, r_Labels = [(''cluster'', ''c1''), (ownerLabel, ''ns/c1'')], r_Spec = spec\<rparr>"

definition orphan_world :: "memory world" where
  "orphan_world = world_of (empty_memory\<lparr>mem_resources :=
     [owned_by_sample MachineSetSpec ''c1-control-planes'', owned_by_sample MachineSetSpec ''c1-old'']\<rparr>)"

lemma orphan_removed:
  "list_ex (\<lambda>c. c = DestroyResource MachineSetType ''c1-old'')
     (made (pruneOrphanedMachineSets memory_ops sample_cluster ''c1'') orphan_world)"
  by code_simp

theorem prune_spares_desired_sets_witness:
  "\<exists>w1 before after. ListMachineSetIDsForCluster memory_ops ''c1'' orphan_world = (Inr (before @ ''c1-old'' # after), w1) \<and>
     ''c1-old'' \<noteq> omni_ControlPlanesResourceID memory_ops ''c1''"
proof -
  have "DestroyResource MachineSetType ''c1-old'' \<in> set (made (pruneOrphanedMachineSets memory_ops sample_cluster ''c1'') orphan_world)"
    using orphan_removed by (simp add: list_ex_iff)
  from prune_spares_desired_sets [OF this] show ?thesis
    by force
qed

section \<open>Deleting a cluster\<close>

lemma delete_before_waiting:
  fixes E :: "'e ops" and recorder :: bool
  assumes secrets: "deleteKubeconfigSecrets E kns (oc_Name cluster) w1 = (Inr (), w2)"
    and listed: "listClusterMachines E (oc_Namespace cluster) (oc_Name cluster) w2 = (Inr machines, w3)"
    and some: "machines \<noteq> []"
  defines "rest \<equiv> \<lambda>_. io_bind (deleteMachineSets E (oc_Name cluster)) (\<lambda>_. io_bind (DeleteCluster E (oc_Name cluster)) (\<lambda>_.
    eventf recorder EventTypeNormal ''ClusterDeleted'' ''Omni cluster resources deleted''))"
  defines "del \<equiv> io_bind (deleteKubeconfigSecrets E kns (oc_Name cluster)) (\<lambda>_. io_bind (deleteClusterMachines E cluster (oc_Name cluster)) rest)"
  shows "isl (fst (del w1)) \<and> (\<forall>c \<in> set (made del w1). (\<exists>n. c = DeleteSecret kns n) \<or>
    (\<exists>m \<in> set machines. m_DeletionTimestamp m = None \<and> c = DeleteMachine (m_Namespace m) (m_Name m)))"
proof
  let ?loop = "io_for machines (\<lambda>m. io_wrap (\<lambda>e. Wrapf (''delete machine '' @ m_Name m @ '': '') e '''') (deleteMachine E m))"
  let ?wait = "\<lambda>_. io_raise (Errorf (''waiting for '' @ show_nat (length machines) @ '' machine(s) to finish teardown'')) :: ('e, unit) io"
  have grows_rest: "grows (rest u)" for u :: unit
    unfolding rest_def by (intro effects; simp)
  have stop: "deleteClusterMachines E cluster (oc_Name cluster) w2 = io_bind ?loop ?wait w3"
    using some by (simp add: deleteClusterMachines_def run_steps listed)
  have failed: "isl (fst (io_bind ?loop ?wait w3))"
    by (auto simp: io_bind_def io_raise_def split: prod.splits sum.splits)
  then obtain err w4 where err: "io_bind ?loop ?wait w3 = (Inl err, w4)"
    by (cases "io_bind ?loop ?wait w3"; cases "fst (io_bind ?loop ?wait w3)") auto
  with stop have "deleteClusterMachines E cluster (oc_Name cluster) w2 = (Inl err, w4)" by (simp only:)
  then have "del w1 = (Inl err, w4)"
    using secrets unfolding del_def by (simp add: run_bind run_bind_error)
  then show "isl (fst (del w1))" by simp
  show "\<forall>c \<in> set (made del w1). (\<exists>n. c = DeleteSecret kns n) \<or>
      (\<exists>m \<in> set machines. m_DeletionTimestamp m = None \<and> c = DeleteMachine (m_Namespace m) (m_Name m))"
  proof (intro ballI disjCI)
    fix c
    assume c: "c \<in> set (made del w1)"
      and other: "\<not> (\<exists>m \<in> set machines. m_DeletionTimestamp m = None \<and> c = DeleteMachine (m_Namespace m) (m_Name m))"
    show "\<exists>n. c = DeleteSecret kns n"
    proof (rule ccontr)
      assume "\<not> (\<exists>n. c = DeleteSecret kns n)"
      then have "never (\<lambda>d. d = c) (deleteKubeconfigSecrets E kns (oc_Name cluster))"
        by (intro effects) auto
      moreover have "grows (io_bind (deleteClusterMachines E cluster (oc_Name cluster)) rest)"
        by (intro effects grows_rest; simp)
      ultimately obtain u v where "deleteKubeconfigSecrets E kns (oc_Name cluster) w1 = (Inr u, v)"
          "c \<in> set (made (io_bind (deleteClusterMachines E cluster (oc_Name cluster)) rest) v)"
        using c unfolding del_def by - (rule made_rest)
      then have "c \<in> set (made (deleteClusterMachines E cluster (oc_Name cluster)) w2)"
        using secrets err stop by (simp add: made_def run_bind_error)
      moreover have "calls w3 = calls w2"
        using listed by (auto simp: listClusterMachines_def ext_def split: prod.splits)
      ultimately have "c \<in> set (made (io_bind ?loop ?wait) w3)"
        by (simp add: made_def stop)
      moreover have "never (\<lambda>d. d = c) (io_bind ?loop ?wait)"
        using other by (intro effects) auto
      ultimately show False
        using never_made by blast
    qed
  qed
qed

text \<open>C13: \<open>deleteOmniResources\<close> touches Omni only when the Omni cluster is absent, unowned or its own, after
  the credential secrets are gone, and after listing the cluster's \<open>Machine\<close> objects and finding
  none. While one is left, whose finalizer still has to release its Omni state, it returns an error,
  so that the pass keeps the cluster's finalizer (C25), and all it asks for is the deletion of the
  credential secrets and of the listed \<open>Machine\<close>s that are not being deleted already.\<close>

theorem delete_waits_for_machines:
  "(\<forall>c \<in> set (made (deleteOmniResources E recorder kns cluster) w). call_type c \<noteq> None \<longrightarrow> (\<exists>owner w1 w2 w3.
      ClusterOwner E (oc_Name cluster) w = (Inr owner, w1) \<and> owner \<in> {None, Some (ownerOf cluster)} \<and>
      deleteKubeconfigSecrets E kns (oc_Name cluster) w1 = (Inr (), w2) \<and>
      listClusterMachines E (oc_Namespace cluster) (oc_Name cluster) w2 = (Inr [], w3))) \<and>
    (\<forall>owner w1 w2 machines w3.
        ClusterOwner E (oc_Name cluster) w = (Inr owner, w1) \<and> owner \<in> {None, Some (ownerOf cluster)} \<and>
        deleteKubeconfigSecrets E kns (oc_Name cluster) w1 = (Inr (), w2) \<and>
        listClusterMachines E (oc_Namespace cluster) (oc_Name cluster) w2 = (Inr machines, w3) \<and> machines \<noteq> [] \<longrightarrow>
      isl (fst (deleteOmniResources E recorder kns cluster w)) \<and>
      (\<forall>c \<in> set (made (deleteOmniResources E recorder kns cluster) w). (\<exists>n. c = DeleteSecret kns n) \<or>
        (\<exists>m \<in> set machines. m_DeletionTimestamp m = None \<and> c = DeleteMachine (m_Namespace m) (m_Name m))))"
proof -
  let ?n = "oc_Name cluster"
  let ?rest = "io_bind (deleteClusterMachines E cluster ?n) (\<lambda>_. io_bind (deleteMachineSets E ?n) (\<lambda>_.
      io_bind (DeleteCluster E ?n) (\<lambda>_. eventf recorder EventTypeNormal ''ClusterDeleted'' ''Omni cluster resources deleted'')))"
  let ?del = "io_bind (deleteKubeconfigSecrets E kns ?n) (\<lambda>_. ?rest)"
  obtain r w1 where r: "ClusterOwner E ?n w = (r, w1)" by fastforce
  have calls: "calls w1 = calls w"
    using calls_run [OF r atmost_ClusterOwner] never_made [OF atmost_ClusterOwner, of _ E ?n w "\<lambda>_. True"]
    by (cases "made (ClusterOwner E ?n) w") auto
  have touched: "\<exists>w2 w3. deleteKubeconfigSecrets E kns ?n w1 = (Inr (), w2) \<and>
      listClusterMachines E (oc_Namespace cluster) ?n w2 = (Inr [], w3)"
    if c: "c \<in> set (made ?del w1)" and omni: "call_type c \<noteq> None" for c
  proof -
    obtain u w2 where secrets: "deleteKubeconfigSecrets E kns ?n w1 = (Inr u, w2)" and c3: "c \<in> set (made ?rest w2)"
      using c by (rule made_rest) ((intro effects; use omni in auto), (intro effects; simp), simp only:)
    obtain u' w3 where "deleteClusterMachines E cluster ?n w2 = (Inr u', w3)"
      using c3 by (rule made_rest) ((intro effects; use omni in auto), (intro effects; simp), simp only:)
    then obtain w4 where "listClusterMachines E (oc_Namespace cluster) ?n w2 = (Inr [], w4)"
      by (auto simp: deleteClusterMachines_def io_iff split: if_splits)
    with secrets show ?thesis by auto
  qed
  show ?thesis
  proof (cases r)
    case (Inl err)
    with r calls show ?thesis
      by (simp add: deleteOmniResources_def Let_def run_bind_error made_def)
  next
    case (Inr owner)
    let ?ours = "owner \<in> {None, Some (ownerOf cluster)}"
    have run: "deleteOmniResources E recorder kns cluster w = (if ?ours then ?del w1 else io_ret () w1)"
      using r Inr by (simp add: deleteOmniResources_def Let_def run_bind)
    then have made: "made (deleteOmniResources E recorder kns cluster) w = (if ?ours then made ?del w1 else [])"
      using calls by (simp add: made_def io_ret_def)
    show ?thesis
    proof (cases ?ours)
      case True
      show ?thesis
        unfolding made using r Inr True touched delete_before_waiting [of E kns cluster w1, where recorder = recorder] run
        by (intro conjI; simp; blast?)
    next
      case False
      then have "made (deleteOmniResources E recorder kns cluster) w = []" unfolding made by (rule if_not_P)
      with r Inr False show ?thesis by auto
    qed
  qed
qed

definition deleted_world :: "memory world" where
  "deleted_world = world_of (empty_memory\<lparr>mem_resources :=
     [owned_by_sample (ClusterSpec ''1.30.0'' ''v1.8.0'') ''c1'', owned_by_sample MachineSetSpec ''c1-control-planes'']\<rparr>)"

lemma cluster_removed:
  "list_ex (\<lambda>c. c = DestroyResource ClusterType ''c1'') (made (deleteOmniResources memory_ops True ''argocd'' sample_cluster) deleted_world)"
  by code_simp

theorem delete_waits_for_machines_witness:
  "\<exists>w1 w2 w3. deleteKubeconfigSecrets memory_ops ''argocd'' ''c1'' w1 = (Inr (), w2) \<and>
     listClusterMachines memory_ops ''ns'' ''c1'' w2 = (Inr [], w3)"
proof -
  have "DestroyResource ClusterType ''c1'' \<in> set (made (deleteOmniResources memory_ops True ''argocd'' sample_cluster) deleted_world)"
    using cluster_removed by (simp add: list_ex_iff)
  from delete_waits_for_machines [THEN conjunct1, rule_format, OF this] show ?thesis
    by (auto simp: sample_cluster_def empty_meta_def)
qed

definition deleting :: "omni_cluster \<Rightarrow> omni_cluster" where
  "deleting c = c\<lparr>oc_Meta := (oc_Meta c)\<lparr>om_DeletionTimestamp := Some 0, om_Finalizers := [finalizerName]\<rparr>\<rparr>"

text \<open>C26: Deleting an \<open>OmniCluster\<close> whose Omni cluster belongs to another one leaves Omni, the \<open>Machine\<close>
  objects and the secrets alone: the only call of the reconcile is the update that drops the
  finalizer, so the object goes and the other owner keeps everything.\<close>

theorem foreign_cluster_survives_deletion:
  assumes deleted: "om_DeletionTimestamp (oc_Meta cluster) \<noteq> None"
    and fin: "k8s_ContainsFinalizer E (om_Finalizers (oc_Meta cluster)) finalizerName"
    and owner: "ClusterOwner E (oc_Name cluster) w = (Inr (Some other), w1)" and foreign: "other \<noteq> ownerOf cluster"
  shows "made (reconcileCluster E R cluster) w =
    [UpdateCluster (with_cluster_finalizers
       (k8s_RemoveFinalizer E (om_Finalizers (oc_Meta cluster)) finalizerName) cluster)]"
proof -
  have calls: "calls w1 = calls w"
    using calls_run [OF owner atmost_ClusterOwner] never_made [OF atmost_ClusterOwner, of _ E "oc_Name cluster" w "\<lambda>_. True"]
    by (cases "made (ClusterOwner E (oc_Name cluster)) w") auto
  have "deleteOmniResources E (rc_Recorder R) (rc_KubeconfigNamespace R) cluster w = (Inr (), w1)"
    using owner foreign by (simp add: deleteOmniResources_def Let_def run_bind io_ret_def)
  then show ?thesis
    using deleted fin calls
    by (auto simp: reconcileCluster_def Let_def made_def io_defs split: prod.splits sum.splits)
qed

theorem foreign_cluster_survives_deletion_witness:
  "made (reconcileCluster memory_ops \<lparr>rc_Recorder = True, rc_KubeconfigNamespace = ''argocd'', rc_ArgoCDClusters = True\<rparr>
     (deleting (sample_cluster\<lparr>oc_Meta := empty_meta ''c1'' ''other''\<rparr>))) deleted_world \<noteq> []"
proof -
  let ?c = "deleting (sample_cluster\<lparr>oc_Meta := empty_meta ''c1'' ''other''\<rparr>)"
  have "ClusterOwner memory_ops (oc_Name ?c) deleted_world = (Inr (Some ''ns/c1''), deleted_world)"
    by (simp add: ClusterOwner_def StateGet_def io_defs memory_simps deleted_world_def owned_by_sample_def
        empty_memory_def deleting_def empty_meta_def get_label_def ownerLabel_def world_of_def)
  moreover have "''ns/c1'' \<noteq> ownerOf ?c"
    by code_simp
  ultimately show ?thesis
    by (subst foreign_cluster_survives_deletion) (simp_all add: deleting_def memory_fields)
qed


text \<open>C25: The finalizer of a deleted \<open>OmniCluster\<close> is dropped only by a pass in which
  \<open>deleteOmniResources\<close> returned without error, and by then every Prometheus series of the cluster is
  gone, those of the other clusters untouched; the object written is the one read less the finalizer.\<close>

theorem cluster_finalizer_removed_after_cleanup:
  assumes deleted: "om_DeletionTimestamp (oc_Meta cluster) \<noteq> None"
    and c: "UpdateCluster c' \<in> set (made (reconcileCluster E R cluster) w)"
  shows "\<exists>w1. deleteOmniResources E (rc_Recorder R) (rc_KubeconfigNamespace R) cluster w = (Inr (), w1) \<and>
    c' = with_cluster_finalizers (k8s_RemoveFinalizer E (om_Finalizers (oc_Meta cluster)) finalizerName) cluster \<and>
    \<not> cluster_has_series (oc_Name cluster) (oc_Namespace cluster) (series (snd (reconcileCluster E R cluster w))) \<and>
    (\<forall>name ns. (name, ns) \<noteq> (oc_Name cluster, oc_Namespace cluster) \<longrightarrow>
       (cluster_has_series name ns (series (snd (reconcileCluster E R cluster w))) \<longleftrightarrow> cluster_has_series name ns (series w1)))"
proof -
  let ?del = "deleteOmniResources E (rc_Recorder R) (rc_KubeconfigNamespace R) cluster"
  let ?clear = "deleteClusterMetrics (oc_Name cluster) (oc_Namespace cluster)"
  let ?c = "with_cluster_finalizers (k8s_RemoveFinalizer E (om_Finalizers (oc_Meta cluster)) finalizerName) cluster"
  let ?finish = "io_bind (io_series ?clear) (\<lambda>_. io_bind (updateCluster E ?c) (\<lambda>_. io_ret zero_result))"
  have c0: "UpdateCluster c' \<in> set (made (io_bind (io_wrap (\<lambda>e. Wrapf ''delete omni resources: '' e '''') ?del) (\<lambda>_. ?finish)) w)"
      and run: "reconcileCluster E R cluster = io_bind (io_wrap (\<lambda>e. Wrapf ''delete omni resources: '' e '''') ?del) (\<lambda>_. ?finish)"
    using c deleted by (auto simp: reconcileCluster_def Let_def split: if_splits)
  obtain u w1 where w1: "?del w = (Inr u, w1)" and c1: "UpdateCluster c' \<in> set (made ?finish w1)"
    using c0 by (rule made_rest) ((intro effects; simp), (intro effects; simp), simp only: io_wrap_iff)
  have "c' = ?c"
    using c1 by (auto simp: made_def io_defs split: prod.splits sum.splits)
  moreover have "series (snd (reconcileCluster E R cluster w)) = ?clear (series w1)"
    using w1 by (auto simp: run io_defs split: prod.splits sum.splits)
  ultimately show ?thesis
    using w1 deleteClusterMetrics_clears deleteClusterMetrics_keeps_others by (intro exI [of _ w1]) auto
qed

abbreviation sample_reconciler :: reconciler where
  "sample_reconciler \<equiv> \<lparr>rc_Recorder = True, rc_KubeconfigNamespace = ''argocd'', rc_ArgoCDClusters = True\<rparr>"

lemma finalizer_dropped:
  "list_ex (\<lambda>c. c = UpdateCluster (with_cluster_finalizers [] (deleting sample_cluster)))
     (made (reconcileCluster memory_ops sample_reconciler (deleting sample_cluster)) deleted_world)"
  by code_simp

theorem cluster_finalizer_removed_after_cleanup_witness:
  "\<not> cluster_has_series ''c1'' ''ns''
     (series (snd (reconcileCluster memory_ops sample_reconciler (deleting sample_cluster) deleted_world)))"
proof -
  have c: "UpdateCluster (with_cluster_finalizers [] (deleting sample_cluster)) \<in>
      set (made (reconcileCluster memory_ops sample_reconciler (deleting sample_cluster)) deleted_world)"
    using finalizer_dropped by (simp add: list_ex_iff)
  have "om_DeletionTimestamp (oc_Meta (deleting sample_cluster)) \<noteq> None"
      and "oc_Name (deleting sample_cluster) = ''c1''" "oc_Namespace (deleting sample_cluster) = ''ns''"
    by (simp_all add: deleting_def sample_cluster_def empty_meta_def)
  with cluster_finalizer_removed_after_cleanup [OF _ c] show ?thesis
    by auto
qed

section \<open>The reconcile as a whole\<close>

text \<open>The calls the cluster controller may make: everything but rebooting a machine, writing a
  \<open>Machine\<close>'s status, and creating or updating the per-machine Omni resources, which belong to
  the machine controller.\<close>

fun cluster_scoped :: "call \<Rightarrow> bool" where
  "cluster_scoped (RebootRPC c a) = False"
| "cluster_scoped (UpdateMachineStatus m) = False"
| "cluster_scoped (CreateResource r) = (r_Type r \<in> {ClusterType, MachineSetType, ExtensionsConfigurationType})"
| "cluster_scoped (UpdateResource r) = (r_Type r \<in> {ClusterType, MachineSetType, ExtensionsConfigurationType})"
| "cluster_scoped _ = True"

lemma never_unscoped: "never (\<lambda>c. \<not> cluster_scoped c) (Reconcile E R ns name)"
proof -
  have none: "cluster_scoped c" if "call_type c \<in> {Some ClusterType, Some MachineSetType, Some ExtensionsConfigurationType}" for c
    using that by (cases c) auto
  have "not_allocation (\<lambda>c. \<not> cluster_scoped c)"
    unfolding not_allocation_def
  proof (intro allI impI)
    fix c
    assume "\<not> cluster_scoped c"
    then show "call_type c \<noteq> Some MachineSetType \<and> call_type c \<noteq> Some ExtensionsConfigurationType \<and>
       (case c of CreateMachine m \<Rightarrow> False | UpdateMachine m \<Rightarrow> False | DeleteMachine ns n \<Rightarrow> False
        | EmitEvent t r m \<Rightarrow> False | UpdateClusterStatus s \<Rightarrow> False | _ \<Rightarrow> True)"
      by (cases c) auto
  qed
  then show ?thesis
    unfolding Reconcile_def reconcileCluster_def Let_def
    by (intro effects) (simp_all add: none)
qed

text \<open>C30: One reconcile of an \<open>OmniCluster\<close>, whatever it meets, stays in its scope: it never reboots a
  machine, never writes a \<open>Machine\<close>'s status, never creates or updates a machine set node, config
  patch or kernel-args resource; and it writes the status of the \<open>OmniCluster\<close> at most once.\<close>

theorem cluster_stays_in_scope:
  "list_all cluster_scoped (made (Reconcile E R ns name) w) \<and>
   length (filter is_status_write (made (Reconcile E R ns name) w)) \<le> 1"
  using never_made [OF never_unscoped] atmost_made [OF one_status_Reconcile]
  by (simp add: list_all_iff) blast


text \<open>The status a recorded failure leaves, and the calls of recording it.\<close>

definition cluster_failed_status :: "'e ops \<Rightarrow> 'e \<Rightarrow> omni_cluster \<Rightarrow> string \<Rightarrow> goerror \<Rightarrow> omni_cluster_status" where
  "cluster_failed_status E e cluster reason err =
     (oc_Status cluster)
       \<lparr>ost_ObservedGeneration := oc_Generation cluster, ost_Ready := False,
        ost_FailureReason := Some reason, ost_FailureMessage := Some (err_msg err),
        ost_Conditions := k8s_SetStatusCondition E e (ost_Conditions (oc_Status cluster))
          (new_condition ''Ready'' ConditionFalse reason (err_msg err) (oc_Generation cluster))\<rparr>"

lemma run_cluster_setFailure:
  "fst (cluster_setFailure E R cluster before reason err w) = Inr \<lparr>Requeue = False, RequeueAfter = requeueShort\<rparr>"
  "calls (snd (cluster_setFailure E R cluster before reason err w)) = calls w @
     (if rc_Recorder R then [EmitEvent EventTypeWarning reason (err_msg err)] else []) @
     (if statusNeedsUpdate before (cluster_failed_status E (env w) cluster reason err)
      then [UpdateClusterStatus (cluster\<lparr>oc_Status := cluster_failed_status E (env w) cluster reason err\<rparr>)] else [])"
  by (simp_all add: cluster_setFailure_def cluster_failed_status_def Let_def eventf_def set_condition_def write_if_def io_defs
      split: prod.splits)

text \<open>C27: When the Omni cluster carries another owner's stamp, the reconcile of a live \<open>OmniCluster\<close> stops
  there: it calls nothing on Omni and touches no \<open>Machine\<close> and no secret. It records a warning event
  and a not-ready status with the reason \<open>ClusterOwnershipConflict\<close> and the conflict as its message,
  writes that status unless it is already the stored one, and asks to be run again shortly
  without an error.\<close>

theorem ownership_conflict_stops_reconcile:
  assumes live: "om_DeletionTimestamp (oc_Meta cluster) = None"
    and fin: "k8s_ContainsFinalizer E (om_Finalizers (oc_Meta cluster)) finalizerName"
    and got: "StateGet E ClusterType (oc_Name cluster) w = (Inr existing, w1)"
    and foreign: "get_label ownerLabel existing = Some other" "other \<noteq> ownerOf cluster"
  shows "\<exists>err. IsOwnershipConflict err \<and>
    fst (reconcileCluster E R cluster w) = Inr \<lparr>Requeue = False, RequeueAfter = requeueShort\<rparr> \<and>
    made (reconcileCluster E R cluster) w =
      (if rc_Recorder R then [EmitEvent EventTypeWarning ''ClusterOwnershipConflict'' (err_msg err)] else []) @
      (let status = cluster_failed_status E (env w1) cluster ''ClusterOwnershipConflict'' err
       in if statusNeedsUpdate (oc_Status cluster) status
          then [UpdateClusterStatus (cluster\<lparr>oc_Status := status\<rparr>)] else [])"
proof -
  let ?spec = "oc_Spec cluster"
  obtain err where err: "EnsureCluster E (oc_Name cluster) (ownerOf cluster) (ocs_KubernetesVersion ?spec)
        (ocs_TalosVersion ?spec) w = (Inl err, w1)" "IsOwnershipConflict err"
    using got foreign by (simp add: EnsureCluster_def run_try Let_def io_raise_def)
  have calls: "calls w1 = calls w"
    using got by (auto simp: StateGet_def io_defs split: prod.splits sum.splits if_splits)
  have run: "reconcileCluster E R cluster w =
      cluster_setFailure E R cluster (oc_Status cluster) ''ClusterOwnershipConflict'' err w1"
    using live fin err
    by (simp add: reconcileCluster_def convergeCluster_def ensureCluster_def Let_def run_try)
      (simp add: io_defs split: prod.splits sum.splits)
  show ?thesis
    using calls err(2)
    by (intro exI [of _ err]) (simp add: made_def run run_cluster_setFailure Let_def)
qed

theorem ownership_conflict_stops_reconcile_witness:
  "fst (reconcileCluster memory_ops sample_reconciler
     (with_cluster_finalizers [finalizerName] (sample_cluster\<lparr>oc_Meta := empty_meta ''c1'' ''other''\<rparr>)) deleted_world) =
   Inr \<lparr>Requeue = False, RequeueAfter = requeueShort\<rparr>"
proof -
  let ?c = "with_cluster_finalizers [finalizerName] (sample_cluster\<lparr>oc_Meta := empty_meta ''c1'' ''other''\<rparr>)"
  let ?r = "owned_by_sample (ClusterSpec ''1.30.0'' ''v1.8.0'') ''c1''"
  have c: "om_DeletionTimestamp (oc_Meta ?c) = None" "om_Finalizers (oc_Meta ?c) = [finalizerName]" "oc_Name ?c = ''c1''"
    by (simp_all add: with_cluster_finalizers_def empty_meta_def)
  have got: "StateGet memory_ops ClusterType ''c1'' deleted_world = (Inr ?r, deleted_world)"
    by (simp add: StateGet_def io_defs memory_simps deleted_world_def owned_by_sample_def empty_memory_def world_of_def)
  have "get_label ownerLabel ?r = Some ''ns/c1''" and "''ns/c1'' \<noteq> ownerOf ?c"
    by code_simp+
  with got c show ?thesis
    using ownership_conflict_stops_reconcile [of ?c memory_ops deleted_world ?r deleted_world "''ns/c1''" sample_reconciler]
    by (auto simp: memory_fields)
qed

lemma bind_try_ret: "io_bind (io_try (io_ret x)) g = g (Inr x)"
  by (rule ext) (simp add: io_bind_def io_try_def io_ret_def)

text \<open>C34: Credentials and reboots wait for readiness, and so does the long requeue. Once the status of the
  Omni cluster is read, a pass over a cluster that is not ready records events and the status and
  does nothing else; and only a ready cluster is left alone for the long interval.\<close>

theorem settling_waits_for_readiness:
  assumes "\<not> cs_Ready st"
  shows "list_all (\<lambda>c. is_event c \<or> is_status_write c) (made (settleCluster E R cluster before cn alloc st) w) \<and>
    (\<forall>r. fst (settleCluster E R cluster before cn alloc st w) = Inr r \<longrightarrow> RequeueAfter r = requeueShort)"
proof
  have "never (\<lambda>c. \<not> (is_event c \<or> is_status_write c)) (settleCluster E R cluster before cn alloc st)"
    by (intro effects) (simp_all add: assms)
  from never_made [OF this] show "list_all (\<lambda>c. is_event c \<or> is_status_write c) (made (settleCluster E R cluster before cn alloc st) w)"
    by (fastforce simp: list_all_iff)
  show "\<forall>r. fst (settleCluster E R cluster before cn alloc st w) = Inr r \<longrightarrow> RequeueAfter r = requeueShort"
    using assms by (auto simp: settleCluster_def Let_def bind_try_ret io_iff fst_def split: prod.splits)
qed


definition not_ready :: ClusterStatus where
  "not_ready = \<lparr>cs_Phase = ''SCALING_UP'', cs_Ready = False\<rparr>"

theorem settling_waits_for_readiness_witness:
  "list_all (\<lambda>c. is_event c \<or> is_status_write c)
     (made (settleCluster memory_ops sample_reconciler sample_cluster (oc_Status sample_cluster) ''c1'' [] not_ready) deleted_world)"
  by (rule settling_waits_for_readiness [THEN conjunct1]) (simp add: not_ready_def)

end
