(* ===== verification/Cluster_Settled.thy ===== *)
theory Cluster_Settled
  imports Cluster_Properties
begin

text \<open>
  A reconcile of an \<open>OmniCluster\<close> where nothing is left to do: it writes nothing, so that the watch
  on the objects does not start the next one. A small calculus of quiet computations follows the code.
\<close>

section \<open>Quiet computations\<close>

text \<open>The one call a settled pass makes: a teardown of extensions that are not there.\<close>

fun idle_call :: "store \<Rightarrow> call \<Rightarrow> bool" where
  "idle_call v (TeardownResource t i) = (t = ExtensionsConfigurationType \<and> v (t, i) = None)"
| "idle_call v _ = False"

text \<open>From the environments \<open>S\<close> the computation makes idle calls only, ends in \<open>T\<close>, and its result is in \<open>Q\<close>.\<close>

definition quiet :: "store \<Rightarrow> 'e set \<Rightarrow> ('e, 'a) io \<Rightarrow> (goerror + 'a \<Rightarrow> bool) \<Rightarrow> 'e set \<Rightarrow> bool" where
  "quiet v S m Q T \<longleftrightarrow> (\<forall>w. env w \<in> S \<longrightarrow> (case m w of (r, w') \<Rightarrow>
     Q r \<and> env w' \<in> T \<and> (\<exists>cs. calls w' = calls w @ cs \<and> list_all (idle_call v) cs)))"

abbreviation returns :: "store \<Rightarrow> 'e set \<Rightarrow> ('e, 'a) io \<Rightarrow> ('a \<Rightarrow> bool) \<Rightarrow> 'e set \<Rightarrow> bool" where
  "returns v S m Q T \<equiv> quiet v S m (case_sum (\<lambda>_. False) Q) T"

lemma quiet_mono: "quiet v S m Q T \<Longrightarrow> (\<And>r. Q r \<Longrightarrow> Q' r) \<Longrightarrow> T \<subseteq> T' \<Longrightarrow> quiet v S m Q' T'"
  unfolding quiet_def by (fastforce split: prod.splits)

lemma returns_ret: "Q x \<Longrightarrow> S \<subseteq> T \<Longrightarrow> returns v S (io_ret x) Q T"
  by (auto simp: quiet_def io_ret_def)

lemma quiet_bind:
  fixes m :: "('e, 'a) io"
  assumes m: "returns v S m Q T" and f: "\<And>x. Q x \<Longrightarrow> quiet v T (f x) R U"
  shows "quiet v S (io_bind m f) R U"
  unfolding quiet_def
proof (intro allI impI)
  fix w :: "'e world"
  assume "env w \<in> S"
  then obtain r w1 cs where mw: "m w = (r, w1)" "case_sum (\<lambda>_. False) Q r" "env w1 \<in> T"
      "calls w1 = calls w @ cs" "list_all (idle_call v) cs"
    using m unfolding quiet_def by (cases "m w") auto
  then obtain x where x: "r = Inr x" "Q x"
    by (cases r) auto
  obtain y w2 where fx: "f x w1 = (y, w2)"
    by (cases "f x w1")
  obtain ds where "R y" "env w2 \<in> U" "calls w2 = calls w1 @ ds" "list_all (idle_call v) ds"
    using f [OF x(2)] mw(3) fx unfolding quiet_def by fastforce
  then show "case io_bind m f w of (r, w') \<Rightarrow> R r \<and> env w' \<in> U \<and>
      (\<exists>cs. calls w' = calls w @ cs \<and> list_all (idle_call v) cs)"
    using mw x fx by (simp add: io_bind_def)
qed

lemma returns_try: "quiet v S m Q T \<Longrightarrow> returns v S (io_try m) Q T"
  by (auto simp: quiet_def io_try_def split: prod.splits)

text \<open>A call whose error is tested, where it has none.\<close>

lemma quiet_try_case:
  assumes "returns v S m Q T" "\<And>x. Q x \<Longrightarrow> quiet v T (g x) R U"
  shows "quiet v S (io_bind (io_try m) (case_sum h g)) R U"
  by (rule quiet_bind [OF returns_try [OF assms(1)]]) (use assms(2) in \<open>auto split: sum.splits\<close>)

lemma returns_wrap: "returns v S m Q T \<Longrightarrow> returns v S (io_wrap f m) Q T"
  by (auto simp: quiet_def io_wrap_def split: prod.splits sum.splits)

lemma returns_series: "S \<subseteq> T \<Longrightarrow> returns v S (io_series f) (\<lambda>_. True) T"
  by (auto simp: quiet_def io_series_def)

lemma returns_env: "(\<And>e. e \<in> S \<Longrightarrow> Q (f e)) \<Longrightarrow> S \<subseteq> T \<Longrightarrow> returns v S (io_env f) Q T"
  by (auto simp: quiet_def io_env_def)

lemma quiet_read: "(\<And>e. e \<in> S \<Longrightarrow> \<exists>r. \<exists>e' \<in> T. f e = (r, e') \<and> Q r) \<Longrightarrow> quiet v S (ext [] f) Q T"
  unfolding quiet_def ext_def by (fastforce split: prod.splits)

lemma returns_for: "\<forall>x \<in> set xs. returns v S (f x) (\<lambda>_. True) S \<Longrightarrow> returns v S (io_for xs f) (\<lambda>_. True) S"
  by (induction xs) (auto intro: returns_ret quiet_bind)

section \<open>Environments at rest\<close>

text \<open>
  In the environments \<open>S\<close> nobody else writes: Omni's state is \<open>v\<close>, a list of \<open>Machine\<close> objects is \<open>L\<close>
  of its namespace and labels, and reading either leads to an environment of \<open>S\<close> again.
\<close>

definition at_rest :: "'e ops \<Rightarrow> 'e set \<Rightarrow> store \<Rightarrow> (string \<Rightarrow> (string, string) gomap \<Rightarrow> machine list) \<Rightarrow> bool" where
  "at_rest E S v L \<longleftrightarrow> (\<forall>k r. v k = Some r \<longrightarrow> key_of r = k) \<and> (\<forall>e \<in> S.
     (\<forall>t i r. v (t, i) = Some r \<longrightarrow> (\<exists>e' \<in> S. cosi_Get E t i e = (Inr r, e'))) \<and>
     (\<forall>t i. v (t, i) = None \<longrightarrow>
        (\<exists>m. \<exists>e' \<in> S. cosi_Get E t i e = (Inl (CosiError ResourceNotFound m), e')) \<and>
        (\<exists>m. \<exists>e' \<in> S. cosi_Teardown E t i e = (Inl (CosiError ResourceNotFound m), e'))) \<and>
     (\<forall>t q. \<exists>rs. \<exists>e' \<in> S. cosi_List E t q e = (Inr rs, e') \<and>
        set rs = {r. v (t, r_ID r) = Some r \<and> list_all (term_holds r) q}) \<and>
     (\<forall>ns l. \<exists>e' \<in> S. k8s_ListMachines E ns l e = (Inr (L ns l), e')))"

lemma returns_StateGet:
  fixes E :: "'e ops"
  assumes rest: "at_rest E S v L" and r: "v (t, i) = Some r"
  shows "returns v S (StateGet E t i) (\<lambda>x. x = r) S"
proof -
  have "r_Type r = t"
    using rest r unfolding at_rest_def key_of_def by blast
  moreover have "returns v S (ext [] (cosi_Get E t i)) (\<lambda>x. x = r) S"
    using rest r unfolding at_rest_def by (intro quiet_read) fastforce
  ultimately show ?thesis
    unfolding StateGet_def by (auto intro!: quiet_bind returns_ret)
qed

lemma quiet_StateGet_absent:
  fixes E :: "'e ops"
  assumes rest: "at_rest E S v L" and r: "v (t, i) = None"
  shows "quiet v S (StateGet E t i) (\<lambda>x. \<exists>m. x = Inl (CosiError ResourceNotFound m)) S"
  unfolding quiet_def
proof (intro allI impI)
  fix w :: "'e world"
  assume "env w \<in> S"
  then obtain m e where "cosi_Get E t i (env w) = (Inl (CosiError ResourceNotFound m), e)" "e \<in> S"
    using rest r unfolding at_rest_def by blast
  then show "case StateGet E t i w of (x, w') \<Rightarrow> (\<exists>m. x = Inl (CosiError ResourceNotFound m)) \<and> env w' \<in> S \<and>
      (\<exists>cs. calls w' = calls w @ cs \<and> list_all (idle_call v) cs)"
    by (simp add: StateGet_def io_defs)
qed

lemma returns_StateListAll:
  fixes E :: "'e ops"
  assumes rest: "at_rest E S v L"
  shows "returns v S (StateListAll E t q) (\<lambda>rs. set rs = {r. v (t, r_ID r) = Some r \<and> list_all (term_holds r) q}) S"
proof -
  have "returns v S (ext [] (cosi_List E t q)) (\<lambda>rs. set rs = {r. v (t, r_ID r) = Some r \<and> list_all (term_holds r) q}) S"
    using rest unfolding at_rest_def by (intro quiet_read) fastforce
  moreover have "list_all (\<lambda>r. r_Type r = t) rs"
    if "set rs = {r. v (t, r_ID r) = Some r \<and> list_all (term_holds r) q}" for rs
    using that rest unfolding at_rest_def key_of_def list_all_iff by blast
  ultimately show ?thesis
    unfolding StateListAll_def by (auto intro!: quiet_bind returns_ret)
qed

lemma returns_teardown_absent:
  fixes E :: "'e ops"
  assumes rest: "at_rest E S v L" and r: "v (ExtensionsConfigurationType, i) = None"
  shows "returns v S (teardownAndDestroy E ExtensionsConfigurationType i desc) (\<lambda>_. True) S"
  unfolding quiet_def
proof (intro allI impI)
  fix w :: "'e world"
  assume "env w \<in> S"
  then obtain m e where "cosi_Teardown E ExtensionsConfigurationType i (env w) = (Inl (CosiError ResourceNotFound m), e)" "e \<in> S"
    using rest r unfolding at_rest_def by blast
  then show "case teardownAndDestroy E ExtensionsConfigurationType i desc w of (x, w') \<Rightarrow>
      case_sum (\<lambda>_. False) (\<lambda>_. True) x \<and> env w' \<in> S \<and> (\<exists>cs. calls w' = calls w @ cs \<and> list_all (idle_call v) cs)"
    by (simp add: teardownAndDestroy_def StateTeardown_def io_defs r)
qed

section \<open>A settled machine set\<close>

abbreviation set_machines ::
  "(string \<Rightarrow> (string, string) gomap \<Rightarrow> machine list) \<Rightarrow> omni_cluster \<Rightarrow> string \<Rightarrow> machine list" where
  "set_machines L cluster s \<equiv> L (oc_Namespace cluster) [(labelCluster, oc_Name cluster), (labelMachineSet, s)]"

definition machine_in_sync :: "string \<Rightarrow> string \<Rightarrow> string \<Rightarrow> machine_set_spec \<Rightarrow> machine \<Rightarrow> bool" where
  "machine_in_sync cn s role spec m \<longleftrightarrow> m_DeletionTimestamp m = None \<and>
     (let updated = syncedMachine m cn s role spec
      in semantic_eq_machine_spec (m_Spec m) (m_Spec updated) \<and>
         gomap_eq (om_Labels (m_Meta m)) (om_Labels (m_Meta updated)))"

definition set_settled ::
  "'e ops \<Rightarrow> store \<Rightarrow> (string \<Rightarrow> (string, string) gomap \<Rightarrow> machine list) \<Rightarrow> omni_cluster \<Rightarrow>
   string \<times> string \<times> machine_set_spec \<Rightarrow> bool" where
  "set_settled E v L cluster x \<longleftrightarrow> (case x of (s, role, spec) \<Rightarrow>
     v (MachineSetType, s) \<noteq> None \<and>
     int (length (set_machines L cluster s)) = mss_Replicas spec \<and>
     list_all (machine_in_sync (oc_Name cluster) s role spec) (set_machines L cluster s) \<and>
     (\<forall>r. v (MachineSetNodeType, r_ID r) = Some r \<and> get_label (omni_LabelMachineSet E) r = Some s \<longrightarrow>
        r_ID r \<in> m_Name ` set (set_machines L cluster s)) \<and>
     (if mss_MachineExtensions spec = [] then v (ExtensionsConfigurationType, schematicID s) = None
      else \<exists>r. v (ExtensionsConfigurationType, schematicID s) = Some r \<and>
        r_Spec r = ExtensionsConfigurationSpec (mss_MachineExtensions spec)))"

lemma returns_adopt_none:
  "set bound \<subseteq> set have_object \<Longrightarrow>
   returns v S (adoptBindings E recorder cluster cn s role spec bound have_object existing) (\<lambda>x. x = existing) S"
  by (induction bound) (auto intro: returns_ret)

lemma returns_AllocatedMachineSetNodes:
  assumes rest: "at_rest E S v L"
  shows "returns v S (AllocatedMachineSetNodes E s) (\<lambda>is. set is =
    {i. \<exists>r. v (MachineSetNodeType, i) = Some r \<and> get_label (omni_LabelMachineSet E) r = Some s}) S"
proof -
  have key: "v (MachineSetNodeType, i) = Some r \<Longrightarrow> r_ID r = i" for i r
    using rest unfolding at_rest_def key_of_def by blast
  show ?thesis
    unfolding AllocatedMachineSetNodes_def
    by (intro quiet_bind [OF returns_wrap [OF returns_StateListAll [OF rest]]] returns_ret order_refl)
      (auto simp: image_def dest: key)
qed

lemma returns_EnsureMachineSet_present:
  assumes rest: "at_rest E S v L" and r: "v (MachineSetType, s) \<noteq> None"
  shows "returns v S (EnsureMachineSet E cn s role) (\<lambda>_. True) S"
proof -
  obtain r where "v (MachineSetType, s) = Some r"
    using r by blast
  then show ?thesis
    unfolding EnsureMachineSet_def
    by - (rule quiet_bind [OF returns_try [OF returns_StateGet [OF rest]]], assumption, auto split: sum.splits intro: returns_ret)
qed

lemma returns_extensions_settled:
  assumes rest: "at_rest E S v L" and ok: "set_settled E v L cluster (s, role, spec)"
  shows "returns v S (reconcileExtensions E cn s spec) (\<lambda>_. True) S"
proof (cases "mss_MachineExtensions spec = []")
  case True
  then have "v (ExtensionsConfigurationType, schematicID s) = None"
    using ok by (simp add: set_settled_def)
  from returns_teardown_absent [OF rest this] True show ?thesis
    by (auto simp: reconcileExtensions_def DeleteExtensionsConfigurationForMachineSet_def intro: returns_wrap)
next
  case False
  then obtain r where r: "v (ExtensionsConfigurationType, schematicID s) = Some r"
      "r_Spec r = ExtensionsConfigurationSpec (mss_MachineExtensions spec)"
    using ok by (auto simp: set_settled_def)
  have "returns v S (EnsureMachineSetExtensionsConfiguration E cn s (mss_MachineExtensions spec)) (\<lambda>_. True) S"
    unfolding EnsureMachineSetExtensionsConfiguration_def Let_def
    using r(2)
    by (intro quiet_bind [OF returns_try [OF returns_StateGet [OF rest r(1)]]]) (auto simp: stringSlicesEqual_iff split: sum.splits intro: returns_ret)
  with False show ?thesis
    by (auto simp: reconcileExtensions_def intro: returns_wrap)
qed

lemma returns_allocation_settled:
  assumes rest: "at_rest E S v L" and ok: "set_settled E v L cluster (s, role, spec)"
  shows "returns v S (reconcileMachineSetAllocation E recorder cluster (oc_Name cluster) s role spec claimed)
    (\<lambda>r. fst r = map m_Name (set_machines L cluster s)) S"
proof -
  let ?ms = "set_machines L cluster s"
  have len: "int (length ?ms) = mss_Replicas spec" and sync: "\<forall>m \<in> set ?ms. machine_in_sync (oc_Name cluster) s role spec m"
    and nodes: "{i. \<exists>r. v (MachineSetNodeType, i) = Some r \<and> get_label (omni_LabelMachineSet E) r = Some s} \<subseteq> m_Name ` set ?ms"
    using ok rest unfolding set_settled_def list_all_iff at_rest_def key_of_def by (auto, blast)
  have active: "active_of ?ms = ?ms"
    using sync by (auto simp: active_of_def machine_in_sync_def)
  have list: "returns v S (listMachineSetMachines E (oc_Namespace cluster) (oc_Name cluster) s) (\<lambda>x. x = ?ms) S"
    using rest unfolding listMachineSetMachines_def at_rest_def by (intro quiet_read) fastforce
  have adopt: "returns v S (adoptBindings E recorder cluster (oc_Name cluster) s role spec bound (map m_Name ?ms) ?ms)
      (\<lambda>x. x = ?ms) S"
    if "set bound = {i. \<exists>r. v (MachineSetNodeType, i) = Some r \<and> get_label (omni_LabelMachineSet E) r = Some s}" for bound
    using that nodes by (intro returns_adopt_none) simp
  have scale: "returns v S (scaleTo E recorder cluster (oc_Name cluster) s role spec (active_of ?ms) deleting claimed')
      (\<lambda>x. fst x = ?ms) S" for deleting claimed'
    unfolding active using len by (auto simp: scaleTo_def intro: returns_ret)
  have specs: "returns v S (syncSpecs E (oc_Name cluster) s role spec ?ms) (\<lambda>_. True) S"
    unfolding syncSpecs_def using sync
    by (intro returns_for) (auto simp: machine_in_sync_def syncMachineSpec_def Let_def intro: returns_ret returns_wrap)
  have rest_of: "returns v S (case x of (active, claimed') \<Rightarrow>
      io_bind (syncSpecs E (oc_Name cluster) s role spec active) (\<lambda>_.
      io_bind (reconcileExtensions E (oc_Name cluster) s spec) (\<lambda>_. io_ret (map m_Name active, claimed'))))
      (\<lambda>r. fst r = map m_Name ?ms) S" if "fst x = ?ms" for x
    using that by (cases x) (auto intro!: quiet_bind [OF specs] quiet_bind [OF returns_extensions_settled [OF rest ok]] returns_ret)
  have after_list: "returns v S (io_bind (adoptBindings E recorder cluster (oc_Name cluster) s role spec bound (map m_Name ?ms) ?ms)
      (\<lambda>existing. io_bind (scaleTo E recorder cluster (oc_Name cluster) s role spec (active_of existing)
          (deleting_of existing) (claim_all (map m_Name existing) claimed)) (\<lambda>(active, claimed').
        io_bind (syncSpecs E (oc_Name cluster) s role spec active) (\<lambda>_.
        io_bind (reconcileExtensions E (oc_Name cluster) s spec) (\<lambda>_. io_ret (map m_Name active, claimed'))))))
      (\<lambda>r. fst r = map m_Name ?ms) S"
    if "set bound = {i. \<exists>r. v (MachineSetNodeType, i) = Some r \<and> get_label (omni_LabelMachineSet E) r = Some s}" for bound
    by (rule quiet_bind [OF adopt [OF that]]) (simp only:, rule quiet_bind [OF scale], erule rest_of)
  show ?thesis
    unfolding reconcileMachineSetAllocation_def
    by (rule quiet_bind [OF returns_wrap [OF list]])
      (simp only:, rule quiet_bind [OF returns_wrap [OF returns_AllocatedMachineSetNodes [OF rest]]], erule after_list)
qed

section \<open>A settled cluster\<close>

definition declared_sets :: "'e ops \<Rightarrow> omni_cluster \<Rightarrow> (string \<times> string \<times> machine_set_spec) list" where
  "declared_sets E cluster =
     (omni_ControlPlanesResourceID E (oc_Name cluster), roleControlPlane, ocs_ControlPlane (oc_Spec cluster)) #
     map (\<lambda>w. (workerSetID (oc_Name cluster) w, roleWorker, wms_MachineSetSpec w)) (ocs_Workers (oc_Spec cluster))"

definition allocation_of ::
  "(string \<Rightarrow> (string, string) gomap \<Rightarrow> machine list) \<Rightarrow> omni_cluster \<Rightarrow>
   (string \<times> string \<times> machine_set_spec) list \<Rightarrow> (string, string list) gomap \<Rightarrow> (string, string list) gomap" where
  "allocation_of L cluster sets alloc =
     fold (\<lambda>(s, _, _). AList.update s (map m_Name (set_machines L cluster s))) sets alloc"

definition status_in :: "store \<Rightarrow> string \<Rightarrow> ClusterStatus" where
  "status_in v cn = (case v (ClusterStatusType, cn) of
     None \<Rightarrow> \<lparr>cs_Phase = ''Unknown'', cs_Ready = False\<rparr>
   | Some r \<Rightarrow> \<lparr>cs_Phase = Phase (r_Spec r), cs_Ready = KubernetesAPIReady (r_Spec r)\<rparr>)"

text \<open>Omni's side: the cluster is the owner's and current, every declared set is settled, no other is there.\<close>

definition omni_settled ::
  "'e ops \<Rightarrow> store \<Rightarrow> (string \<Rightarrow> (string, string) gomap \<Rightarrow> machine list) \<Rightarrow> omni_cluster \<Rightarrow> bool" where
  "omni_settled E v L cluster \<longleftrightarrow>
     (\<exists>r. v (ClusterType, oc_Name cluster) = Some r \<and> get_label ownerLabel r = Some (ownerOf cluster) \<and>
        r_Spec r = ClusterSpec (ocs_KubernetesVersion (oc_Spec cluster)) (ocs_TalosVersion (oc_Spec cluster))) \<and>
     list_all (set_settled E v L cluster) (declared_sets E cluster) \<and>
     (\<forall>r. v (MachineSetType, r_ID r) = Some r \<and> get_label (omni_LabelCluster E) r = Some (oc_Name cluster) \<longrightarrow>
        r_ID r \<in> set (desiredMachineSets E cluster (oc_Name cluster))) \<and>
     (cs_Ready (status_in v (oc_Name cluster)) \<longrightarrow>
        (\<forall>r. v (ClusterMachineStatusType, r_ID r) = Some r \<and> get_label (omni_LabelCluster E) r = Some (oc_Name cluster) \<longrightarrow>
           \<not> cms_drifting (cms (r_Spec r))))"

text \<open>Kubernetes' side: the status is the one a pass computes, and a secret that is due to exist is fresh.\<close>

definition status_settled :: "'e ops \<Rightarrow> 'e set \<Rightarrow> store \<Rightarrow>
    (string \<Rightarrow> (string, string) gomap \<Rightarrow> machine list) \<Rightarrow> omni_cluster \<Rightarrow> bool" where
  "status_settled E S v L cluster \<longleftrightarrow> (let st = oc_Status cluster; now_in = status_in v (oc_Name cluster) in
     ost_ObservedGeneration st = oc_Generation cluster \<and> ost_Phase st = cs_Phase now_in \<and> ost_Ready st = cs_Ready now_in \<and>
     gomap_eq (ost_AllocatedMachines st) (allocation_of L cluster (declared_sets E cluster) []) \<and>
     ost_FailureReason st = None \<and> ost_FailureMessage st = None \<and>
     (\<forall>e \<in> S. k8s_SetStatusCondition E e (ost_Conditions st)
        (new_condition ''Ready'' (boolToConditionStatus (cs_Ready now_in)) (cs_Phase now_in)
          (''Omni cluster phase: '' @ cs_Phase now_in) (oc_Generation cluster)) = ost_Conditions st) \<and>
     (cs_Ready now_in \<longrightarrow> (\<forall>e \<in> S. k8s_SetStatusCondition E e (ost_Conditions st)
        (drift_condition cluster ConditionFalse ''AllMachinesUpToDate'' ''All machines are running the target config'')
        = ost_Conditions st)))"

definition secret_settled :: "'e ops \<Rightarrow> 'e set \<Rightarrow> reconciler \<Rightarrow> string \<Rightarrow> bool" where
  "secret_settled E S R cn \<longleftrightarrow> (\<forall>e \<in> S. \<exists>t e1 s e2. time_Now E e = (t, e1) \<and>
     k8s_GetSecret E (rc_KubeconfigNamespace R) (secret_name R cn) e1 = (Inr s, e2) \<and>
     \<not> secretNeedsRefresh E (Some s) (if rc_ArgoCDClusters R then ''config'' else ''value'') t)"

lemma returns_ensureCluster_settled:
  assumes rest: "at_rest E S v L" and ok: "omni_settled E v L cluster"
  shows "returns v S (ensureCluster E R cluster before (oc_Name cluster)) (\<lambda>x. x = Inr ()) S"
proof -
  obtain r where r: "v (ClusterType, oc_Name cluster) = Some r" "get_label ownerLabel r = Some (ownerOf cluster)"
      "r_Spec r = ClusterSpec (ocs_KubernetesVersion (oc_Spec cluster)) (ocs_TalosVersion (oc_Spec cluster))"
    using ok unfolding omni_settled_def by blast
  have ensured: "returns v S (EnsureCluster E (oc_Name cluster) (ownerOf cluster) (ocs_KubernetesVersion (oc_Spec cluster))
      (ocs_TalosVersion (oc_Spec cluster))) (\<lambda>_. True) S"
    unfolding EnsureCluster_def Let_def
    by (rule quiet_bind [OF returns_try [OF returns_StateGet [OF rest r(1)]]])
      (auto simp: r split: sum.splits intro: returns_ret)
  show ?thesis
    unfolding ensureCluster_def
    by (rule quiet_bind [OF returns_try [OF ensured]]) (auto split: sum.splits intro: returns_ret)
qed

lemma returns_allocateMachineSet_settled:
  assumes rest: "at_rest E S v L" and ok: "set_settled E v L cluster (s, role, spec)"
  shows "returns v S (allocateMachineSet E R cluster before (oc_Name cluster) s label role r1 r2 spec alloc)
    (\<lambda>x. \<exists>claimed. x = Inr (AList.update s (map m_Name (set_machines L cluster s)) (fst alloc), claimed)) S"
proof -
  have set: "v (MachineSetType, s) \<noteq> None"
    using ok by (simp add: set_settled_def)
  obtain al claimed where alloc: "alloc = (al, claimed)" by fastforce
  show ?thesis
    unfolding allocateMachineSet_def alloc prod.case
    by (rule quiet_bind [OF returns_try [OF returns_EnsureMachineSet_present [OF rest set]]])
      (auto split: sum.splits prod.splits intro!: returns_ret
        quiet_bind [OF returns_try [OF returns_allocation_settled [OF rest ok]]])
qed

lemma returns_allocateWorkerSets_settled:
  assumes rest: "at_rest E S v L"
  shows "list_all (set_settled E v L cluster) (map (\<lambda>w. (workerSetID (oc_Name cluster) w, roleWorker, wms_MachineSetSpec w)) ws) \<Longrightarrow>
    returns v S (allocateWorkerSets E R cluster before (oc_Name cluster) ws alloc)
      (\<lambda>x. \<exists>claimed. x = Inr (allocation_of L cluster
        (map (\<lambda>w. (workerSetID (oc_Name cluster) w, roleWorker, wms_MachineSetSpec w)) ws) (fst alloc), claimed)) S"
proof (induction ws arbitrary: alloc)
  case Nil
  show ?case by (cases alloc) (auto simp: allocation_of_def intro: returns_ret)
next
  case (Cons w ws)
  have w: "set_settled E v L cluster (workerSetID (oc_Name cluster) w, roleWorker, wms_MachineSetSpec w)"
    using Cons.prems by simp
  show ?case
    unfolding allocateWorkerSets.simps
    by (rule quiet_bind [OF returns_allocateMachineSet_settled [OF rest w]])
      (use Cons in \<open>auto simp: allocation_of_def split: sum.splits intro!: quiet_mono [OF Cons.IH [unfolded allocation_of_def]]\<close>)
qed

lemma returns_prune_settled:
  assumes rest: "at_rest E S v L" and ok: "omni_settled E v L cluster"
  shows "returns v S (pruneOrphanedMachineSets E cluster (oc_Name cluster)) (\<lambda>_. True) S"
proof -
  have ids: "returns v S (ListMachineSetIDsForCluster E (oc_Name cluster))
      (\<lambda>is. set is \<subseteq> set (desiredMachineSets E cluster (oc_Name cluster))) S"
    unfolding ListMachineSetIDsForCluster_def
    by (rule quiet_bind [OF returns_wrap [OF returns_StateListAll [OF rest]]])
      (use ok in \<open>auto simp: omni_settled_def intro!: returns_ret\<close>)
  show ?thesis
    unfolding pruneOrphanedMachineSets_def
    by (rule quiet_bind [OF returns_wrap [OF ids]])
      (auto simp: pruneIfOrphaned_def intro!: returns_for returns_ret)
qed

lemma returns_GetClusterStatus:
  assumes rest: "at_rest E S v L"
  shows "returns v S (GetClusterStatus E cn) (\<lambda>x. x = status_in v cn) S"
proof (cases "v (ClusterStatusType, cn)")
  case None
  from returns_try [OF quiet_StateGet_absent [OF rest None]] show ?thesis
    unfolding GetClusterStatus_def
    by (rule quiet_bind) (auto simp: status_in_def None split: sum.splits intro: returns_ret)
next
  case (Some r)
  show ?thesis
    unfolding GetClusterStatus_def
    by (rule quiet_bind [OF returns_try [OF returns_StateGet [OF rest Some]]])
      (auto simp: status_in_def Some split: sum.splits intro: returns_ret)
qed

section \<open>The settling stage\<close>

abbreviation observed_cluster :: "omni_cluster \<Rightarrow> (string, string list) gomap \<Rightarrow> omni_cluster" where
  "observed_cluster cluster alloc \<equiv> cluster\<lparr>oc_Status := (oc_Status cluster)\<lparr>ost_AllocatedMachines := alloc\<rparr>\<rparr>"

lemma returns_set_condition_same:
  assumes "\<forall>e \<in> S. k8s_SetStatusCondition E e (ost_Conditions (oc_Status c)) x = ost_Conditions (oc_Status c)"
  shows "returns v S (set_cluster_condition E c x) (\<lambda>y. y = c) S"
proof -
  have "returns v S (set_condition E (ost_Conditions (oc_Status c)) x) (\<lambda>y. y = ost_Conditions (oc_Status c)) S"
    unfolding set_condition_def using assms by (intro returns_env) auto
  then show ?thesis
    unfolding set_cluster_condition_def by (rule quiet_bind) (auto intro: returns_ret)
qed

lemma returns_observe_settled:
  assumes ok: "status_settled E S v L cluster"
  shows "returns v S (observe_status E cluster alloc (status_in v (oc_Name cluster)))
    (\<lambda>x. x = observed_cluster cluster alloc) S"
proof -
  let ?s = "status_in v (oc_Name cluster)"
  let ?c = "cluster\<lparr>oc_Status := (oc_Status cluster)
          \<lparr>ost_ObservedGeneration := oc_Generation cluster, ost_Phase := cs_Phase ?s,
           ost_Ready := cs_Ready ?s, ost_AllocatedMachines := alloc,
           ost_FailureReason := None, ost_FailureMessage := None\<rparr>\<rparr>"
  have "?c = observed_cluster cluster alloc"
    using ok by (simp add: status_settled_def Let_def)
  moreover have "returns v S (set_cluster_condition E ?c (new_condition ''Ready'' (boolToConditionStatus (cs_Ready ?s))
      (cs_Phase ?s) (''Omni cluster phase: '' @ cs_Phase ?s) (oc_Generation cluster))) (\<lambda>x. x = ?c) S"
    by (rule returns_set_condition_same) (use ok in \<open>simp add: status_settled_def Let_def\<close>)
  ultimately show ?thesis
    by (simp add: observe_status_def)
qed

lemma returns_no_drift:
  assumes rest: "at_rest E S v L" and ok: "omni_settled E v L cluster"
    and ready: "cs_Ready (status_in v (oc_Name cluster))"
  shows "returns v S (GetDriftingMachines E (oc_Name cluster)) (\<lambda>x. x = []) S"
  unfolding GetDriftingMachines_def
  by (rule quiet_bind [OF returns_wrap [OF returns_StateListAll [OF rest]]])
    (use ok ready in \<open>auto simp: omni_settled_def filter_empty_conv intro!: returns_ret\<close>)

lemma returns_signal_none:
  assumes ok: "status_settled E S v L cluster" and ready: "cs_Ready (status_in v (oc_Name cluster))"
  shows "returns v S (signalDriftReboots E recorder (observed_cluster cluster alloc) cn [])
    (\<lambda>x. x = observed_cluster cluster alloc) S"
  unfolding signalDriftReboots_def
  by (simp, rule returns_set_condition_same) (use ok ready in \<open>simp add: status_settled_def Let_def drift_condition_def\<close>)

lemma returns_secret_settled:
  fixes E :: "'e ops"
  assumes ok: "secret_settled E S R cn"
  shows "returns v S (ensureSecret E R cn) (\<lambda>x. \<not> x) UNIV"
  unfolding quiet_def
proof (intro allI impI)
  fix w :: "'e world"
  assume "env w \<in> S"
  then obtain t e1 s e2 where "time_Now E (env w) = (t, e1)"
      "k8s_GetSecret E (rc_KubeconfigNamespace R) (secret_name R cn) e1 = (Inr s, e2)"
      "\<not> secretNeedsRefresh E (Some s) (if rc_ArgoCDClusters R then ''config'' else ''value'') t"
    using ok unfolding secret_settled_def by blast
  then show "case ensureSecret E R cn w of (r, w') \<Rightarrow> case_sum (\<lambda>_. False) (\<lambda>x. \<not> x) r \<and> env w' \<in> UNIV \<and>
      (\<exists>cs. calls w' = calls w @ cs \<and> list_all (idle_call v) cs)"
    by (simp add: ensureSecret_def ensureKubeconfigSecret_def ensureArgoCDClusterSecret_def refresh_due_def
        secret_name_def Let_def io_defs split: if_splits)
qed

lemma returns_settleCluster:
  assumes rest: "at_rest E S v L" and omni: "omni_settled E v L cluster" and status: "status_settled E S v L cluster"
    and secret: "cs_Ready (status_in v (oc_Name cluster)) \<Longrightarrow> secret_settled E S R (oc_Name cluster)"
    and alloc: "gomap_eq (ost_AllocatedMachines (oc_Status cluster)) alloc"
  shows "returns v S (settleCluster E R cluster (oc_Status cluster) (oc_Name cluster) alloc (status_in v (oc_Name cluster)))
    (\<lambda>x. x = \<lparr>Requeue = False,
       RequeueAfter = (if cs_Ready (status_in v (oc_Name cluster)) then requeueLong else requeueShort)\<rparr>) UNIV"
proof -
  let ?ready = "cs_Ready (status_in v (oc_Name cluster))" and ?c = "observed_cluster cluster alloc"
  have same: "\<not> statusNeedsUpdate (oc_Status cluster) (oc_Status ?c)"
    using alloc by (simp add: statusNeedsUpdate_def semantic_eq_cluster_status_def)
  have drift: "returns v S (if ?ready then GetDriftingMachines E (oc_Name cluster) else io_ret []) (\<lambda>x. x = []) S"
    using returns_no_drift [OF rest omni] by (auto intro: returns_ret)
  have signal: "returns v S (if ?ready then signalDriftReboots E (rc_Recorder R) ?c (oc_Name cluster) [] else io_ret ?c)
      (\<lambda>x. x = ?c) S"
    using returns_signal_none [OF status] by (auto intro: returns_ret)
  have written: "returns v S (if ?ready then ensureSecret E R (oc_Name cluster) else io_ret False) (\<lambda>x. \<not> x) UNIV"
    using returns_secret_settled [OF secret] by (auto intro: returns_ret)
  show ?thesis
    unfolding settleCluster_def Let_def
    apply (rule quiet_bind [OF returns_observe_settled [OF status]])
    apply (rule quiet_bind [OF returns_series [OF order_refl]])
    apply (rule quiet_try_case [OF drift])
    apply (rule quiet_bind [OF returns_series [OF order_refl]])
    apply (simp only:)
    apply (rule quiet_try_case [OF signal])
    apply (simp only:)
    apply (rule quiet_try_case [OF written])
    apply (rule quiet_bind [where Q = "\<lambda>_. True" and T = UNIV])
     apply (simp add: returns_ret)
    apply (rule quiet_bind [where Q = "\<lambda>_. True" and T = UNIV])
     apply (simp add: write_if_def same [simplified] returns_ret)
    apply (simp add: returns_ret)
    done
qed

section \<open>The property\<close>

lemma returns_convergeCluster:
  assumes rest: "at_rest E S v L" and omni: "omni_settled E v L cluster" and status: "status_settled E S v L cluster"
    and secret: "cs_Ready (status_in v (oc_Name cluster)) \<Longrightarrow> secret_settled E S R (oc_Name cluster)"
  shows "returns v S (convergeCluster E R cluster) (\<lambda>x. x = \<lparr>Requeue = False,
    RequeueAfter = (if cs_Ready (status_in v (oc_Name cluster)) then requeueLong else requeueShort)\<rparr>) UNIV"
proof -
  let ?cn = "oc_Name cluster" and ?st = "oc_Status cluster"
  let ?cp = "omni_ControlPlanesResourceID E ?cn"
  let ?ws = "map (\<lambda>w. (workerSetID ?cn w, roleWorker, wms_MachineSetSpec w)) (ocs_Workers (oc_Spec cluster))"
  let ?first = "AList.update ?cp (map m_Name (set_machines L cluster ?cp)) []"
  have sets: "set_settled E v L cluster (?cp, roleControlPlane, ocs_ControlPlane (oc_Spec cluster))"
      "list_all (set_settled E v L cluster) ?ws"
    using omni by (simp_all add: omni_settled_def declared_sets_def)
  have cp: "returns v S (allocateControlPlaneMachines E R cluster ?st ?cn ([], []))
      (\<lambda>x. \<exists>claimed. x = Inr (?first, claimed)) S"
    using returns_allocateMachineSet_settled [OF rest sets(1), of R ?st _ _ _ "([], [])"]
    by (simp add: allocateControlPlaneMachines_def)
  have workers: "returns v S (allocateWorkerMachines E R cluster ?st ?cn (?first, claimed))
      (\<lambda>x. \<exists>claimed'. x = Inr (allocation_of L cluster ?ws ?first, claimed')) S" for claimed
    using returns_allocateWorkerSets_settled [OF rest sets(2), of R ?st "(?first, claimed)"]
    by (simp add: allocateWorkerMachines_def)
  have "gomap_eq (ost_AllocatedMachines ?st) (allocation_of L cluster ?ws ?first)"
    using status by (simp add: status_settled_def Let_def declared_sets_def allocation_of_def)
  note settle = returns_settleCluster [OF rest omni status secret this]
  show ?thesis
    unfolding convergeCluster_def Let_def
    apply (rule quiet_bind [OF returns_ensureCluster_settled [OF rest omni]])
    apply (simp only: sum.case)
    apply (rule quiet_bind [OF cp], elim exE, simp only: sum.case)
    apply (rule quiet_bind [OF workers], elim exE, simp only: sum.case prod.case)
    apply (rule quiet_try_case [OF returns_prune_settled [OF rest omni]])
    apply (rule quiet_try_case [OF returns_GetClusterStatus [OF rest]])
    apply (simp only: settle)
    done
qed

text \<open>C16: A reconcile of a settled \<open>OmniCluster\<close> disturbs nothing. Where Omni holds the cluster as the spec
  asks (owned, current, every declared set present with its replicas in sync, no undeclared set, no
  configuration drift), the status a pass computes is the stored one and the kubeconfig secret is not
  due, the pass succeeds and makes no write, no RPC and no event: it asks Omni at most to tear down
  extension configurations that do not exist. It is repeated after the long interval if the cluster is
  ready and after the short one otherwise. Lists of \<open>Machine\<close> objects are relied on to keep their order.\<close>

theorem cluster_settled_pass_is_silent:
  assumes rest: "at_rest E S v L" and get: "k8s_GetCluster E ns name (env w) = (Inr cluster, e)" and e: "e \<in> S"
    and live: "om_DeletionTimestamp (oc_Meta cluster) = None"
    and held: "k8s_ContainsFinalizer E (om_Finalizers (oc_Meta cluster)) finalizerName"
    and omni: "omni_settled E v L cluster" and status: "status_settled E S v L cluster"
    and secret: "cs_Ready (status_in v (oc_Name cluster)) \<longrightarrow> secret_settled E S R (oc_Name cluster)"
  shows "fst (Reconcile E R ns name w) = Inr \<lparr>Requeue = False,
      RequeueAfter = (if cs_Ready (status_in v (oc_Name cluster)) then requeueLong else requeueShort)\<rparr> \<and>
    (\<forall>c \<in> set (made (Reconcile E R ns name) w). \<exists>i.
       c = TeardownResource ExtensionsConfigurationType i \<and> v (ExtensionsConfigurationType, i) = None)"
proof -
  let ?w = "w\<lparr>env := e\<rparr>"
  obtain r w' where run: "convergeCluster E R cluster ?w = (r, w')"
    by fastforce
  have "Reconcile E R ns name w = (r, w')"
    using run live held by (simp add: Reconcile_def run_try_ext [where f = "k8s_GetCluster E ns name", OF get] reconcileCluster_def Let_def)
  moreover have "returns v S (convergeCluster E R cluster) (\<lambda>x. x = \<lparr>Requeue = False,
      RequeueAfter = (if cs_Ready (status_in v (oc_Name cluster)) then requeueLong else requeueShort)\<rparr>) UNIV"
    using returns_convergeCluster [OF rest omni status] secret by blast
  then obtain cs where "case_sum (\<lambda>_. False) (\<lambda>x. x = \<lparr>Requeue = False,
      RequeueAfter = (if cs_Ready (status_in v (oc_Name cluster)) then requeueLong else requeueShort)\<rparr>) r"
      "calls w' = calls w @ cs" "list_all (idle_call v) cs"
    using run e unfolding quiet_def by (auto dest: spec [of _ ?w])
  moreover have "\<exists>i. c = TeardownResource ExtensionsConfigurationType i \<and> v (ExtensionsConfigurationType, i) = None"
    if "idle_call v c" for c
    using that by (cases c) auto
  ultimately show ?thesis
    by (cases r) (auto simp: made_def list_all_iff)
qed

section \<open>A settled cluster in memory\<close>

text \<open>Reads of the memory leave it as it is, so every memory is at rest.\<close>

definition listed_in :: "memory \<Rightarrow> string \<Rightarrow> (string, string) gomap \<Rightarrow> machine list" where
  "listed_in e ns l = filter (\<lambda>m. om_Namespace (m_Meta m) = ns \<and> carries_labels l (om_Labels (m_Meta m))) (mem_machines e)"

lemma memory_at_rest: "at_rest memory_ops {e} (mem_view e) (listed_in e)"
  unfolding at_rest_def using mem_view_key
  by (auto simp: memory_fields mem_Get_def mem_Teardown_def mem_List_def listed_in_def)

definition settled_cluster :: omni_cluster where
  "settled_cluster = sample_cluster
     \<lparr>oc_Meta := (oc_Meta sample_cluster)\<lparr>om_Finalizers := [finalizerName]\<rparr>,
      oc_Status := \<lparr>ost_ObservedGeneration = oc_Generation sample_cluster, ost_Phase = ''RUNNING'', ost_Ready = True,
        ost_AllocatedMachines = [(''c1-control-planes'', [''m1''])], ost_FailureReason = None, ost_FailureMessage = None,
        ost_Conditions =
          [new_condition ''Ready'' ConditionTrue ''RUNNING'' ''Omni cluster phase: RUNNING'' (oc_Generation sample_cluster),
           drift_condition sample_cluster ConditionFalse ''AllMachinesUpToDate'' ''All machines are running the target config'']\<rparr>\<rparr>"

definition settled_memory :: memory where
  "settled_memory = empty_memory
     \<lparr>mem_clusters := [settled_cluster],
      mem_machines := [newMachine ''ns'' ''c1'' ''c1-control-planes'' roleControlPlane ''m1'' (sample_set 1)],
      mem_secrets := [\<lparr>sec_Meta = (empty_meta ''c1-kubeconfig'' ''kc'')\<lparr>om_Annotations := [(kubeconfigRefreshedAtAnnotation, ''900'')]\<rparr>,
        sec_Data = [(''value'', ''kubeconfig'')]\<rparr>],
      mem_resources :=
        [\<lparr>r_ID = ''c1'', r_Labels = [(ownerLabel, ''ns/c1'')], r_Spec = ClusterSpec ''1.30.0'' ''v1.8.0''\<rparr>,
         \<lparr>r_ID = ''c1'', r_Labels = [], r_Spec = ClusterStatusSpec ''RUNNING'' True\<rparr>,
         \<lparr>r_ID = ''c1-control-planes'', r_Labels = [(''cluster'', ''c1'')], r_Spec = MachineSetSpec\<rparr>,
         \<lparr>r_ID = ''m1'', r_Labels = [(''cluster'', ''c1''), (''machine-set'', ''c1-control-planes'')], r_Spec = MachineSetNodeSpec\<rparr>,
         \<lparr>r_ID = ''m1'', r_Labels = [(''cluster'', ''c1'')], r_Spec = ClusterMachineStatusSpec
           \<lparr>cms_Stage = RUNNING, cms_Ready = True, cms_ConfigUpToDate = True, cms_LastConfigError = [],
            cms_ManagementAddress = ''10.0.0.1''\<rparr>\<rparr>]\<rparr>"

abbreviation settled_reconciler :: reconciler where
  "settled_reconciler \<equiv> \<lparr>rc_Recorder = True, rc_KubeconfigNamespace = ''kc'', rc_ArgoCDClusters = False\<rparr>"

lemma settled_status_in: "status_in (mem_view settled_memory) ''c1'' = \<lparr>cs_Phase = ''RUNNING'', cs_Ready = True\<rparr>"
  by code_simp

lemma settled_views:
  "mem_view settled_memory (ClusterType, ''c1'') =
     Some \<lparr>r_ID = ''c1'', r_Labels = [(ownerLabel, ''ns/c1'')], r_Spec = ClusterSpec ''1.30.0'' ''v1.8.0''\<rparr>"
  "mem_view settled_memory (MachineSetType, ''c1-control-planes'') \<noteq> None"
  "mem_view settled_memory (ExtensionsConfigurationType, schematicID ''c1-control-planes'') = None"
  "map m_Name (listed_in settled_memory ''ns'' [(labelCluster, ''c1''), (labelMachineSet, ''c1-control-planes'')]) = [''m1'']"
  "list_all (machine_in_sync ''c1'' ''c1-control-planes'' roleControlPlane (sample_set 1))
     (listed_in settled_memory ''ns'' [(labelCluster, ''c1''), (labelMachineSet, ''c1-control-planes'')])"
  by code_simp+

lemma settled_cluster_simps:
  "oc_Name settled_cluster = ''c1''" "oc_Namespace settled_cluster = ''ns''"
  "ocs_Workers (oc_Spec settled_cluster) = []" "ocs_ControlPlane (oc_Spec settled_cluster) = sample_set 1"
  "ocs_KubernetesVersion (oc_Spec settled_cluster) = ''1.30.0''" "ocs_TalosVersion (oc_Spec settled_cluster) = ''v1.8.0''"
  "om_DeletionTimestamp (oc_Meta settled_cluster) = None" "om_Finalizers (oc_Meta settled_cluster) = [finalizerName]"
  by (simp_all add: settled_cluster_def sample_cluster_def empty_meta_def)

lemma settled_resources:
  assumes "mem_view settled_memory (t, r_ID r) = Some r"
  shows "r_Type r = t \<and> r \<in> set (mem_resources settled_memory)"
  using mem_view_key [OF assms] by (simp add: key_of_def)

lemma settled_omni: "omni_settled memory_ops (mem_view settled_memory) (listed_in settled_memory) settled_cluster"
proof -
  let ?ms = "listed_in settled_memory ''ns'' [(labelCluster, ''c1''), (labelMachineSet, ''c1-control-planes'')]"
  obtain m where "?ms = [m]" "m_Name m = ''m1''"
    using settled_views(4) by (auto simp: map_eq_Cons_conv)
  moreover have nodes: "r_ID r = ''m1''" if "mem_view settled_memory (MachineSetNodeType, r_ID r) = Some r" for r
    using settled_resources [OF that] by (auto simp: settled_memory_def)
  ultimately have set: "set_settled memory_ops (mem_view settled_memory) (listed_in settled_memory) settled_cluster
      (''c1-control-planes'', roleControlPlane, sample_set 1)"
    using settled_views(2,3,5)
    by (auto simp: set_settled_def settled_cluster_simps sample_set_def)
  have sets: "r_ID r = ''c1-control-planes''" if "mem_view settled_memory (MachineSetType, r_ID r) = Some r" for r
    using settled_resources [OF that] by (auto simp: settled_memory_def)
  have statuses: "\<not> cms_drifting (cms (r_Spec r))" if "mem_view settled_memory (ClusterMachineStatusType, r_ID r) = Some r" for r
    using settled_resources [OF that] by (auto simp: settled_memory_def cms_drifting_def)
  show ?thesis
    using set sets statuses settled_views(1)
    by (auto simp: omni_settled_def settled_cluster_simps declared_sets_def desiredMachineSets_def memory_fields
        ownerOf_def get_label_def)
qed

lemma settled_status: "status_settled memory_ops {settled_memory} (mem_view settled_memory) (listed_in settled_memory) settled_cluster"
proof -
  have alloc: "allocation_of (listed_in settled_memory) settled_cluster (declared_sets memory_ops settled_cluster) [] =
      [(''c1-control-planes'', [''m1''])]"
    by code_simp
  show ?thesis
    unfolding status_settled_def Let_def settled_cluster_simps settled_status_in alloc
    by (simp add: settled_cluster_def memory_fields new_condition_def drift_condition_def boolToConditionStatus_def
        ConditionTrue_def ConditionFalse_def empty_memory_def settled_memory_def)
qed

lemma settled_secret: "secret_settled memory_ops {settled_memory} settled_reconciler ''c1''"
proof -
  have "\<not> secretNeedsRefresh memory_ops (stored_secret settled_memory ''kc'' ''c1-kubeconfig'') ''value'' (mem_clock settled_memory)"
    "stored_secret settled_memory ''kc'' ''c1-kubeconfig'' \<noteq> None"
    by code_simp+
  moreover have "stored_secret (settled_memory\<lparr>mem_clock := t\<rparr>) = stored_secret settled_memory" for t
    by (simp add: stored_secret_def fun_eq_iff)
  ultimately show ?thesis
    by (auto simp: secret_settled_def secret_name_def memory_fields found_def)
qed

theorem cluster_settled_pass_is_silent_witness:
  "fst (Reconcile memory_ops settled_reconciler ''ns'' ''c1'' (world_of settled_memory)) =
     Inr \<lparr>Requeue = False, RequeueAfter = requeueLong\<rparr>"
proof -
  have get: "k8s_GetCluster memory_ops ''ns'' ''c1'' (env (world_of settled_memory)) = (Inr settled_cluster, settled_memory)"
    using settled_cluster_simps(1,2) by (simp add: memory_fields found_def object_named_def settled_memory_def)
  have held: "k8s_ContainsFinalizer memory_ops (om_Finalizers (oc_Meta settled_cluster)) finalizerName"
    by (simp add: settled_cluster_simps memory_fields)
  from cluster_settled_pass_is_silent [OF memory_at_rest get _ settled_cluster_simps(7) held settled_omni settled_status,
      of settled_reconciler] settled_secret
  show ?thesis
    by (simp add: settled_cluster_simps settled_status_in)
qed

end
