(* ===== verification/Cluster_Convergence.thy ===== *)
theory Cluster_Convergence
  imports Env_Passes Machine_Properties Cluster_Settled
begin

text \<open>
  A whole pass of the \<open>OmniCluster\<close> reconciler over a lawful COSI store: what it leaves in Omni for the
  cluster, its machine sets and the sets that left the spec. The API server's side of a pass does not
  touch Omni, which is a preorder on environments.
\<close>

section \<open>Calls that are not about the COSI state\<close>

definition same_store :: "('e \<Rightarrow> store) \<Rightarrow> 'e \<Rightarrow> 'e \<Rightarrow> bool" where
  "same_store V e e' \<longleftrightarrow> V e' = V e"

interpretation same: env_preorder "same_store V" for V :: "'e \<Rightarrow> store"
  by unfold_locales (simp_all add: same_store_def)

definition omni_apart :: "'e ops \<Rightarrow> ('e \<Rightarrow> store) \<Rightarrow> bool" where
  "omni_apart E V \<longleftrightarrow> (\<forall>e.
     (\<forall>ns n. V (snd (k8s_GetCluster E ns n e)) = V e) \<and> (\<forall>ns n. V (snd (k8s_GetMachine E ns n e)) = V e) \<and>
     (\<forall>ns n. V (snd (k8s_GetSecret E ns n e)) = V e) \<and> (\<forall>ns l. V (snd (k8s_ListMachines E ns l e)) = V e) \<and>
     (\<forall>m. V (snd (k8s_CreateMachine E m e)) = V e) \<and> (\<forall>m. V (snd (k8s_UpdateMachine E m e)) = V e) \<and>
     (\<forall>ns n. V (snd (k8s_DeleteMachine E ns n e)) = V e) \<and> (\<forall>m. V (snd (k8s_UpdateMachineStatus E m e)) = V e) \<and>
     (\<forall>c. V (snd (k8s_UpdateCluster E c e)) = V e) \<and> (\<forall>c. V (snd (k8s_UpdateClusterStatus E c e)) = V e) \<and>
     (\<forall>ns n. V (snd (k8s_DeleteSecret E ns n e)) = V e) \<and>
     (\<forall>ns n f. V (snd (k8s_CreateOrUpdateSecret E ns n f e)) = V e) \<and>
     (\<forall>cn a. V (snd (omni_Kubeconfig E cn a e)) = V e) \<and> (\<forall>cn a. V (snd (omni_Reboot E cn a e)) = V e) \<and>
     V (snd (time_Now E e)) = V e)"

lemma apart_calm:
  assumes store: "cosi_store E V" and apart: "omni_apart E V"
  shows "same.calm V E"
proof -
  have "V (snd (cosi_Get E t i e)) = V e" for t i e
    using store unfolding cosi_store_def cosi_reads_def yields_def refuses_def
    by (cases "V e (t, i)") blast+
  moreover have "V (snd (cosi_List E t q e)) = V e" for t q e
    using store unfolding cosi_store_def cosi_lists_def yields_def by blast
  ultimately show ?thesis
    using apart unfolding same.calm_def same.moves_def same_store_def omni_apart_def by simp
qed

lemma apart_update: "omni_apart E V \<Longrightarrow> same.leads V (updateMachine E m)"
  by (rule same.leads_ext) (simp add: same_store_def omni_apart_def)

lemma same_run: "same.leads V m \<Longrightarrow> m w = (r, w') \<Longrightarrow> V (env w') = V (env w)"
  using same.leadsD unfolding same_store_def by blast

section \<open>What the spec of a cluster asks of Omni\<close>

definition cluster_declared :: "store \<Rightarrow> omni_cluster \<Rightarrow> bool" where
  "cluster_declared s cluster \<longleftrightarrow> (\<exists>r. s (ClusterType, oc_Name cluster) = Some r \<and>
     get_label ownerLabel r = Some (ownerOf cluster) \<and>
     r_Spec r = ClusterSpec (ocs_KubernetesVersion (oc_Spec cluster)) (ocs_TalosVersion (oc_Spec cluster)))"

definition new_machine_set :: "'e ops \<Rightarrow> string \<Rightarrow> string \<Rightarrow> string \<Rightarrow> resource" where
  "new_machine_set E clusterName machineSetID role =
     set_label role '''' (set_label (omni_LabelCluster E) clusterName
       (with_spec MachineSetSpec (omni_New E MachineSetType machineSetID)))"

definition extensions_declared :: "store \<Rightarrow> string \<Rightarrow> machine_set_spec \<Rightarrow> bool" where
  "extensions_declared s i spec \<longleftrightarrow>
     (if mss_MachineExtensions spec = [] then s (ExtensionsConfigurationType, schematicID i) = None
      else \<exists>r. s (ExtensionsConfigurationType, schematicID i) = Some r \<and>
        r_Spec r = ExtensionsConfigurationSpec (mss_MachineExtensions spec))"

text \<open>A set that existed stays as it is, one that did not is created with the labels of its cluster and role.\<close>

definition set_declared :: "'e ops \<Rightarrow> store \<Rightarrow> store \<Rightarrow> string \<Rightarrow> string \<times> string \<times> machine_set_spec \<Rightarrow> bool" where
  "set_declared E s s' cn x \<longleftrightarrow> (case x of (i, role, spec) \<Rightarrow> extensions_declared s' i spec \<and>
     s' (MachineSetType, i) = Some (case s (MachineSetType, i) of
        Some r \<Rightarrow> r
      | None \<Rightarrow> new_machine_set E cn i (case omniRoleLabel E role of Inl _ \<Rightarrow> '''' | Inr l \<Rightarrow> l)))"

definition set_keys :: "string \<Rightarrow> (rtype \<times> string) set" where
  "set_keys i = {(MachineSetType, i), (ExtensionsConfigurationType, schematicID i)}"

text \<open>What Omni holds for a set: itself, its extensions, and what binds and configures its machines.\<close>

definition nodes_of :: "'e ops \<Rightarrow> store \<Rightarrow> string \<Rightarrow> string set" where
  "nodes_of E s i = {m. \<exists>r. s (MachineSetNodeType, m) = Some r \<and> get_label (omni_LabelMachineSet E) r = Some i}"

definition orphan_keys :: "'e ops \<Rightarrow> store \<Rightarrow> string \<Rightarrow> string \<Rightarrow> (rtype \<times> string) set" where
  "orphan_keys E s cn i = set_keys i \<union> (\<Union>m \<in> nodes_of E s i. release_keys E s cn m)"

definition orphans :: "'e ops \<Rightarrow> store \<Rightarrow> omni_cluster \<Rightarrow> string set" where
  "orphans E s cluster = {i. (\<exists>r. s (MachineSetType, i) = Some r \<and>
     get_label (omni_LabelCluster E) r = Some (oc_Name cluster))} - set (desiredMachineSets E cluster (oc_Name cluster))"

section \<open>The cluster and one machine set\<close>

lemma ensured_cluster:
  assumes store: "cosi_store E V" and new: "omni_constructors E"
    and run: "EnsureCluster E name owner kube talos w = (Inr u, w')"
  obtains r where "V (env w') = (V (env w))((ClusterType, name) \<mapsto> r)"
    and "get_label ownerLabel r = Some owner" and "r_Spec r = ClusterSpec kube talos"
proof (cases "\<forall>r. V (env w) (ClusterType, name) = Some r \<longrightarrow> get_label ownerLabel r \<in> {None, Some owner}")
  case True
  then obtain r w1 where "EnsureCluster E name owner kube talos w = (Inr (), w1)"
      "V (env w1) = (V (env w))((ClusterType, name) \<mapsto> r)" "get_label ownerLabel r = Some owner"
      "r_Spec r = ClusterSpec kube talos"
    using run_EnsureCluster [OF store new] by metis
  with run show ?thesis by (intro that [of r]) simp_all
next
  case False
  then obtain r other where r: "V (env w) (ClusterType, name) = Some r" "get_label ownerLabel r = Some other" "other \<noteq> owner"
    by fastforce
  obtain w1 where "StateGet E ClusterType name w = (Inr r, w1)"
    using run_StateGet_found [OF store r(1)] .
  with run r show ?thesis
    by (simp add: EnsureCluster_def run_try Let_def io_raise_def)
qed

lemma ensured_set:
  assumes store: "cosi_store E V" and new: "omni_constructors E"
  obtains w' where "EnsureMachineSet E cn i role w = (Inr (), w')"
    and "V (env w') = (V (env w))((MachineSetType, i) \<mapsto>
      (case V (env w) (MachineSetType, i) of Some r \<Rightarrow> r | None \<Rightarrow> new_machine_set E cn i role))"
proof (cases "V (env w) (MachineSetType, i)")
  case None
  obtain m w1 where get: "StateGet E MachineSetType i w = (Inl (CosiError ResourceNotFound m), w1)" "V (env w1) = V (env w)"
    using run_StateGet_absent [OF store None] .
  let ?r = "new_machine_set E cn i role"
  have key: "key_of ?r = (MachineSetType, i)"
    using new by (simp add: new_machine_set_def key_of_def with_spec_def omni_constructors_def)
  obtain w' where "StateCreate E ?r w1 = (Inr (), w')" "V (env w') = (V (env w1))(key_of ?r \<mapsto> ?r)"
    using run_StateCreate_new [OF store] None get(2) key by metis
  with get key None show ?thesis
    by (intro that [of w']) (simp_all add: EnsureMachineSet_def run_try new_machine_set_def)
next
  case (Some r)
  obtain w1 where "StateGet E MachineSetType i w = (Inr r, w1)" "V (env w1) = V (env w)"
    using run_StateGet_found [OF store Some] .
  with Some show ?thesis
    by (intro that [of w1]) (simp_all add: EnsureMachineSet_def run_try io_ret_def map_upd_same)
qed

lemma ensured_extensions:
  assumes store: "cosi_store E V" and new: "omni_constructors E"
    and run: "reconcileExtensions E cn i spec w = (Inr u, w')"
  shows "extensions_declared (V (env w')) i spec \<and>
    (\<forall>k. k \<noteq> (ExtensionsConfigurationType, schematicID i) \<longrightarrow> V (env w') k = V (env w) k)"
proof (cases "mss_MachineExtensions spec = []")
  case True
  then have "DeleteExtensionsConfigurationForMachineSet E i w = (Inr u, w')"
    using run by (simp add: reconcileExtensions_def io_iff)
  with True show ?thesis
    using removed_run [OF store] unfolding DeleteExtensionsConfigurationForMachineSet_def
    by (simp add: extensions_declared_def)
next
  case False
  let ?k = "(ExtensionsConfigurationType, schematicID i)" and ?x = "mss_MachineExtensions spec"
  have "\<exists>r w'. EnsureMachineSetExtensionsConfiguration E cn i ?x w = (Inr (), w') \<and>
      V (env w') = (V (env w))(?k \<mapsto> r) \<and> r_Spec r = ExtensionsConfigurationSpec ?x"
  proof (cases "V (env w) ?k")
    case None
    obtain m w1 where get: "StateGet E ExtensionsConfigurationType (schematicID i) w = (Inl (CosiError ResourceNotFound m), w1)"
        "V (env w1) = V (env w)"
      using run_StateGet_absent [OF store None] .
    let ?r = "with_spec (ExtensionsConfigurationSpec ?x) (set_label (omni_LabelMachineSet E) i
      (set_label (omni_LabelCluster E) cn (omni_New E ExtensionsConfigurationType (schematicID i))))"
    have key: "key_of ?r = ?k"
      using new by (simp add: key_of_def with_spec_def omni_constructors_def)
    obtain w' where "StateCreate E ?r w1 = (Inr (), w')" "V (env w') = (V (env w1))(key_of ?r \<mapsto> ?r)"
      using run_StateCreate_new [OF store] None get(2) key by metis
    with get key show ?thesis
      by (intro exI [of _ ?r] exI [of _ w']) (simp add: EnsureMachineSetExtensionsConfiguration_def Let_def run_try with_spec_def)
  next
    case (Some old)
    obtain w1 where get: "StateGet E ExtensionsConfigurationType (schematicID i) w = (Inr old, w1)" "V (env w1) = V (env w)"
      using run_StateGet_found [OF store Some] .
    have old: "r_Type old = ExtensionsConfigurationType" "r_ID old = schematicID i"
      using cosi_store_typed [OF store Some] by auto
    then obtain y where spec: "r_Spec old = ExtensionsConfigurationSpec y" by (cases "r_Spec old") auto
    show ?thesis
    proof (cases "y = ?x")
      case True
      with get spec Some show ?thesis
        by (intro exI [of _ old] exI [of _ w1])
          (simp add: EnsureMachineSetExtensionsConfiguration_def Let_def run_try stringSlicesEqual_iff io_ret_def map_upd_same)
    next
      case False
      let ?r = "with_spec (ExtensionsConfigurationSpec ?x) old"
      have key: "key_of ?r = ?k" using old by (simp add: key_of_def with_spec_def)
      obtain w' where "StateUpdate E ?r w1 = (Inr (), w')" "V (env w') = (V (env w1))(key_of ?r \<mapsto> ?r)"
        using run_StateUpdate [OF store, of w1 ?r] get(2) Some key by (metis option.distinct(1))
      with False get spec key show ?thesis
        by (intro exI [of _ ?r] exI [of _ w'])
          (simp add: EnsureMachineSetExtensionsConfiguration_def Let_def run_try stringSlicesEqual_iff with_spec_def)
    qed
  qed
  with False run show ?thesis
    by (auto simp: reconcileExtensions_def extensions_declared_def io_iff)
qed

lemma allocated_extensions:
  assumes store: "cosi_store E V" and new: "omni_constructors E" and apart: "omni_apart E V"
    and run: "reconcileMachineSetAllocation E recorder cluster cn i role spec claimed w = (Inr x, w')"
  shows "extensions_declared (V (env w')) i spec \<and>
    (\<forall>k. k \<noteq> (ExtensionsConfigurationType, schematicID i) \<longrightarrow> V (env w') k = V (env w) k)"
proof -
  note calm = apart_calm [OF store apart]
  note same = same_run [of V, rotated]
  obtain listed bound existing r w1 w2 w3 w4 w5 where parts:
      "listMachineSetMachines E (oc_Namespace cluster) cn i w = (Inr listed, w1)"
      "AllocatedMachineSetNodes E i w1 = (Inr bound, w2)"
      "adoptBindings E recorder cluster cn i role spec bound (map m_Name listed) listed w2 = (Inr existing, w3)"
      "scaleTo E recorder cluster cn i role spec (active_of existing) (deleting_of existing)
        (claim_all (map m_Name existing) claimed) w3 = (Inr r, w4)"
      "syncSpecs E cn i role spec (fst r) w4 = (Inr (), w5)" "reconcileExtensions E cn i spec w5 = (Inr (), w')"
    using run unfolding reconcileMachineSetAllocation_def by (auto simp: io_iff split: prod.splits)
  have "V (env w5) = V (env w)"
    using same_run [OF same.calm_objects(6) [OF calm] parts(1)] same_run [OF same.calm_client(6) [OF calm] parts(2)]
      same_run [OF same.calm_adoption(1) [OF calm] parts(3)] same_run [OF same.calm_adoption(4) [OF calm] parts(4)]
      same_run [OF same.calm_updates(1) [OF calm apart_update [OF apart]] parts(5)] by simp
  with ensured_extensions [OF store new parts(6)] show ?thesis by simp
qed

lemma allocated_set:
  assumes store: "cosi_store E V" and new: "omni_constructors E" and apart: "omni_apart E V"
    and run: "allocateMachineSet E R cluster before cn i label role r1 r2 spec alloc w = (Inr (Inr x), w')"
    and label: "omniRoleLabel E role = Inr label"
  shows "set_declared E (V (env w)) (V (env w')) cn (i, role, spec) \<and>
    (\<forall>k. k \<notin> set_keys i \<longrightarrow> V (env w') k = V (env w) k)"
proof -
  obtain w1 where set: "EnsureMachineSet E cn i label w = (Inr (), w1)" "V (env w1) = (V (env w))((MachineSetType, i) \<mapsto>
      (case V (env w) (MachineSetType, i) of Some r \<Rightarrow> r | None \<Rightarrow> new_machine_set E cn i label))"
    by (rule ensured_set [OF store new])
  obtain al claimed where alloc: "alloc = (al, claimed)" by fastforce
  obtain r w2 where r: "reconcileMachineSetAllocation E (rc_Recorder R) cluster cn i role spec claimed w1 = (r, w2)"
    by fastforce
  obtain y where "r = Inr y" "w2 = w'"
    using run unfolding allocateMachineSet_def alloc prod.case
    by (cases r) (auto simp: run_try set(1) r io_iff split: prod.splits)
  with r have "reconcileMachineSetAllocation E (rc_Recorder R) cluster cn i role spec claimed w1 = (Inr y, w')"
    by simp
  from allocated_extensions [OF store new apart this] show ?thesis
    unfolding set_declared_def set_keys_def using set(2) by (auto simp: label split: option.split)
qed

lemma schematicID_inject [simp]: "schematicID i = schematicID j \<longleftrightarrow> i = j"
  by (simp add: schematicID_def)

lemma set_keys_unique: "k \<in> set_keys i \<Longrightarrow> k \<in> set_keys j \<Longrightarrow> i = j"
  by (auto simp: set_keys_def)

text \<open>A set stays declared while no other key of its own changes.\<close>

lemma set_declared_cong:
  assumes "\<And>k. k \<in> set_keys (fst x) \<Longrightarrow> s1 k = s1' k" and "\<And>k. k \<in> set_keys (fst x) \<Longrightarrow> s2 k = s2' k"
  shows "set_declared E s1 s2 cn x = set_declared E s1' s2' cn x"
  using assms by (cases x) (simp add: set_declared_def extensions_declared_def set_keys_def)

abbreviation worker_set :: "string \<Rightarrow> worker_machine_set_spec \<Rightarrow> string \<times> string \<times> machine_set_spec" where
  "worker_set cn w \<equiv> (workerSetID cn w, roleWorker, wms_MachineSetSpec w)"

lemma allocated_workers:
  assumes store: "cosi_store E V" and new: "omni_constructors E" and apart: "omni_apart E V"
    and "allocateWorkerSets E R cluster before cn ws alloc w = (Inr (Inr x), w')"
    and "distinct (map (workerSetID cn) ws)"
  shows "(\<forall>u \<in> set ws. set_declared E (V (env w)) (V (env w')) cn (worker_set cn u)) \<and>
    (\<forall>k. k \<notin> (\<Union>u \<in> set ws. set_keys (workerSetID cn u)) \<longrightarrow> V (env w') k = V (env w) k)"
  using assms(4,5)
proof (induction ws arbitrary: alloc w)
  case Nil
  then show ?case by (simp add: io_iff)
next
  case (Cons u ws)
  obtain r w1 where r: "allocateMachineSet E R cluster before cn (workerSetID cn u) (omni_LabelWorkerRole E) roleWorker
        ''EnsureWorkerMachineSetFailed'' ''AllocateWorkerMachinesFailed'' (wms_MachineSetSpec u) alloc w = (Inr r, w1)"
      and "(case r of Inl result \<Rightarrow> io_ret (Inl result)
        | Inr alloc' \<Rightarrow> allocateWorkerSets E R cluster before cn ws alloc') w1 = (Inr (Inr x), w')"
    using Cons.prems(1) by (auto simp: io_bind_iff)
  then obtain alloc1 where first: "allocateMachineSet E R cluster before cn (workerSetID cn u) (omni_LabelWorkerRole E) roleWorker
        ''EnsureWorkerMachineSetFailed'' ''AllocateWorkerMachinesFailed'' (wms_MachineSetSpec u) alloc w = (Inr (Inr alloc1), w1)"
      and rest: "allocateWorkerSets E R cluster before cn ws alloc1 w1 = (Inr (Inr x), w')"
    by (cases r) (simp_all add: io_iff)
  have label: "omniRoleLabel E roleWorker = Inr (omni_LabelWorkerRole E)"
    by (simp add: omniRoleLabel_def roleWorker_def roleControlPlane_def)
  note one = allocated_set [OF store new apart first label]
  have distinct: "distinct (map (workerSetID cn) ws)" "workerSetID cn u \<notin> workerSetID cn ` set ws"
    using Cons.prems(2) by auto
  note more = Cons.IH [OF rest distinct(1)]
  have own: "V (env w') k = V (env w1) k" if "k \<in> set_keys (workerSetID cn u)" for k
  proof -
    have "k \<notin> (\<Union>u \<in> set ws. set_keys (workerSetID cn u))"
      using that distinct(2) set_keys_unique by blast
    with more show ?thesis by blast
  qed
  have theirs: "V (env w1) k = V (env w) k" if "k \<in> set_keys (workerSetID cn v)" "v \<in> set ws" for k v
  proof -
    have "k \<notin> set_keys (workerSetID cn u)"
      using that distinct(2) set_keys_unique by blast
    with one show ?thesis by blast
  qed
  have "set_declared E (V (env w)) (V (env w')) cn (worker_set cn u)"
    using one set_declared_cong [of "worker_set cn u" "V (env w)" "V (env w)" "V (env w')" "V (env w1)" E cn] own by simp
  moreover have "set_declared E (V (env w)) (V (env w')) cn (worker_set cn v)" if "v \<in> set ws" for v
    using more that set_declared_cong [of "worker_set cn v" "V (env w)" "V (env w1)" "V (env w')" "V (env w')" E cn] theirs
    by simp
  ultimately show ?case
    using one more by simp
qed

section \<open>Sets that left the spec\<close>

text \<open>Keys that are gone already need not be counted again.\<close>

lemma release_keys_restrict: "A \<union> release_keys E (s |` (- A)) cn m = A \<union> release_keys E s cn m"
  by (auto simp: release_keys_def machine_patches_def restrict_map_def split: if_splits)

definition whole_nodes :: "'e ops \<Rightarrow> store \<Rightarrow> string \<Rightarrow> (rtype \<times> string) set \<Rightarrow> bool" where
  "whole_nodes E s cn A \<longleftrightarrow> (\<forall>m. (MachineSetNodeType, m) \<in> A \<longrightarrow> release_keys E s cn m \<subseteq> A)"

lemma whole_nodes_step: "whole_nodes E s cn A \<Longrightarrow> whole_nodes E s cn (A \<union> orphan_keys E s cn i)"
  unfolding whole_nodes_def orphan_keys_def by (auto simp: set_keys_def release_keys_def)

lemma orphan_keys_restrict:
  assumes "whole_nodes E s cn A"
  shows "A \<union> orphan_keys E (s |` (- A)) cn i = A \<union> orphan_keys E s cn i"
proof -
  let ?s = "s |` (- A)"
  have nodes: "nodes_of E ?s i = {m \<in> nodes_of E s i. (MachineSetNodeType, m) \<notin> A}"
    by (auto simp: nodes_of_def restrict_map_def split: if_splits)
  have "A \<union> (\<Union>m \<in> nodes_of E ?s i. release_keys E ?s cn m) = A \<union> (\<Union>m \<in> nodes_of E ?s i. A \<union> release_keys E ?s cn m)"
    by blast
  also have "\<dots> = A \<union> (\<Union>m \<in> nodes_of E ?s i. release_keys E s cn m)"
    unfolding release_keys_restrict by blast
  also have "\<dots> = A \<union> (\<Union>m \<in> nodes_of E s i. release_keys E s cn m)"
    using assms unfolding nodes whole_nodes_def by blast
  finally show ?thesis unfolding orphan_keys_def by blast
qed

lemma pruned_nodes:
  assumes store: "cosi_store E V"
    and "io_for ms (\<lambda>m. io_wrap f (releaseMachineOmni (OmniClient E) cn m)) w = (Inr u, w')"
  shows "V (env w') = V (env w) |` (- (\<Union>m \<in> set ms. release_keys E (V (env w)) cn m))"
  using assms(2)
proof (induction ms arbitrary: w)
  case Nil
  then show ?case by (simp add: io_iff)
next
  case (Cons m ms)
  let ?K = "release_keys E (V (env w)) cn m"
  obtain v w1 where run: "releaseMachineOmni (OmniClient E) cn m w = (Inr v, w1)"
      "io_for ms (\<lambda>m. io_wrap f (releaseMachineOmni (OmniClient E) cn m)) w1 = (Inr u, w')"
    using Cons.prems by (auto simp: io_iff)
  have w1: "V (env w1) = V (env w) |` (- ?K)"
    using run(1) by (cases rule: run_releaseMachineOmni [OF store, of cn m w]) (auto simp: released_def)
  note rest = Cons.IH [OF run(2)]
  have "?K \<union> (\<Union>m \<in> set ms. release_keys E (V (env w) |` (- ?K)) cn m) =
      ?K \<union> (\<Union>m \<in> set ms. ?K \<union> release_keys E (V (env w) |` (- ?K)) cn m)"
    by blast
  then have "?K \<union> (\<Union>m \<in> set ms. release_keys E (V (env w) |` (- ?K)) cn m) =
      (\<Union>m' \<in> set (m # ms). release_keys E (V (env w)) cn m')"
    unfolding release_keys_restrict by auto
  with rest show ?case unfolding w1 restrict_twice by simp
qed

lemma listed_ids:
  assumes store: "cosi_store E V" and rs: "set rs = {r. V e (t, r_ID r) = Some r \<and> P r}"
  shows "set (map r_ID rs) = {i. \<exists>r. V e (t, i) = Some r \<and> P r}"
proof (rule set_eqI)
  fix i
  have "r_ID r = i" if "V e (t, i) = Some r" for r
    using cosi_store_typed [OF store that] by simp
  with rs show "i \<in> set (map r_ID rs) \<longleftrightarrow> i \<in> {i. \<exists>r. V e (t, i) = Some r \<and> P r}"
    by (auto simp: image_iff)
qed

lemma pruned_set:
  assumes store: "cosi_store E V" and apart: "omni_apart E V"
    and run: "pruneMachineSet E cluster cn i w = (Inr u, w')"
  shows "V (env w') = V (env w) |` (- orphan_keys E (V (env w)) cn i)"
proof -
  obtain w1 w2 w3 where parts: "deleteMachineSetMachines E cluster cn i w = (Inr 0, w1)"
      "releaseNodes E cn (\<lambda>e. Wrapf (''release machine from orphaned set '' @ i @ '': '') e '''') i w1 = (Inr (), w2)"
      "DeleteExtensionsConfigurationForMachineSet E i w2 = (Inr (), w3)" "DeleteMachineSet E i w3 = (Inr (), w')"
    using run unfolding pruneMachineSet_def by (auto simp: io_iff split: if_splits)
  have same: "V (env w1) = V (env w)"
    using same_run [OF same.calm_objects(2) [OF apart_calm [OF store apart]] parts(1)] .
  obtain rs w4 where rs: "StateListAll E MachineSetNodeType [LabelEqual (omni_LabelMachineSet E) i] w1 = (Inr rs, w4)"
      "V (env w4) = V (env w1)" "set rs = {r. V (env w1) (MachineSetNodeType, r_ID r) = Some r \<and>
        list_all (term_holds r) [LabelEqual (omni_LabelMachineSet E) i]}"
    by (rule run_StateListAll [OF store])
  have nodes: "set (map r_ID rs) = nodes_of E (V (env w)) i"
    using listed_ids [OF store rs(3)] unfolding same nodes_of_def by simp
  have "io_for (map r_ID rs) (\<lambda>m. io_wrap (\<lambda>e. Wrapf (''release machine from orphaned set '' @ i @ '': '') e [])
      (releaseMachineOmni (OmniClient E) cn m)) w4 = (Inr (), w2)"
    using parts(2) rs(1) unfolding releaseNodes_def AllocatedMachineSetNodes_def
    by (simp add: run_bind run_wrap io_ret_def)
  from pruned_nodes [OF store this]
  show ?thesis
    using removed_run [OF store parts(3) [unfolded DeleteExtensionsConfigurationForMachineSet_def]]
      removed_run [OF store parts(4) [unfolded DeleteMachineSet_def]]
    unfolding rs(2) same nodes orphan_keys_def set_keys_def
    by (auto simp: restrict_map_def fun_eq_iff)
qed

lemma pruned_sets:
  assumes store: "cosi_store E V" and apart: "omni_apart E V"
    and "io_for is (pruneIfOrphaned E cluster cn) w = (Inr u, w')"
    and "V (env w) = s |` (- A)" and "whole_nodes E s cn A"
  shows "V (env w') = s |` (- (A \<union> (\<Union>i \<in> set is - set (desiredMachineSets E cluster cn). orphan_keys E s cn i)))"
  using assms(3-5)
proof (induction "is" arbitrary: w A)
  case Nil
  then show ?case by (simp add: io_iff)
next
  case (Cons i "is")
  let ?D = "set (desiredMachineSets E cluster cn)"
  obtain v w1 where one: "pruneIfOrphaned E cluster cn i w = (Inr v, w1)"
      and rest: "io_for is (pruneIfOrphaned E cluster cn) w1 = (Inr u, w')"
    using Cons.prems(1) by (auto simp: io_iff)
  show ?case
  proof (cases "i \<in> ?D")
    case True
    with one have "w1 = w" by (simp add: pruneIfOrphaned_def io_iff)
    with True Cons.IH [OF rest _ Cons.prems(3)] Cons.prems(2) show ?thesis by simp
  next
    case False
    then have "i \<noteq> omni_ControlPlanesResourceID E cn" by (auto simp: desiredMachineSets_def)
    with False one have "pruneMachineSet E cluster cn i w = (Inr v, w1)" by (simp add: pruneIfOrphaned_def)
    from pruned_set [OF store apart this] have "V (env w1) = s |` (- (A \<union> orphan_keys E s cn i))"
      unfolding Cons.prems(2) restrict_twice orphan_keys_restrict [OF Cons.prems(3)] .
    from Cons.IH [OF rest this whole_nodes_step [OF Cons.prems(3)]] False show ?thesis
      by (simp add: insert_Diff_if Un_assoc)
  qed
qed

lemma pruned_orphans:
  assumes store: "cosi_store E V" and apart: "omni_apart E V"
    and run: "pruneOrphanedMachineSets E cluster (oc_Name cluster) w = (Inr u, w')"
  shows "V (env w') = V (env w) |` (- (\<Union>i \<in> orphans E (V (env w)) cluster. orphan_keys E (V (env w)) (oc_Name cluster) i))"
proof -
  obtain rs w1 where rs: "StateListAll E MachineSetType [LabelEqual (omni_LabelCluster E) (oc_Name cluster)] w = (Inr rs, w1)"
      "V (env w1) = V (env w)" "set rs = {r. V (env w) (MachineSetType, r_ID r) = Some r \<and>
        list_all (term_holds r) [LabelEqual (omni_LabelCluster E) (oc_Name cluster)]}"
    by (rule run_StateListAll [OF store])
  have ids: "set (map r_ID rs) - set (desiredMachineSets E cluster (oc_Name cluster)) = orphans E (V (env w)) cluster"
    using listed_ids [OF store rs(3)] unfolding orphans_def by simp
  have "io_for (map r_ID rs) (pruneIfOrphaned E cluster (oc_Name cluster)) w1 = (Inr u, w')"
    using run rs(1) unfolding pruneOrphanedMachineSets_def ListMachineSetIDsForCluster_def
    by (simp add: run_bind run_wrap io_ret_def)
  moreover have "V (env w1) = V (env w) |` (- {})"
    using rs(2) by (simp add: restrict_map_def)
  ultimately show ?thesis
    using pruned_sets [OF store apart, of _ cluster "oc_Name cluster" w1 u w' "V (env w)" "{}"] ids
    by (simp add: whole_nodes_def)
qed

section \<open>The stages of a pass that does not stop early\<close>

lemma stage_iff:
  "io_bind m (case_sum f g) w = (Inr r, w') \<longleftrightarrow>
     (\<exists>a w1. m w = (Inr (Inl a), w1) \<and> f a w1 = (Inr r, w')) \<or> (\<exists>b w1. m w = (Inr (Inr b), w1) \<and> g b w1 = (Inr r, w'))"
proof -
  have "(\<exists>x w1. m w = (Inr x, w1) \<and> case_sum f g x w1 = (Inr r, w')) \<longleftrightarrow>
      (\<exists>a w1. m w = (Inr (Inl a), w1) \<and> f a w1 = (Inr r, w')) \<or> (\<exists>b w1. m w = (Inr (Inr b), w1) \<and> g b w1 = (Inr r, w'))"
    by (subst split_sum_ex) (simp add: sum.case)
  then show ?thesis by (simp only: io_bind_iff)
qed

lemmas stages = stage_iff io_try_iff io_ret_iff

text \<open>A recorded failure is retried after the short interval, so a long interval tells that no stage failed.\<close>

lemma setFailure_short: "cluster_setFailure E R cluster before reason err w = (Inr r, w') \<Longrightarrow> RequeueAfter r = requeueShort"
  using run_cluster_setFailure(1) [of E R cluster before reason err w] by auto

lemma failed_short:
  "io_bind (cluster_setFailure E R cluster before reason err) (\<lambda>result. io_ret (Inl result)) w = (Inr x, w') \<Longrightarrow>
   \<exists>r. x = Inl r \<and> RequeueAfter r = requeueShort"
  by (auto simp: io_bind_iff io_ret_iff dest: setFailure_short)

lemma ensureCluster_short: "ensureCluster E R cluster before cn w = (Inr (Inl r), w') \<Longrightarrow> RequeueAfter r = requeueShort"
  unfolding ensureCluster_def by (auto simp only: stages dest!: failed_short)

lemma allocateMachineSet_short:
  "allocateMachineSet E R cluster before cn i label role r1 r2 spec alloc w = (Inr (Inl r), w') \<Longrightarrow>
   RequeueAfter r = requeueShort"
  unfolding allocateMachineSet_def by (cases alloc) (auto simp: stages dest!: failed_short split: prod.splits)

lemma allocateWorkerSets_short:
  "allocateWorkerSets E R cluster before cn ws alloc w = (Inr (Inl r), w') \<Longrightarrow> RequeueAfter r = requeueShort"
proof (induction ws arbitrary: alloc w)
  case Nil
  then show ?case by (simp add: io_ret_iff)
next
  case (Cons u ws)
  from Cons.prems show ?case
    by (auto simp only: allocateWorkerSets.simps stages dest: allocateMachineSet_short Cons.IH)
qed

lemma requeue_distinct: "requeueShort \<noteq> requeueLong"
  by (simp add: requeueShort_def requeueLong_def second_def)

lemma convergeCluster_stages:
  assumes run: "convergeCluster E R cluster w = (Inr r, w')" and long: "RequeueAfter r = requeueLong"
  obtains w1 a w2 allocated claimed w3 w4 st w5 where
    "ensureCluster E R cluster (oc_Status cluster) (oc_Name cluster) w = (Inr (Inr ()), w1)"
    and "allocateControlPlaneMachines E R cluster (oc_Status cluster) (oc_Name cluster) ([], []) w1 = (Inr (Inr a), w2)"
    and "allocateWorkerMachines E R cluster (oc_Status cluster) (oc_Name cluster) a w2 = (Inr (Inr (allocated, claimed)), w3)"
    and "pruneOrphanedMachineSets E cluster (oc_Name cluster) w3 = (Inr (), w4)"
    and "GetClusterStatus E (oc_Name cluster) w4 = (Inr st, w5)"
    and "settleCluster E R cluster (oc_Status cluster) (oc_Name cluster) allocated st w5 = (Inr r, w')"
proof -
  have short: "RequeueAfter r \<noteq> requeueShort" using long requeue_distinct by simp
  show ?thesis
    using run short that unfolding convergeCluster_def Let_def stages allocateControlPlaneMachines_def allocateWorkerMachines_def
    by (auto simp: stages dest: ensureCluster_short allocateMachineSet_short allocateWorkerSets_short setFailure_short split: prod.splits)
qed

section \<open>The pass\<close>

definition declared_keys :: "'e ops \<Rightarrow> omni_cluster \<Rightarrow> (rtype \<times> string) set" where
  "declared_keys E cluster =
     insert (ClusterType, oc_Name cluster) (\<Union>i \<in> set (desiredMachineSets E cluster (oc_Name cluster)). set_keys i)"

definition all_orphan_keys :: "'e ops \<Rightarrow> store \<Rightarrow> omni_cluster \<Rightarrow> (rtype \<times> string) set" where
  "all_orphan_keys E s cluster = (\<Union>i \<in> orphans E s cluster. orphan_keys E s (oc_Name cluster) i)"

text \<open>What a pass leaves in Omni: the cluster and its sets as declared, no trace of a set that left the spec,
  and everything else as it was.\<close>

definition cluster_converged :: "'e ops \<Rightarrow> omni_cluster \<Rightarrow> store \<Rightarrow> store \<Rightarrow> bool" where
  "cluster_converged E cluster s s' \<longleftrightarrow>
     cluster_declared s' cluster \<and>
     (\<forall>x \<in> set (declared_sets E cluster). set_declared E s s' (oc_Name cluster) x) \<and>
     (\<forall>k \<in> all_orphan_keys E s cluster. s' k = None) \<and>
     (\<forall>k. k \<notin> declared_keys E cluster \<union> all_orphan_keys E s cluster \<longrightarrow> s' k = s k)"

lemma desired_declared: "desiredMachineSets E cluster (oc_Name cluster) = map fst (declared_sets E cluster)"
  by (simp add: desiredMachineSets_def declared_sets_def)

lemma orphans_apart: "all_orphan_keys E s cluster \<inter> declared_keys E cluster = {}"
  by (auto simp: all_orphan_keys_def declared_keys_def orphan_keys_def orphans_def set_keys_def release_keys_def)

text \<open>What is to be pruned does not depend on the keys that were declared before.\<close>

lemma all_orphan_keys_cong:
  assumes same: "\<And>k. k \<notin> declared_keys E cluster \<Longrightarrow> s k = s' k"
  shows "all_orphan_keys E s cluster = all_orphan_keys E s' cluster"
proof -
  have other: "s (t, i) = s' (t, i)" if "t \<noteq> ClusterType" "t \<noteq> MachineSetType" "t \<noteq> ExtensionsConfigurationType" for t i
    using that by (intro same) (auto simp: declared_keys_def set_keys_def)
  have "s (MachineSetType, i) = s' (MachineSetType, i)" if "i \<notin> set (desiredMachineSets E cluster (oc_Name cluster))" for i
    using that by (intro same) (auto simp: declared_keys_def set_keys_def)
  then have "orphans E s cluster = orphans E s' cluster"
    by (auto simp: orphans_def)
  moreover have "orphan_keys E s (oc_Name cluster) i = orphan_keys E s' (oc_Name cluster) i" for i
    by (simp add: orphan_keys_def nodes_of_def release_keys_def machine_patches_def other)
  ultimately show ?thesis by (simp add: all_orphan_keys_def)
qed

lemma settled_same:
  assumes store: "cosi_store E V" and apart: "omni_apart E V"
    and run: "settleCluster E R cluster before cn alloc st w = (r, w')"
  shows "V (env w') = V (env w)"
  using same_run [OF same.calm_settle run] same.calm_updates(2) apart_calm [OF store apart] apart_update [OF apart] by blast

text \<open>The stages that declare: the cluster, the control plane, the workers.\<close>

lemma declared_stages:
  assumes store: "cosi_store E V" and new: "omni_constructors E" and apart: "omni_apart E V"
    and unique: "distinct (desiredMachineSets E cluster (oc_Name cluster))"
    and ensured: "ensureCluster E R cluster before (oc_Name cluster) w = (Inr (Inr u), w1)"
    and cp: "allocateControlPlaneMachines E R cluster before (oc_Name cluster) a0 w1 = (Inr (Inr a), w2)"
    and workers: "allocateWorkerMachines E R cluster before (oc_Name cluster) a w2 = (Inr (Inr a'), w3)"
  shows "cluster_declared (V (env w3)) cluster"
    and "\<forall>x \<in> set (declared_sets E cluster). set_declared E (V (env w)) (V (env w3)) (oc_Name cluster) x"
    and "\<forall>k. k \<notin> declared_keys E cluster \<longrightarrow> V (env w3) k = V (env w) k"
proof -
  let ?cn = "oc_Name cluster" and ?spec = "oc_Spec cluster"
  let ?cp = "omni_ControlPlanesResourceID E ?cn" and ?ws = "workerSetID ?cn ` set (ocs_Workers ?spec)"
  have "EnsureCluster E ?cn (ownerOf cluster) (ocs_KubernetesVersion ?spec) (ocs_TalosVersion ?spec) w = (Inr (), w1)"
    using ensured unfolding ensureCluster_def by (auto simp: stages dest!: failed_short)
  then obtain r where r: "V (env w1) = (V (env w))((ClusterType, ?cn) \<mapsto> r)" "get_label ownerLabel r = Some (ownerOf cluster)"
      "r_Spec r = ClusterSpec (ocs_KubernetesVersion ?spec) (ocs_TalosVersion ?spec)"
    by (rule ensured_cluster [OF store new])
  have label: "omniRoleLabel E roleControlPlane = Inr (omni_LabelControlPlaneRole E)"
    by (simp add: omniRoleLabel_def)
  note first = allocated_set [OF store new apart cp [unfolded allocateControlPlaneMachines_def] label]
  have "distinct (map (workerSetID ?cn) (ocs_Workers ?spec))" and cp_apart: "?cp \<notin> ?ws"
    using unique by (auto simp: desiredMachineSets_def)
  note rest = allocated_workers [OF store new apart workers [unfolded allocateWorkerMachines_def] this(1)]
  have frame1: "V (env w1) k = V (env w) k" if "k \<noteq> (ClusterType, ?cn)" for k
    using that r(1) by simp
  have frame2: "V (env w2) k = V (env w1) k" if "k \<notin> set_keys ?cp" for k
    using that first by blast
  have frame3: "V (env w3) k = V (env w2) k" if "k \<notin> (\<Union>i \<in> ?ws. set_keys i)" for k
    using that rest by blast
  have no_cluster: "(ClusterType, ?cn) \<notin> set_keys i" for i
    by (simp add: set_keys_def)
  show "cluster_declared (V (env w3)) cluster"
    using r frame3 [of "(ClusterType, ?cn)"] frame2 [of "(ClusterType, ?cn)"] no_cluster
    by (simp add: cluster_declared_def)
  have "set_declared E (V (env w)) (V (env w3)) ?cn (?cp, roleControlPlane, ocs_ControlPlane ?spec)"
  proof -
    have "V (env w3) k = V (env w2) k" "V (env w) k = V (env w1) k" if "k \<in> set_keys ?cp" for k
      using that cp_apart set_keys_unique [of k] no_cluster by (auto intro!: frame3 frame1 [symmetric])
    with first set_declared_cong [of "(?cp, roleControlPlane, ocs_ControlPlane ?spec)" "V (env w)" "V (env w1)" "V (env w3)" "V (env w2)" E ?cn]
    show ?thesis by simp
  qed
  moreover have "set_declared E (V (env w)) (V (env w3)) ?cn (worker_set ?cn u)" if u: "u \<in> set (ocs_Workers ?spec)" for u
  proof -
    have "V (env w) k = V (env w2) k" if "k \<in> set_keys (workerSetID ?cn u)" for k
    proof -
      have "k \<notin> set_keys ?cp" "k \<noteq> (ClusterType, ?cn)"
        using that u cp_apart set_keys_unique [of k] no_cluster by blast+
      then show ?thesis using frame1 frame2 by simp
    qed
    with rest u set_declared_cong [of "worker_set ?cn u" "V (env w)" "V (env w2)" "V (env w3)" "V (env w3)" E ?cn]
    show ?thesis by simp
  qed
  ultimately show "\<forall>x \<in> set (declared_sets E cluster). set_declared E (V (env w)) (V (env w3)) ?cn x"
    by (auto simp: declared_sets_def)
  show "\<forall>k. k \<notin> declared_keys E cluster \<longrightarrow> V (env w3) k = V (env w) k"
    using frame1 frame2 frame3 by (auto simp: declared_keys_def desiredMachineSets_def)
qed

text \<open>C15: A successful pass over a live \<open>OmniCluster\<close> brings Omni to what the spec declares. Over a lawful COSI
  store that the API server's calls do not touch, and with distinct machine set names, a reconcile that
  does not stop at a failure (it asks to be repeated after the long interval, as a ready cluster does)
  leaves the cluster resource there, owned and with the declared versions; every declared machine set
  there, the existing ones as they were and the missing ones created with their cluster and role; the
  extensions of every declared set as the spec lists them, or none; and nothing of any set of the cluster
  that left the spec: not the set, its extensions, its machine set nodes, nor the config patches and kernel arguments of
  their machines. Nothing else in Omni changes.\<close>

theorem cluster_converges:
  assumes store: "cosi_store E V" and new: "omni_constructors E" and apart: "omni_apart E V"
    and get: "k8s_GetCluster E ns name (env w) = (Inr cluster, e)"
    and live: "om_DeletionTimestamp (oc_Meta cluster) = None"
    and held: "k8s_ContainsFinalizer E (om_Finalizers (oc_Meta cluster)) finalizerName"
    and unique: "distinct (desiredMachineSets E cluster (oc_Name cluster))"
    and run: "Reconcile E R ns name w = (Inr r, w')" and long: "RequeueAfter r = requeueLong"
  shows "cluster_converged E cluster (V (env w)) (V (env w'))"
proof -
  let ?w = "w\<lparr>env := e\<rparr>"
  have same: "V (env ?w) = V (env w)"
  proof -
    have "V (snd (k8s_GetCluster E ns name (env w))) = V (env w)"
      using apart by (simp add: omni_apart_def)
    with get show ?thesis by simp
  qed
  have "convergeCluster E R cluster ?w = (Inr r, w')"
    using run live held by (simp add: Reconcile_def run_try_ext [where f = "k8s_GetCluster E ns name", OF get] reconcileCluster_def Let_def)
  from convergeCluster_stages [OF this long] obtain w1 a w2 allocated claimed w3 w4 st w5 where
    ensured: "ensureCluster E R cluster (oc_Status cluster) (oc_Name cluster) ?w = (Inr (Inr ()), w1)"
    and cp: "allocateControlPlaneMachines E R cluster (oc_Status cluster) (oc_Name cluster) ([], []) w1 = (Inr (Inr a), w2)"
    and workers: "allocateWorkerMachines E R cluster (oc_Status cluster) (oc_Name cluster) a w2 = (Inr (Inr (allocated, claimed)), w3)"
    and prune: "pruneOrphanedMachineSets E cluster (oc_Name cluster) w3 = (Inr (), w4)"
    and status: "GetClusterStatus E (oc_Name cluster) w4 = (Inr st, w5)"
    and settle: "settleCluster E R cluster (oc_Status cluster) (oc_Name cluster) allocated st w5 = (Inr r, w')" .
  note declared = declared_stages [OF store new apart unique ensured cp workers, unfolded same]
  have keys: "all_orphan_keys E (V (env w3)) cluster = all_orphan_keys E (V (env w)) cluster"
    using declared(3) by (intro all_orphan_keys_cong) blast
  have "V (env w') = V (env w4)"
    using settled_same [OF store apart settle] same_run [OF same.calm_client(2) [OF apart_calm [OF store apart]] status] by simp
  then have pruned: "V (env w') k = (if k \<in> all_orphan_keys E (V (env w)) cluster then None else V (env w3) k)" for k
    using pruned_orphans [OF store apart prune] by (simp add: keys [unfolded all_orphan_keys_def] all_orphan_keys_def restrict_map_def)
  have kept: "V (env w') k = V (env w3) k" if "k \<in> declared_keys E cluster" for k
    using that orphans_apart [of E "V (env w)" cluster] pruned by auto
  have "cluster_declared (V (env w')) cluster"
    using declared(1) kept by (simp add: cluster_declared_def declared_keys_def)
  moreover have "set_declared E (V (env w)) (V (env w')) (oc_Name cluster) x" if x: "x \<in> set (declared_sets E cluster)" for x
  proof -
    have "V (env w3) k = V (env w') k" if "k \<in> set_keys (fst x)" for k
      by (rule kept [symmetric]) (use that x in \<open>auto simp: declared_keys_def desired_declared\<close>)
    with declared(2) x set_declared_cong [of x "V (env w)" "V (env w)" "V (env w3)" "V (env w')" E "oc_Name cluster"]
    show ?thesis by simp
  qed
  ultimately show ?thesis
    using pruned declared(3) unfolding cluster_converged_def by auto
qed

section \<open>A pass in memory\<close>

lemma memory_apart: "omni_apart memory_ops mem_view"
  unfolding omni_apart_def
  by (auto simp: memory_fields found_def omni_answer_def mem_CreateOrUpdateSecret_def mem_view_def
    split: if_splits option.splits)

definition leftover_memory :: memory where
  "leftover_memory = settled_memory
     \<lparr>mem_resources :=
        [\<lparr>r_ID = ''c1-old'', r_Labels = [(''cluster'', ''c1'')], r_Spec = MachineSetSpec\<rparr>,
         \<lparr>r_ID = ''m9'', r_Labels = [(''cluster'', ''c1''), (''machine-set'', ''c1-old'')], r_Spec = MachineSetNodeSpec\<rparr>,
         \<lparr>r_ID = ''m9'', r_Labels = [], r_Spec = KernelArgsSpec [''a'']\<rparr>] @ mem_resources settled_memory\<rparr>"

lemma leftover_long:
  "map_sum (\<lambda>_. ()) RequeueAfter (fst (Reconcile memory_ops settled_reconciler ''ns'' ''c1'' (world_of leftover_memory))) = Inr requeueLong"
  by code_simp

theorem cluster_converges_witness:
  "cluster_converged memory_ops settled_cluster (mem_view leftover_memory)
     (mem_view (env (snd (Reconcile memory_ops settled_reconciler ''ns'' ''c1'' (world_of leftover_memory))))) \<and>
   {(MachineSetType, ''c1-old''), (MachineSetNodeType, ''m9''), (KernelArgsType, ''m9'')} \<subseteq>
     all_orphan_keys memory_ops (mem_view leftover_memory) settled_cluster"
proof
  obtain x w' where x: "Reconcile memory_ops settled_reconciler ''ns'' ''c1'' (world_of leftover_memory) = (x, w')"
    by fastforce
  with leftover_long obtain r where "x = Inr r" "RequeueAfter r = requeueLong" by (cases x) auto
  with x have run: "Reconcile memory_ops settled_reconciler ''ns'' ''c1'' (world_of leftover_memory) = (Inr r, w')"
      "RequeueAfter r = requeueLong" by simp_all
  have get: "k8s_GetCluster memory_ops ''ns'' ''c1'' (env (world_of leftover_memory)) = (Inr settled_cluster, leftover_memory)"
    using settled_cluster_simps(1,2) by (simp add: memory_fields found_def object_named_def settled_memory_def leftover_memory_def)
  have held: "k8s_ContainsFinalizer memory_ops (om_Finalizers (oc_Meta settled_cluster)) finalizerName"
    by (simp add: settled_cluster_simps memory_fields)
  have unique: "distinct (desiredMachineSets memory_ops settled_cluster (oc_Name settled_cluster))"
    by (simp add: desiredMachineSets_def settled_cluster_simps)
  from cluster_converges [OF memory_store memory_constructors memory_apart get settled_cluster_simps(7) held unique run] run
  show "cluster_converged memory_ops settled_cluster (mem_view leftover_memory)
     (mem_view (env (snd (Reconcile memory_ops settled_reconciler ''ns'' ''c1'' (world_of leftover_memory)))))"
    by simp
  have views: "mem_view leftover_memory (MachineSetType, ''c1-old'') =
      Some \<lparr>r_ID = ''c1-old'', r_Labels = [(''cluster'', ''c1'')], r_Spec = MachineSetSpec\<rparr>"
    "mem_view leftover_memory (MachineSetNodeType, ''m9'') =
      Some \<lparr>r_ID = ''m9'', r_Labels = [(''cluster'', ''c1''), (''machine-set'', ''c1-old'')], r_Spec = MachineSetNodeSpec\<rparr>"
    by code_simp+
  have "''c1-old'' \<in> orphans memory_ops (mem_view leftover_memory) settled_cluster"
    using views(1) by (simp add: orphans_def desiredMachineSets_def settled_cluster_simps memory_fields get_label_def)
  moreover have "''m9'' \<in> nodes_of memory_ops (mem_view leftover_memory) ''c1-old''"
    using views(2) by (simp add: nodes_of_def memory_fields get_label_def)
  ultimately show "{(MachineSetType, ''c1-old''), (MachineSetNodeType, ''m9''), (KernelArgsType, ''m9'')} \<subseteq>
     all_orphan_keys memory_ops (mem_view leftover_memory) settled_cluster"
    by (auto simp: all_orphan_keys_def orphan_keys_def set_keys_def release_keys_def)
qed

end
