(* ===== verification/Machine_Admission.thy ===== *)
theory Machine_Admission
  imports Cluster_Properties
begin

text \<open>
  The type of the \<open>Machine\<close> objects the cluster controller makes: every one is addressed to a set of
  the spec, labelled for the lists both controllers make, and carries a role the machine controller
  knows.
\<close>

section \<open>A machine of a cluster's spec\<close>

text \<open>\<open>SetControllerReference\<close> adds an owner reference and leaves the rest of the object as it is.\<close>

definition reference_only :: "'e ops \<Rightarrow> bool" where
  "reference_only E \<longleftrightarrow> (\<forall>c m m'. k8s_SetControllerReference E c m = Inr m' \<longrightarrow>
     m' = m\<lparr>m_Meta := (m_Meta m)\<lparr>om_OwnerReferences := om_OwnerReferences (m_Meta m')\<rparr>\<rparr>)"

definition asks_for :: "'e ops \<Rightarrow> omni_cluster \<Rightarrow> string \<Rightarrow> string \<Rightarrow> machine_set_spec \<Rightarrow> bool" where
  "asks_for E cluster set_id role spec \<longleftrightarrow>
     (set_id = omni_ControlPlanesResourceID E (oc_Name cluster) \<and> role = roleControlPlane \<and>
      spec = ocs_ControlPlane (oc_Spec cluster)) \<or>
     (\<exists>w \<in> set (ocs_Workers (oc_Spec cluster)). set_id = oc_Name cluster @ ''-'' @ wms_Name w \<and>
        role = roleWorker \<and> spec = wms_MachineSetSpec w)"

definition machine_of_set ::
  "omni_cluster \<Rightarrow> string \<Rightarrow> string \<Rightarrow> machine_set_spec \<Rightarrow> machine \<Rightarrow> bool" where
  "machine_of_set cluster set_id role spec m \<longleftrightarrow>
     m_Namespace m = oc_Namespace cluster \<and>
     map_of (om_Labels (m_Meta m)) labelCluster = Some (oc_Name cluster) \<and>
     map_of (om_Labels (m_Meta m)) labelMachineSet = Some set_id \<and>
     m_Spec m =
       \<lparr>ms_ClusterName = oc_Name cluster, ms_MachineSetID = set_id, ms_Role = role,
        ms_ConfigPatches = mss_ConfigPatches spec, ms_KernelArgs = mss_KernelArgs spec,
        ms_RebootRequestedAt = None, ms_ManagementAddress = ''''\<rparr> \<and>
     m_Status m = zero_machine_status \<and> m_DeletionTimestamp m = None"

definition admissible :: "'e ops \<Rightarrow> omni_cluster \<Rightarrow> machine \<Rightarrow> bool" where
  "admissible E cluster m \<longleftrightarrow>
     (\<exists>set_id role spec. asks_for E cluster set_id role spec \<and> machine_of_set cluster set_id role spec m)"

lemma created_is_of_set:
  assumes "reference_only E"
    and created: "k8s_SetControllerReference E cluster
      (newMachine (oc_Namespace cluster) (oc_Name cluster) s role i spec) = Inr m"
  shows "machine_of_set cluster s role spec m"
proof -
  let ?m = "newMachine (oc_Namespace cluster) (oc_Name cluster) s role i spec"
  have "m = ?m\<lparr>m_Meta := (m_Meta ?m)\<lparr>om_OwnerReferences := om_OwnerReferences (m_Meta m)\<rparr>\<rparr>"
    using assms unfolding reference_only_def by blast
  then obtain refs where "m = ?m\<lparr>m_Meta := (m_Meta ?m)\<lparr>om_OwnerReferences := refs\<rparr>\<rparr>"
    by blast
  then show ?thesis
    by (simp add: machine_of_set_def newMachine_def desiredMachineSpec_def empty_meta_def allocation_labels_def
        labelCluster_def labelMachineSet_def)
qed

section \<open>The creations of each step\<close>

text \<open>The calls that create a machine outside a class; every other call is allowed.\<close>

fun creates_other :: "(machine \<Rightarrow> bool) \<Rightarrow> call \<Rightarrow> bool" where
  "creates_other P (CreateMachine m) = (\<not> P m)"
| "creates_other P _ = False"

lemma creates_other_omni: "call_type c \<noteq> None \<Longrightarrow> \<not> creates_other P c"
  by (cases c) auto

definition made_for :: "'e ops \<Rightarrow> omni_cluster \<Rightarrow> string \<Rightarrow> string \<Rightarrow> machine_set_spec \<Rightarrow> machine \<Rightarrow> bool" where
  "made_for E cluster s role spec m \<longleftrightarrow> (\<exists>i. k8s_SetControllerReference E cluster
     (newMachine (oc_Namespace cluster) (oc_Name cluster) s role i spec) = Inr m)"

lemma creates_machine:
  "never (creates_other (made_for E cluster s role spec)) (createMachine E cluster (oc_Name cluster) s role i spec)"
  unfolding createMachine_def by (intro effects) (auto simp: io_iff made_for_def)

lemma creates_adopted:
  "never (creates_other (made_for E cluster s role spec))
     (adoptBindings E recorder cluster (oc_Name cluster) s role spec bound have existing)"
  by (induction bound arbitrary: "have" existing)
    (simp_all add: atmost_ret never_bind atmost_wrap never_eventf creates_machine)

lemma creates_fresh:
  "never (creates_other (made_for E cluster s role spec))
     (createFresh E cluster (oc_Name cluster) s role spec fresh active claimed)"
  by (induction fresh arbitrary: active claimed)
    (simp_all add: atmost_ret never_bind atmost_wrap creates_machine)

lemma creates_scaled:
  "never (creates_other (made_for E cluster s role spec))
     (scaleTo E recorder cluster (oc_Name cluster) s role spec active leaving claimed)"
  unfolding scaleTo_def scaleUp_def Let_def
  by (intro never_bind atmost_if atmost_wrap atmost_ret atmost_raise never_eventf never_scaleDown creates_fresh
      atmost_SelectAvailableMachines) simp_all

lemma creates_allocated:
  "never (creates_other (made_for E cluster s role spec))
     (reconcileMachineSetAllocation E recorder cluster (oc_Name cluster) s role spec claimed)"
  unfolding reconcileMachineSetAllocation_def
  by (intro never_bind atmost_wrap atmost_prod atmost_ret never_listMachineSetMachines creates_adopted creates_scaled
      never_syncSpecs never_reconcileExtensions effects) (auto simp: creates_other_omni)

text \<open>A machine set of the spec gets admissible machines only; no other stage creates any.\<close>

lemma creates_set:
  assumes ref: "reference_only E" and s: "asks_for E cluster s role spec"
  shows "never (creates_other (admissible E cluster))
    (allocateMachineSet E R cluster before (oc_Name cluster) s omniRole role r1 r2 spec alloc)"
proof -
  have "creates_other (made_for E cluster s role spec) c" if "creates_other (admissible E cluster) c" for c
    using that s by (cases c) (auto simp: made_for_def admissible_def dest: created_is_of_set [OF ref])
  then have "never (creates_other (admissible E cluster))
      (reconcileMachineSetAllocation E recorder cluster (oc_Name cluster) s role spec claimed)" for recorder claimed
    by (rule atmost_mono [OF creates_allocated])
  moreover have "never (creates_other (admissible E cluster)) (EnsureMachineSet E (oc_Name cluster) s omniRole)"
    by (rule atmost_mono [OF ensureMachineSet_op.writes_type]) (auto simp: creates_other_omni)
  ultimately show ?thesis
    unfolding allocateMachineSet_def
    by (intro atmost_prod never_bind atmost_try atmost_sum never_cluster_setFailure atmost_ret) simp_all
qed

lemma creates_workers:
  assumes ref: "reference_only E"
  shows "set ws \<subseteq> set (ocs_Workers (oc_Spec cluster)) \<Longrightarrow>
    never (creates_other (admissible E cluster)) (allocateWorkerSets E R cluster before (oc_Name cluster) ws alloc)"
proof (induction ws arbitrary: alloc)
  case Nil
  show ?case by (simp add: atmost_ret)
next
  case (Cons w ws)
  have "asks_for E cluster (workerSetID (oc_Name cluster) w) roleWorker (wms_MachineSetSpec w)"
    using Cons.prems by (auto simp: asks_for_def workerSetID_def)
  note set = creates_set [OF ref this]
  show ?case
    unfolding allocateWorkerSets.simps
    using Cons by (intro never_bind set atmost_sum atmost_ret) simp
qed

lemma creates_Reconcile:
  assumes ref: "reference_only E"
  shows "never (creates_other (admissible E cluster)) (reconcileCluster E R cluster)"
proof -
  have cp: "never (creates_other (admissible E cluster))
      (allocateControlPlaneMachines E R cluster before (oc_Name cluster) alloc)" for before alloc
    unfolding allocateControlPlaneMachines_def by (rule creates_set [OF ref]) (simp add: asks_for_def)
  have workers: "never (creates_other (admissible E cluster))
      (allocateWorkerMachines E R cluster before (oc_Name cluster) alloc)" for before alloc
    unfolding allocateWorkerMachines_def by (rule creates_workers [OF ref order_refl])
  have converge: "never (creates_other (admissible E cluster)) (convergeCluster E R cluster)"
    unfolding convergeCluster_def Let_def
    by (intro never_bind atmost_try atmost_sum atmost_prod atmost_ret cp workers never_ensureCluster
        never_pruneOrphanedMachineSets never_cluster_setFailure never_settleCluster atmost_GetClusterStatus)
      (auto simp: creates_other_omni)
  show ?thesis
    unfolding reconcileCluster_def Let_def
    by (intro atmost_if converge effects) simp_all
qed

section \<open>The property\<close>

text \<open>C18: Every \<open>Machine\<close> a reconcile of an \<open>OmniCluster\<close> creates is well-formed: it belongs to the control
  plane or to a worker set of the spec, carries that set's patches and kernel arguments, is labelled
  with the cluster and the set its spec names, so that both controllers' lists find it, has no reboot
  requested and no status, and its role is one the machine controller knows, so that its reconcile
  never fails with \<open>InvalidRole\<close>. \<open>SetControllerReference\<close> is relied on to add an owner reference only.\<close>

theorem created_machines_are_admissible:
  assumes ref: "reference_only E"
    and get: "k8s_GetCluster E ns name (env w) = (Inr cluster, e)"
    and created: "CreateMachine m \<in> set (made (Reconcile E R ns name) w)"
  shows "admissible E cluster m \<and> \<not> rebootOwed (m_Spec m) (m_Status m) \<and>
    (\<exists>role. omniRoleLabel E (ms_Role (m_Spec m)) = Inr role) \<and>
    map_of (om_Labels (m_Meta m)) labelCluster = Some (ms_ClusterName (m_Spec m)) \<and>
    map_of (om_Labels (m_Meta m)) labelMachineSet = Some (ms_MachineSetID (m_Spec m))"
proof -
  have "made (Reconcile E R ns name) w = made (reconcileCluster E R cluster) (w\<lparr>env := e\<rparr>)"
    unfolding made_def Reconcile_def by (simp add: run_try_ext [where f = "k8s_GetCluster E ns name", OF get])
  with created have "\<not> creates_other (admissible E cluster) (CreateMachine m)"
    using never_made [OF creates_Reconcile [OF ref]] by metis
  then have m: "admissible E cluster m"
    by simp
  then obtain s role spec where s: "asks_for E cluster s role spec" "machine_of_set cluster s role spec m"
    unfolding admissible_def by blast
  then have "\<exists>r. omniRoleLabel E role = Inr r"
    by (auto simp: asks_for_def omniRoleLabel_def roleControlPlane_def roleWorker_def)
  with m s(2) show ?thesis
    by (auto simp: machine_of_set_def rebootOwed_def)
qed

definition bound_cluster_world :: "memory world" where
  "bound_cluster_world = world_of (empty_memory
     \<lparr>mem_clusters := [with_cluster_finalizers [finalizerName] sample_cluster],
      mem_resources := [\<lparr>r_ID = ''m7'', r_Labels = [(''cluster'', ''c1''), (''machine-set'', ''c1-control-planes'')],
        r_Spec = MachineSetNodeSpec\<rparr>]\<rparr>)"

lemma adoption_creates:
  "list_ex (\<lambda>c. case c of CreateMachine m \<Rightarrow> m_Name m = ''m7'' | _ \<Rightarrow> False)
     (made (Reconcile memory_ops \<lparr>rc_Recorder = False, rc_KubeconfigNamespace = ''kc'', rc_ArgoCDClusters = False\<rparr> ''ns'' ''c1'')
       bound_cluster_world)"
  by code_simp

lemma memory_reference_only: "reference_only memory_ops"
  by (simp add: reference_only_def memory_fields)

theorem created_machines_are_admissible_witness:
  "\<exists>m. m_Name m = ''m7'' \<and> admissible memory_ops (with_cluster_finalizers [finalizerName] sample_cluster) m"
proof -
  let ?R = "\<lparr>rc_Recorder = False, rc_KubeconfigNamespace = ''kc'', rc_ArgoCDClusters = False\<rparr>"
  obtain m where m: "CreateMachine m \<in> set (made (Reconcile memory_ops ?R ''ns'' ''c1'') bound_cluster_world)" "m_Name m = ''m7''"
    using adoption_creates unfolding list_ex_iff by (force split: call.splits)
  have get: "k8s_GetCluster memory_ops ''ns'' ''c1'' (env bound_cluster_world) =
      (Inr (with_cluster_finalizers [finalizerName] sample_cluster), env bound_cluster_world)"
    by (simp add: bound_cluster_world_def memory_fields found_def object_named_def with_cluster_finalizers_def
        sample_cluster_def empty_meta_def)
  from created_machines_are_admissible [OF memory_reference_only get m(1)] m(2) show ?thesis
    by blast
qed

end
