(* ===== verification/Go_Heap.thy ===== *)
theory Go_Heap
  imports Prelude
begin

text \<open>
  Go values that share storage. A heap is the list of the cells allocated so far, a pointer, slice or
  map is \<open>None\<close> (nil) or the number of its cell. The contract of a deep copy is a locale: what a value
  shows depends on the cells it reaches only, and a copy shows the same from cells of its own. Copies
  of plain values, pointers, slices and structs are built from smaller ones and keep the contract.
\<close>

section \<open>The contract\<close>

definition closed :: "'c list \<Rightarrow> nat set \<Rightarrow> bool" where
  "closed h R \<longleftrightarrow> R \<subseteq> {..<length h}"

definition agree :: "nat set \<Rightarrow> 'c list \<Rightarrow> 'c list \<Rightarrow> bool" where
  "agree R h h2 \<longleftrightarrow> (\<forall>r \<in> R. r < length h2 \<and> h2 ! r = h ! r)"

lemma closed_mono: "closed h R \<Longrightarrow> closed (h @ cs) R"
  by (auto simp: closed_def)

lemma closed_Un [simp]: "closed h (R \<union> S) \<longleftrightarrow> closed h R \<and> closed h S"
  by (simp add: closed_def)

lemma agree_Un [simp]: "agree (R \<union> S) h h2 \<longleftrightarrow> agree R h h2 \<and> agree S h h2"
  by (auto simp: agree_def)

lemma closed_insert [simp]: "closed h (insert r R) \<longleftrightarrow> r < length h \<and> closed h R"
  by (simp add: closed_def)

lemma agree_insert [simp]: "agree (insert r R) h h2 \<longleftrightarrow> r < length h2 \<and> h2 ! r = h ! r \<and> agree R h h2"
  by (simp add: agree_def)

lemma closed_empty [simp]: "closed h {}" and agree_empty [simp]: "agree {} h h2"
  by (simp_all add: closed_def agree_def)

lemma closed_UN [simp]: "closed h (\<Union>x \<in> A. R x) \<longleftrightarrow> (\<forall>x \<in> A. closed h (R x))"
  by (auto simp: closed_def)

lemma agree_UN [simp]: "agree (\<Union>x \<in> A. R x) h h2 \<longleftrightarrow> (\<forall>x \<in> A. agree (R x) h h2)"
  by (auto simp: agree_def)

lemma agree_append: "closed h R \<Longrightarrow> agree R h (h @ cs)"
  by (auto simp: closed_def agree_def nth_append)

definition fresh :: "'c list \<Rightarrow> 'c list \<Rightarrow> nat set \<Rightarrow> bool" where
  "fresh h cs R \<longleftrightarrow> R \<subseteq> {length h..<length h + length cs}"

lemma fresh_closed: "fresh h cs R \<Longrightarrow> closed (h @ cs) R"
  by (auto simp: fresh_def closed_def)

lemma fresh_split:
  "fresh h cs R \<Longrightarrow> fresh h (cs @ ds) R" "fresh (h @ cs) ds R \<Longrightarrow> fresh h (cs @ ds) R"
  by (auto simp: fresh_def)

lemma fresh_Un [simp]: "fresh h cs (R \<union> S) \<longleftrightarrow> fresh h cs R \<and> fresh h cs S"
  by (auto simp: fresh_def)

lemma fresh_empty [simp]: "fresh h cs {}"
  by (simp add: fresh_def)

locale deep_copy =
  fixes copy :: "'a \<Rightarrow> 'c list \<Rightarrow> 'a \<times> 'c list"
    and view :: "'c list \<Rightarrow> 'a \<Rightarrow> 'b"
    and refs :: "'c list \<Rightarrow> 'a \<Rightarrow> nat set"
  assumes frame: "closed h (refs h v) \<Longrightarrow> agree (refs h v) h h2 \<Longrightarrow> view h2 v = view h v \<and> refs h2 v = refs h v"
    and copied: "closed h (refs h v) \<Longrightarrow> \<exists>v' cs. copy v h = (v', h @ cs) \<and>
      view (h @ cs) v' = view h v \<and> fresh h cs (refs (h @ cs) v')"
begin

lemma copyE:
  assumes "closed h (refs h v)"
  obtains v' cs where "copy v h = (v', h @ cs)" and "view (h @ cs) v' = view h v"
    and "fresh h cs (refs (h @ cs) v')"
  using copied [OF assms] by blast

lemma frame_append:
  assumes "closed h (refs h v)"
  shows "view (h @ cs) v = view h v" and "refs (h @ cs) v = refs h v"
  using frame [OF assms agree_append [OF assms]] by simp_all

text \<open>A copy is a snapshot: whatever is written later to cells that existed before it, or allocated
  after it, it shows what the original showed when it was made; the copying itself changes nothing the
  original shows.\<close>

lemma snapshot:
  assumes "closed h (refs h v)" and "copy v h = (v', h')"
  shows "view h' v = view h v"
    and "agree {length h..<length h'} h' h2 \<Longrightarrow> view h2 v' = view h v"
proof -
  obtain cs where cs: "h' = h @ cs" "view h' v' = view h v" "fresh h cs (refs h' v')"
    using copyE [OF assms(1)] assms(2) by auto
  show "view h' v = view h v"
    unfolding cs(1) by (rule frame_append [OF assms(1)])
  assume "agree {length h..<length h'} h' h2"
  then have "agree (refs h' v') h' h2"
    using cs(1,3) by (auto simp: agree_def fresh_def)
  moreover have "closed h' (refs h' v')"
    unfolding cs(1) using cs(3) unfolding cs(1) by (rule fresh_closed)
  ultimately show "view h2 v' = view h v"
    using frame cs(2) by metis
qed

end

section \<open>Plain values and pairs\<close>

definition copy_plain :: "'a \<Rightarrow> 'c list \<Rightarrow> 'a \<times> 'c list" where
  "copy_plain x h = (x, h)"

interpretation plain: deep_copy copy_plain "\<lambda>h x. x" "\<lambda>h x. {}"
  by unfold_locales (simp_all add: copy_plain_def)

definition copy_pair where
  "copy_pair c d p h = (case c (fst p) h of (x, h1) \<Rightarrow> case d (snd p) h1 of (y, h2) \<Rightarrow> ((x, y), h2))"

definition view_pair where
  "view_pair v u h p = (v h (fst p), u h (snd p))"

definition refs_pair where
  "refs_pair r s h p = r h (fst p) \<union> s h (snd p)"

lemma deep_copy_pair:
  assumes c: "deep_copy c v r" and d: "deep_copy d u s"
  shows "deep_copy (copy_pair c d) (view_pair v u) (refs_pair r s)"
proof
  fix h h2 p
  assume "closed h (refs_pair r s h p)" and "agree (refs_pair r s h p) h h2"
  then show "view_pair v u h2 p = view_pair v u h p \<and> refs_pair r s h2 p = refs_pair r s h p"
    using deep_copy.frame [OF c, of h "fst p" h2] deep_copy.frame [OF d, of h "snd p" h2]
    by (simp add: view_pair_def refs_pair_def)
next
  fix h p
  assume "closed h (refs_pair r s h p)"
  then have closed: "closed h (r h (fst p))" "closed h (s h (snd p))"
    by (simp_all add: refs_pair_def)
  obtain x cs where x: "c (fst p) h = (x, h @ cs)" "v (h @ cs) x = v h (fst p)" "fresh h cs (r (h @ cs) x)"
    using deep_copy.copyE [OF c closed(1)] .
  have p: "u (h @ cs) (snd p) = u h (snd p)" "s (h @ cs) (snd p) = s h (snd p)"
    using deep_copy.frame_append [OF d closed(2)] by simp_all
  have "closed (h @ cs) (s (h @ cs) (snd p))"
    unfolding p(2) by (rule closed_mono [OF closed(2)])
  then obtain y ds where y: "d (snd p) (h @ cs) = (y, (h @ cs) @ ds)" "u ((h @ cs) @ ds) y = u (h @ cs) (snd p)"
      "fresh (h @ cs) ds (s ((h @ cs) @ ds) y)"
    by (rule deep_copy.copyE [OF d])
  have x2: "v ((h @ cs) @ ds) x = v (h @ cs) x" "r ((h @ cs) @ ds) x = r (h @ cs) x"
    using deep_copy.frame_append [OF c fresh_closed [OF x(3)]] by simp_all
  have "copy_pair c d p h = ((x, y), h @ (cs @ ds))"
    using x(1) y(1) by (simp add: copy_pair_def)
  moreover have "view_pair v u (h @ (cs @ ds)) (x, y) = view_pair v u h p"
    using x x2 y p by (simp add: view_pair_def)
  moreover have "fresh h (cs @ ds) (refs_pair r s (h @ (cs @ ds)) (x, y))"
    using fresh_split(1) [OF x(3)] fresh_split(2) [OF y(3)] x2 by (simp add: refs_pair_def)
  ultimately show "\<exists>q cs. copy_pair c d p h = (q, h @ cs) \<and>
      view_pair v u (h @ cs) q = view_pair v u h p \<and> fresh h cs (refs_pair r s (h @ cs) q)"
    by blast
qed

section \<open>Structs\<close>

text \<open>
  A struct's copy starts from \<open>*out = *in\<close> and replaces the fields that hold references: \<open>get\<close> reads
  those fields, \<open>put\<close> writes them, \<open>rest\<close> is what is left of the struct.
\<close>

lemma deep_copy_struct:
  assumes c: "deep_copy c v r"
    and copy: "\<And>x h. copy x h = (case c (get x) h of (y, h1) \<Rightarrow> (put y x, h1))"
    and get: "\<And>x y. get (put y x) = y" and rest: "\<And>x y. rest (put y x) = rest x"
    and view: "\<And>h x. view h x = shape (rest x) (v h (get x))"
    and refs: "\<And>h x. refs h x = r h (get x)"
  shows "deep_copy copy view refs"
proof
  fix h h2 x
  assume "closed h (refs h x)" and "agree (refs h x) h h2"
  then show "view h2 x = view h x \<and> refs h2 x = refs h x"
    using deep_copy.frame [OF c, of h "get x" h2] by (simp add: view refs)
next
  fix h x
  assume "closed h (refs h x)"
  then have "closed h (r h (get x))"
    by (simp add: refs)
  then obtain y cs where "c (get x) h = (y, h @ cs)" "v (h @ cs) y = v h (get x)" "fresh h cs (r (h @ cs) y)"
    by (rule deep_copy.copyE [OF c])
  then show "\<exists>x' cs. copy x h = (x', h @ cs) \<and> view (h @ cs) x' = view h x \<and> fresh h cs (refs (h @ cs) x')"
    by (intro exI [of _ "put y x"] exI [of _ cs]) (simp add: copy view refs get rest)
qed

section \<open>Elements of slices\<close>

fun copy_list :: "('a \<Rightarrow> 'c list \<Rightarrow> 'a \<times> 'c list) \<Rightarrow> 'a list \<Rightarrow> 'c list \<Rightarrow> 'a list \<times> 'c list" where
  "copy_list c [] h = ([], h)"
| "copy_list c (x # xs) h =
     (case c x h of (y, h1) \<Rightarrow> case copy_list c xs h1 of (ys, h2) \<Rightarrow> (y # ys, h2))"

definition view_list where
  "view_list v h xs = map (v h) xs"

definition refs_list where
  "refs_list r h xs = (\<Union>x \<in> set xs. r h x)"

lemma deep_copy_list:
  assumes c: "deep_copy c v r"
  shows "deep_copy (copy_list c) (view_list v) (refs_list r)"
proof
  fix h h2 xs
  assume "closed h (refs_list r h xs)" and "agree (refs_list r h xs) h h2"
  then have "v h2 x = v h x \<and> r h2 x = r h x" if "x \<in> set xs" for x
    using deep_copy.frame [OF c, of h x h2] that by (simp add: refs_list_def)
  then show "view_list v h2 xs = view_list v h xs \<and> refs_list r h2 xs = refs_list r h xs"
    by (simp add: view_list_def refs_list_def)
next
  fix h xs
  assume "closed h (refs_list r h xs)"
  then show "\<exists>ys cs. copy_list c xs h = (ys, h @ cs) \<and> view_list v (h @ cs) ys = view_list v h xs \<and>
      fresh h cs (refs_list r (h @ cs) ys)"
  proof (induction xs arbitrary: h)
    case Nil
    show ?case by (simp add: view_list_def refs_list_def)
  next
    case (Cons x xs)
    have closed: "closed h (r h x)" "\<forall>z \<in> set xs. closed h (r h z)"
      using Cons.prems by (auto simp: refs_list_def)
    obtain y cs where y: "c x h = (y, h @ cs)" "v (h @ cs) y = v h x" "fresh h cs (r (h @ cs) y)"
      using deep_copy.copyE [OF c closed(1)] .
    have same: "v (h @ cs) z = v h z" "r (h @ cs) z = r h z" if "z \<in> set xs" for z
      using deep_copy.frame_append [OF c] closed(2) that by blast+
    have "closed (h @ cs) (refs_list r (h @ cs) xs)"
      using closed(2) same(2) by (auto simp: refs_list_def intro: closed_mono)
    from Cons.IH [OF this] obtain ys ds where ys: "copy_list c xs (h @ cs) = (ys, (h @ cs) @ ds)"
        "view_list v ((h @ cs) @ ds) ys = view_list v (h @ cs) xs"
        "fresh (h @ cs) ds (refs_list r ((h @ cs) @ ds) ys)"
      by blast
    have y2: "v ((h @ cs) @ ds) y = v (h @ cs) y" "r ((h @ cs) @ ds) y = r (h @ cs) y"
      using deep_copy.frame_append [OF c fresh_closed [OF y(3)]] by simp_all
    have "copy_list c (x # xs) h = (y # ys, h @ (cs @ ds))"
      using y(1) ys(1) by simp
    moreover have "view_list v (h @ (cs @ ds)) (y # ys) = view_list v h (x # xs)"
      using y y2 ys(2) same(1) by (simp add: view_list_def)
    moreover have "fresh h (cs @ ds) (refs_list r (h @ (cs @ ds)) (y # ys))"
      using fresh_split(1) [OF y(3)] fresh_split(2) [OF ys(3)] y2 by (simp add: refs_list_def)
    ultimately show ?case
      by blast
  qed
qed

section \<open>Pointers and slices\<close>

text \<open>
  \<open>if in.F != nil\<close>: a cell of the kind \<open>mk\<close> builds and \<open>get\<close> reads is allocated for the copied content.
\<close>

definition copy_ref where
  "copy_ref get mk c p h =
     (case p of None \<Rightarrow> (None, h)
      | Some i \<Rightarrow> (case c (get (h ! i)) h of (x, h1) \<Rightarrow> (Some (length h1), h1 @ [mk x])))"

definition view_ref where
  "view_ref get v h p = map_option (\<lambda>i. v h (get (h ! i))) p"

definition refs_ref where
  "refs_ref get r h p = (case p of None \<Rightarrow> {} | Some i \<Rightarrow> insert i (if i < length h then r h (get (h ! i)) else {}))"

lemma deep_copy_ref:
  assumes c: "deep_copy c v r" and get: "\<And>x. get (mk x) = x"
  shows "deep_copy (copy_ref get mk c) (view_ref get v) (refs_ref get r)"
proof
  fix h h2 p
  assume "closed h (refs_ref get r h p)" and "agree (refs_ref get r h p) h h2"
  then show "view_ref get v h2 p = view_ref get v h p \<and> refs_ref get r h2 p = refs_ref get r h p"
    using deep_copy.frame [OF c, of h "get (h ! the p)" h2]
    by (cases p) (simp_all add: view_ref_def refs_ref_def split: if_splits)
next
  fix h p
  assume closed: "closed h (refs_ref get r h p)"
  show "\<exists>q cs. copy_ref get mk c p h = (q, h @ cs) \<and> view_ref get v (h @ cs) q = view_ref get v h p \<and>
      fresh h cs (refs_ref get r (h @ cs) q)"
  proof (cases p)
    case None
    then show ?thesis by (simp add: copy_ref_def view_ref_def refs_ref_def)
  next
    case (Some i)
    then have i: "i < length h" "closed h (r h (get (h ! i)))"
      using closed by (auto simp: refs_ref_def)
    obtain x cs where x: "c (get (h ! i)) h = (x, h @ cs)" "v (h @ cs) x = v h (get (h ! i))"
        "fresh h cs (r (h @ cs) x)"
      using deep_copy.copyE [OF c i(2)] .
    have x2: "v ((h @ cs) @ [mk x]) x = v (h @ cs) x" "r ((h @ cs) @ [mk x]) x = r (h @ cs) x"
      using deep_copy.frame_append [OF c fresh_closed [OF x(3)]] by simp_all
    let ?n = "length h + length cs"
    have at: "(h @ cs @ [mk x]) ! ?n = mk x"
      by (simp add: nth_append)
    have "copy_ref get mk c p h = (Some ?n, h @ (cs @ [mk x]))"
      using Some x(1) by (simp add: copy_ref_def)
    moreover have "view_ref get v (h @ (cs @ [mk x])) (Some ?n) = view_ref get v h p"
      using Some x x2 at get by (simp add: view_ref_def)
    moreover have "fresh h (cs @ [mk x]) (refs_ref get r (h @ (cs @ [mk x])) (Some ?n))"
      using fresh_split(1) [OF x(3), of "[mk x]"] x2 at get by (auto simp: refs_ref_def fresh_def)
    ultimately show ?thesis
      by blast
  qed
qed

end
