(* ===== verification/Deep_Copy.thy ===== *)
theory Deep_Copy
  imports Go_Heap Api
begin

text \<open>
  \<open>api/v1alpha1/zz_generated.deepcopy.go\<close>: the deep copies of the API types, on values that share
  storage (\<open>Go_Heap\<close>). The structs of the API are here as Go lays them out, with pointers, slices and
  maps as references; \<open>Api\<close> has what they show. The structs of the Kubernetes libraries (metadata,
  label selectors, raw JSON, times, conditions) stand for the storage they hold by one reference, and
  their copies are the parameter \<open>library\<close>. A new slice is filled before its cell is taken; the order
  in which cells are taken shows nowhere.
\<close>

section \<open>Values and cells\<close>

type_synonym ref = "nat option"

record config_patch_value =
  cpv_Name :: string
  cpv_Inline :: nat

record machine_set_value =
  msv_Replicas :: int
  msv_MachineSelector :: nat
  msv_MachineExtensions :: ref
  msv_KernelArgs :: ref
  msv_ConfigPatches :: ref

record worker_set_value =
  wsv_Name :: string
  wsv_MachineSetSpec :: machine_set_value

record cluster_spec_value =
  csv_KubernetesVersion :: string
  csv_TalosVersion :: string
  csv_ControlPlane :: machine_set_value
  csv_Workers :: ref

record cluster_status_value =
  ctv_ObservedGeneration :: int
  ctv_Phase :: string
  ctv_Ready :: bool
  ctv_AllocatedMachines :: ref
  ctv_FailureReason :: ref
  ctv_FailureMessage :: ref
  ctv_Conditions :: ref

record cluster_value =
  cv_TypeMeta :: "string \<times> string"
  cv_ObjectMeta :: nat
  cv_Spec :: cluster_spec_value
  cv_Status :: cluster_status_value

record machine_spec_value =
  mpv_ClusterName :: string
  mpv_MachineSetID :: string
  mpv_Role :: string
  mpv_ConfigPatches :: ref
  mpv_KernelArgs :: ref
  mpv_RebootRequestedAt :: ref
  mpv_ManagementAddress :: string

record machine_status_value =
  mtv_ObservedGeneration :: int
  mtv_Ready :: bool
  mtv_Phase :: string
  mtv_LastRebootTime :: ref
  mtv_FailureReason :: ref
  mtv_FailureMessage :: ref
  mtv_Conditions :: ref

record machine_value =
  mv_TypeMeta :: "string \<times> string"
  mv_ObjectMeta :: nat
  mv_Spec :: machine_spec_value
  mv_Status :: machine_status_value

record list_value =
  lv_TypeMeta :: "string \<times> string"
  lv_ListMeta :: nat
  lv_Items :: ref

datatype cell =
    StringCell string
  | StringsCell "string list"
  | PatchesCell "config_patch_value list"
  | WorkersCell "worker_set_value list"
  | ConditionsCell "condition list"
  | SlicesCell "(string \<times> ref) list"
  | MachinesCell "machine_value list"
  | ClustersCell "cluster_value list"
  | MetaCell object_meta
  | ListMetaCell string
  | SelectorCell label_selector
  | RawCell "string option"
  | TimeCell int

type_synonym heap = "cell list"

definition string_at :: "cell \<Rightarrow> string" where
  "string_at c = (case c of StringCell s \<Rightarrow> s | _ \<Rightarrow> [])"

definition strings_at :: "cell \<Rightarrow> string list" where
  "strings_at c = (case c of StringsCell s \<Rightarrow> s | _ \<Rightarrow> [])"

definition patches_at :: "cell \<Rightarrow> config_patch_value list" where
  "patches_at c = (case c of PatchesCell s \<Rightarrow> s | _ \<Rightarrow> [])"

definition workers_at :: "cell \<Rightarrow> worker_set_value list" where
  "workers_at c = (case c of WorkersCell s \<Rightarrow> s | _ \<Rightarrow> [])"

definition conditions_at :: "cell \<Rightarrow> condition list" where
  "conditions_at c = (case c of ConditionsCell s \<Rightarrow> s | _ \<Rightarrow> [])"

definition slices_at :: "cell \<Rightarrow> (string \<times> ref) list" where
  "slices_at c = (case c of SlicesCell s \<Rightarrow> s | _ \<Rightarrow> [])"

definition machines_at :: "cell \<Rightarrow> machine_value list" where
  "machines_at c = (case c of MachinesCell s \<Rightarrow> s | _ \<Rightarrow> [])"

definition clusters_at :: "cell \<Rightarrow> cluster_value list" where
  "clusters_at c = (case c of ClustersCell s \<Rightarrow> s | _ \<Rightarrow> [])"

lemma cells [simp]:
  "string_at (StringCell a) = a" "strings_at (StringsCell b) = b" "patches_at (PatchesCell c) = c"
  "workers_at (WorkersCell d) = d" "conditions_at (ConditionsCell e) = e" "slices_at (SlicesCell f) = f"
  "machines_at (MachinesCell g) = g" "clusters_at (ClustersCell i) = i"
  by (simp_all add: string_at_def strings_at_def patches_at_def workers_at_def conditions_at_def
      slices_at_def machines_at_def clusters_at_def)

section \<open>The copies of the libraries\<close>

record library =
  copy_ObjectMeta :: "nat \<Rightarrow> heap \<Rightarrow> nat \<times> heap"
  copy_ListMeta :: "nat \<Rightarrow> heap \<Rightarrow> nat \<times> heap"
  copy_LabelSelector :: "nat \<Rightarrow> heap \<Rightarrow> nat \<times> heap"
  copy_JSON :: "nat \<Rightarrow> heap \<Rightarrow> nat \<times> heap"
  copy_Time :: "nat \<Rightarrow> heap \<Rightarrow> nat \<times> heap"
  copy_Condition :: "condition \<Rightarrow> heap \<Rightarrow> condition \<times> heap"

definition copy_pointee :: "(nat \<Rightarrow> heap \<Rightarrow> nat \<times> heap) \<Rightarrow> ref \<Rightarrow> heap \<Rightarrow> ref \<times> heap" where
  "copy_pointee c p h = (case p of None \<Rightarrow> (None, h) | Some i \<Rightarrow> (case c i h of (j, h1) \<Rightarrow> (Some j, h1)))"

definition copy_strings :: "ref \<Rightarrow> heap \<Rightarrow> ref \<times> heap" where
  "copy_strings = copy_ref strings_at StringsCell copy_plain"

definition copy_string :: "ref \<Rightarrow> heap \<Rightarrow> ref \<times> heap" where
  "copy_string = copy_ref string_at StringCell copy_plain"

definition copy_conditions :: "library \<Rightarrow> ref \<Rightarrow> heap \<Rightarrow> ref \<times> heap" where
  "copy_conditions L = copy_ref conditions_at ConditionsCell (copy_list (copy_Condition L))"

section \<open>DeepCopyInto\<close>

definition ConfigPatch_DeepCopyInto :: "library \<Rightarrow> config_patch_value \<Rightarrow> heap \<Rightarrow> config_patch_value \<times> heap" where
  "ConfigPatch_DeepCopyInto L x h =
     (let (inline, h1) = copy_JSON L (cpv_Inline x) h in (x\<lparr>cpv_Inline := inline\<rparr>, h1))"

definition copy_patches :: "library \<Rightarrow> ref \<Rightarrow> heap \<Rightarrow> ref \<times> heap" where
  "copy_patches L = copy_ref patches_at PatchesCell (copy_list (ConfigPatch_DeepCopyInto L))"

definition MachineSetSpec_DeepCopyInto :: "library \<Rightarrow> machine_set_value \<Rightarrow> heap \<Rightarrow> machine_set_value \<times> heap" where
  "MachineSetSpec_DeepCopyInto L x h =
     (let (selector, h1) = copy_LabelSelector L (msv_MachineSelector x) h;
          (extensions, h2) = copy_strings (msv_MachineExtensions x) h1;
          (args, h3) = copy_strings (msv_KernelArgs x) h2;
          (patches, h4) = copy_patches L (msv_ConfigPatches x) h3
      in (x\<lparr>msv_MachineSelector := selector, msv_MachineExtensions := extensions, msv_KernelArgs := args,
            msv_ConfigPatches := patches\<rparr>, h4))"

definition WorkerMachineSetSpec_DeepCopyInto :: "library \<Rightarrow> worker_set_value \<Rightarrow> heap \<Rightarrow> worker_set_value \<times> heap" where
  "WorkerMachineSetSpec_DeepCopyInto L x h =
     (let (spec, h1) = MachineSetSpec_DeepCopyInto L (wsv_MachineSetSpec x) h
      in (x\<lparr>wsv_MachineSetSpec := spec\<rparr>, h1))"

definition OmniClusterSpec_DeepCopyInto :: "library \<Rightarrow> cluster_spec_value \<Rightarrow> heap \<Rightarrow> cluster_spec_value \<times> heap" where
  "OmniClusterSpec_DeepCopyInto L x h =
     (let (controlPlane, h1) = MachineSetSpec_DeepCopyInto L (csv_ControlPlane x) h;
          (workers, h2) = copy_ref workers_at WorkersCell
             (copy_list (WorkerMachineSetSpec_DeepCopyInto L)) (csv_Workers x) h1
      in (x\<lparr>csv_ControlPlane := controlPlane, csv_Workers := workers\<rparr>, h2))"

text \<open>An entry of \<open>AllocatedMachines\<close>: a nil slice stays nil, another is copied.\<close>

definition copy_entry :: "string \<times> ref \<Rightarrow> heap \<Rightarrow> (string \<times> ref) \<times> heap" where
  "copy_entry x h = (let (val, h1) = copy_strings (snd x) h in ((fst x, val), h1))"

definition OmniClusterStatus_DeepCopyInto ::
  "library \<Rightarrow> cluster_status_value \<Rightarrow> heap \<Rightarrow> cluster_status_value \<times> heap" where
  "OmniClusterStatus_DeepCopyInto L x h =
     (let (allocated, h1) = copy_ref slices_at SlicesCell (copy_list copy_entry) (ctv_AllocatedMachines x) h;
          (reason, h2) = copy_string (ctv_FailureReason x) h1;
          (message, h3) = copy_string (ctv_FailureMessage x) h2;
          (conditions, h4) = copy_conditions L (ctv_Conditions x) h3
      in (x\<lparr>ctv_AllocatedMachines := allocated, ctv_FailureReason := reason, ctv_FailureMessage := message,
            ctv_Conditions := conditions\<rparr>, h4))"

definition OmniCluster_DeepCopyInto :: "library \<Rightarrow> cluster_value \<Rightarrow> heap \<Rightarrow> cluster_value \<times> heap" where
  "OmniCluster_DeepCopyInto L x h =
     (let (meta, h1) = copy_ObjectMeta L (cv_ObjectMeta x) h;
          (spec, h2) = OmniClusterSpec_DeepCopyInto L (cv_Spec x) h1;
          (status, h3) = OmniClusterStatus_DeepCopyInto L (cv_Status x) h2
      in (x\<lparr>cv_TypeMeta := cv_TypeMeta x, cv_ObjectMeta := meta, cv_Spec := spec, cv_Status := status\<rparr>, h3))"

definition MachineSpec_DeepCopyInto :: "library \<Rightarrow> machine_spec_value \<Rightarrow> heap \<Rightarrow> machine_spec_value \<times> heap" where
  "MachineSpec_DeepCopyInto L x h =
     (let (patches, h1) = copy_patches L (mpv_ConfigPatches x) h;
          (args, h2) = copy_strings (mpv_KernelArgs x) h1;
          (requested, h3) = copy_pointee (copy_Time L) (mpv_RebootRequestedAt x) h2
      in (x\<lparr>mpv_ConfigPatches := patches, mpv_KernelArgs := args, mpv_RebootRequestedAt := requested\<rparr>, h3))"

definition MachineStatus_DeepCopyInto :: "library \<Rightarrow> machine_status_value \<Rightarrow> heap \<Rightarrow> machine_status_value \<times> heap" where
  "MachineStatus_DeepCopyInto L x h =
     (let (rebooted, h1) = copy_pointee (copy_Time L) (mtv_LastRebootTime x) h;
          (reason, h2) = copy_string (mtv_FailureReason x) h1;
          (message, h3) = copy_string (mtv_FailureMessage x) h2;
          (conditions, h4) = copy_conditions L (mtv_Conditions x) h3
      in (x\<lparr>mtv_LastRebootTime := rebooted, mtv_FailureReason := reason, mtv_FailureMessage := message,
            mtv_Conditions := conditions\<rparr>, h4))"

definition Machine_DeepCopyInto :: "library \<Rightarrow> machine_value \<Rightarrow> heap \<Rightarrow> machine_value \<times> heap" where
  "Machine_DeepCopyInto L x h =
     (let (meta, h1) = copy_ObjectMeta L (mv_ObjectMeta x) h;
          (spec, h2) = MachineSpec_DeepCopyInto L (mv_Spec x) h1;
          (status, h3) = MachineStatus_DeepCopyInto L (mv_Status x) h2
      in (x\<lparr>mv_TypeMeta := mv_TypeMeta x, mv_ObjectMeta := meta, mv_Spec := spec, mv_Status := status\<rparr>, h3))"

definition MachineList_DeepCopyInto :: "library \<Rightarrow> list_value \<Rightarrow> heap \<Rightarrow> list_value \<times> heap" where
  "MachineList_DeepCopyInto L x h =
     (let (meta, h1) = copy_ListMeta L (lv_ListMeta x) h;
          (items, h2) = copy_ref machines_at MachinesCell (copy_list (Machine_DeepCopyInto L)) (lv_Items x) h1
      in (x\<lparr>lv_TypeMeta := lv_TypeMeta x, lv_ListMeta := meta, lv_Items := items\<rparr>, h2))"

definition OmniClusterList_DeepCopyInto :: "library \<Rightarrow> list_value \<Rightarrow> heap \<Rightarrow> list_value \<times> heap" where
  "OmniClusterList_DeepCopyInto L x h =
     (let (meta, h1) = copy_ListMeta L (lv_ListMeta x) h;
          (items, h2) = copy_ref clusters_at ClustersCell (copy_list (OmniCluster_DeepCopyInto L)) (lv_Items x) h1
      in (x\<lparr>lv_TypeMeta := lv_TypeMeta x, lv_ListMeta := meta, lv_Items := items\<rparr>, h2))"

section \<open>DeepCopy and DeepCopyObject\<close>

text \<open>A pointer to a struct is \<open>None\<close> (nil) or the struct; \<open>new\<close> gives the copy a place of its own.\<close>

definition copy_new :: "('a \<Rightarrow> heap \<Rightarrow> 'a \<times> heap) \<Rightarrow> 'a option \<Rightarrow> heap \<Rightarrow> 'a option \<times> heap" where
  "copy_new into p h =
     (case p of None \<Rightarrow> (None, h) | Some x \<Rightarrow> (case into x h of (out, h1) \<Rightarrow> (Some out, h1)))"

definition ConfigPatch_DeepCopy where "ConfigPatch_DeepCopy L = copy_new (ConfigPatch_DeepCopyInto L)"
definition MachineSetSpec_DeepCopy where "MachineSetSpec_DeepCopy L = copy_new (MachineSetSpec_DeepCopyInto L)"
definition WorkerMachineSetSpec_DeepCopy where
  "WorkerMachineSetSpec_DeepCopy L = copy_new (WorkerMachineSetSpec_DeepCopyInto L)"
definition OmniClusterSpec_DeepCopy where "OmniClusterSpec_DeepCopy L = copy_new (OmniClusterSpec_DeepCopyInto L)"
definition OmniClusterStatus_DeepCopy where
  "OmniClusterStatus_DeepCopy L = copy_new (OmniClusterStatus_DeepCopyInto L)"
definition OmniCluster_DeepCopy where "OmniCluster_DeepCopy L = copy_new (OmniCluster_DeepCopyInto L)"
definition MachineSpec_DeepCopy where "MachineSpec_DeepCopy L = copy_new (MachineSpec_DeepCopyInto L)"
definition MachineStatus_DeepCopy where "MachineStatus_DeepCopy L = copy_new (MachineStatus_DeepCopyInto L)"
definition Machine_DeepCopy where "Machine_DeepCopy L = copy_new (Machine_DeepCopyInto L)"
definition MachineList_DeepCopy where "MachineList_DeepCopy L = copy_new (MachineList_DeepCopyInto L)"
definition OmniClusterList_DeepCopy where "OmniClusterList_DeepCopy L = copy_new (OmniClusterList_DeepCopyInto L)"

text \<open>\<open>runtime.Object\<close>: the interface value is nil when the pointer is.\<close>

datatype runtime_object =
    MachineObject machine_value
  | MachineListObject list_value
  | OmniClusterObject cluster_value
  | OmniClusterListObject list_value

definition as_object :: "('a \<Rightarrow> runtime_object) \<Rightarrow> 'a option \<times> heap \<Rightarrow> runtime_object option \<times> heap" where
  "as_object obj c = (case c of (None, h) \<Rightarrow> (None, h) | (Some x, h) \<Rightarrow> (Some (obj x), h))"

definition Machine_DeepCopyObject where
  "Machine_DeepCopyObject L p h = as_object MachineObject (Machine_DeepCopy L p h)"
definition MachineList_DeepCopyObject where
  "MachineList_DeepCopyObject L p h = as_object MachineListObject (MachineList_DeepCopy L p h)"
definition OmniCluster_DeepCopyObject where
  "OmniCluster_DeepCopyObject L p h = as_object OmniClusterObject (OmniCluster_DeepCopy L p h)"
definition OmniClusterList_DeepCopyObject where
  "OmniClusterList_DeepCopyObject L p h = as_object OmniClusterListObject (OmniClusterList_DeepCopy L p h)"

text \<open>The method of the interface, on an object that is not nil.\<close>

primrec DeepCopyObject :: "library \<Rightarrow> runtime_object \<Rightarrow> heap \<Rightarrow> runtime_object option \<times> heap" where
  "DeepCopyObject L (MachineObject x) h = Machine_DeepCopyObject L (Some x) h"
| "DeepCopyObject L (MachineListObject x) h = MachineList_DeepCopyObject L (Some x) h"
| "DeepCopyObject L (OmniClusterObject x) h = OmniCluster_DeepCopyObject L (Some x) h"
| "DeepCopyObject L (OmniClusterListObject x) h = OmniClusterList_DeepCopyObject L (Some x) h"

end
