(* ===== verification/Deep_Copy_Properties.thy ===== *)
theory Deep_Copy_Properties
  imports Deep_Copy
begin

text \<open>
  The generated copies keep the contract of \<open>Go_Heap\<close>, given that the copies of the libraries do: a
  copy shows the object of \<open>Api\<close> its original shows, nil for nil, from storage of its own.
\<close>

section \<open>What a value shows\<close>

definition meta_at :: "cell \<Rightarrow> object_meta" where
  "meta_at c = (case c of MetaCell m \<Rightarrow> m | _ \<Rightarrow> empty_meta '''' '''')"

definition list_meta_at :: "cell \<Rightarrow> string" where
  "list_meta_at c = (case c of ListMetaCell m \<Rightarrow> m | _ \<Rightarrow> '''')"

definition selector_at :: "cell \<Rightarrow> label_selector" where
  "selector_at c = (case c of SelectorCell s \<Rightarrow> s | _ \<Rightarrow> \<lparr>ls_MatchLabels = [], ls_MatchExpressions = []\<rparr>)"

definition raw_at :: "cell \<Rightarrow> string option" where
  "raw_at c = (case c of RawCell s \<Rightarrow> s | _ \<Rightarrow> None)"

definition time_at :: "cell \<Rightarrow> int" where
  "time_at c = (case c of TimeCell t \<Rightarrow> t | _ \<Rightarrow> 0)"

lemma library_cells [simp]:
  "meta_at (MetaCell a) = a" "list_meta_at (ListMetaCell b) = b" "selector_at (SelectorCell c) = c"
  "raw_at (RawCell d) = d" "time_at (TimeCell e) = e"
  by (simp_all add: meta_at_def list_meta_at_def selector_at_def raw_at_def time_at_def)

text \<open>A library struct shows the content of its cell.\<close>

abbreviation shown_at :: "(cell \<Rightarrow> 'b) \<Rightarrow> heap \<Rightarrow> nat \<Rightarrow> 'b" where
  "shown_at get \<equiv> (\<lambda>h i. get (h ! i))"

abbreviation refs_at :: "heap \<Rightarrow> nat \<Rightarrow> nat set" where
  "refs_at \<equiv> (\<lambda>h i. {i})"

definition library_copies :: "library \<Rightarrow> bool" where
  "library_copies L \<longleftrightarrow>
     deep_copy (copy_ObjectMeta L) (shown_at meta_at) refs_at \<and>
     deep_copy (copy_ListMeta L) (shown_at list_meta_at) refs_at \<and>
     deep_copy (copy_LabelSelector L) (shown_at selector_at) refs_at \<and>
     deep_copy (copy_JSON L) (shown_at raw_at) refs_at \<and>
     deep_copy (copy_Time L) (shown_at time_at) refs_at \<and>
     deep_copy (copy_Condition L) (\<lambda>h x. x) (\<lambda>h x. {})"

definition listed :: "'a list option \<Rightarrow> 'a list" where
  "listed p = (case p of None \<Rightarrow> [] | Some xs \<Rightarrow> xs)"

abbreviation strings_shown :: "heap \<Rightarrow> ref \<Rightarrow> string list option" where
  "strings_shown \<equiv> view_ref strings_at (\<lambda>h x. x)"
abbreviation strings_refs :: "heap \<Rightarrow> ref \<Rightarrow> nat set" where
  "strings_refs \<equiv> refs_ref strings_at (\<lambda>h x. {})"
abbreviation string_shown :: "heap \<Rightarrow> ref \<Rightarrow> string option" where
  "string_shown \<equiv> view_ref string_at (\<lambda>h x. x)"
abbreviation string_refs :: "heap \<Rightarrow> ref \<Rightarrow> nat set" where
  "string_refs \<equiv> refs_ref string_at (\<lambda>h x. {})"
abbreviation conditions_shown :: "heap \<Rightarrow> ref \<Rightarrow> condition list option" where
  "conditions_shown \<equiv> view_ref conditions_at (view_list (\<lambda>h x. x))"
abbreviation conditions_refs :: "heap \<Rightarrow> ref \<Rightarrow> nat set" where
  "conditions_refs \<equiv> refs_ref conditions_at (refs_list (\<lambda>h x. {}))"

interpretation strings: deep_copy copy_strings strings_shown strings_refs
  unfolding copy_strings_def by (rule deep_copy_ref [OF plain.deep_copy_axioms]) simp

interpretation string: deep_copy copy_string string_shown string_refs
  unfolding copy_string_def by (rule deep_copy_ref [OF plain.deep_copy_axioms]) simp

definition view_pointee where
  "view_pointee v h p = map_option (v h) p"

definition refs_pointee where
  "refs_pointee r h p = (case p of None \<Rightarrow> {} | Some i \<Rightarrow> r h i)"

abbreviation time_shown :: "heap \<Rightarrow> ref \<Rightarrow> int option" where
  "time_shown \<equiv> view_pointee (shown_at time_at)"
abbreviation time_refs :: "heap \<Rightarrow> ref \<Rightarrow> nat set" where
  "time_refs \<equiv> refs_pointee refs_at"

lemma deep_copy_pointee:
  assumes c: "deep_copy c v r"
  shows "deep_copy (copy_pointee c) (view_pointee v) (refs_pointee r)"
proof
  fix h h2 p
  assume "closed h (refs_pointee r h p)" and "agree (refs_pointee r h p) h h2"
  then show "view_pointee v h2 p = view_pointee v h p \<and> refs_pointee r h2 p = refs_pointee r h p"
    using deep_copy.frame [OF c, of h "the p" h2] by (cases p) (simp_all add: view_pointee_def refs_pointee_def)
next
  fix h p
  assume closed: "closed h (refs_pointee r h p)"
  show "\<exists>q cs. copy_pointee c p h = (q, h @ cs) \<and> view_pointee v (h @ cs) q = view_pointee v h p \<and>
      fresh h cs (refs_pointee r (h @ cs) q)"
  proof (cases p)
    case None
    then show ?thesis by (simp add: copy_pointee_def view_pointee_def refs_pointee_def)
  next
    case (Some i)
    then have "closed h (r h i)"
      using closed by (simp add: refs_pointee_def)
    then obtain j cs where "c i h = (j, h @ cs)" "v (h @ cs) j = v h i" "fresh h cs (r (h @ cs) j)"
      by (rule deep_copy.copyE [OF c])
    with Some show ?thesis
      by (intro exI [of _ "Some j"] exI [of _ cs]) (simp add: copy_pointee_def view_pointee_def refs_pointee_def)
  qed
qed

subsection \<open>Machines\<close>

definition patch_shown :: "heap \<Rightarrow> config_patch_value \<Rightarrow> config_patch" where
  "patch_shown h x = \<lparr>cp_Name = cpv_Name x, cp_Inline = raw_at (h ! cpv_Inline x)\<rparr>"

definition patch_refs :: "heap \<Rightarrow> config_patch_value \<Rightarrow> nat set" where
  "patch_refs h x = {cpv_Inline x}"

abbreviation patches_shown :: "heap \<Rightarrow> ref \<Rightarrow> config_patch list option" where
  "patches_shown \<equiv> view_ref patches_at (view_list patch_shown)"
abbreviation patches_refs :: "heap \<Rightarrow> ref \<Rightarrow> nat set" where
  "patches_refs \<equiv> refs_ref patches_at (refs_list patch_refs)"

text \<open>A struct shows the record of \<open>Api\<close> and which of its slices and maps are nil.\<close>

definition machine_spec_shown :: "heap \<Rightarrow> machine_spec_value \<Rightarrow> machine_spec \<times> bool list" where
  "machine_spec_shown h x =
     (let patches = patches_shown h (mpv_ConfigPatches x); args = strings_shown h (mpv_KernelArgs x)
      in (\<lparr>ms_ClusterName = mpv_ClusterName x, ms_MachineSetID = mpv_MachineSetID x, ms_Role = mpv_Role x,
           ms_ConfigPatches = listed patches, ms_KernelArgs = listed args,
           ms_RebootRequestedAt = time_shown h (mpv_RebootRequestedAt x),
           ms_ManagementAddress = mpv_ManagementAddress x\<rparr>, [patches = None, args = None]))"

definition machine_spec_refs :: "heap \<Rightarrow> machine_spec_value \<Rightarrow> nat set" where
  "machine_spec_refs h x = patches_refs h (mpv_ConfigPatches x) \<union>
     (strings_refs h (mpv_KernelArgs x) \<union> time_refs h (mpv_RebootRequestedAt x))"

definition machine_status_shown :: "heap \<Rightarrow> machine_status_value \<Rightarrow> machine_status \<times> bool list" where
  "machine_status_shown h x =
     (let conditions = conditions_shown h (mtv_Conditions x)
      in (\<lparr>mst_ObservedGeneration = mtv_ObservedGeneration x, mst_Ready = mtv_Ready x, mst_Phase = mtv_Phase x,
           mst_LastRebootTime = time_shown h (mtv_LastRebootTime x),
           mst_FailureReason = string_shown h (mtv_FailureReason x),
           mst_FailureMessage = string_shown h (mtv_FailureMessage x),
           mst_Conditions = listed conditions\<rparr>, [conditions = None]))"

definition machine_status_refs :: "heap \<Rightarrow> machine_status_value \<Rightarrow> nat set" where
  "machine_status_refs h x = time_refs h (mtv_LastRebootTime x) \<union> (string_refs h (mtv_FailureReason x) \<union>
     (string_refs h (mtv_FailureMessage x) \<union> conditions_refs h (mtv_Conditions x)))"

definition machine_shown :: "heap \<Rightarrow> machine_value \<Rightarrow> (string \<times> string) \<times> machine \<times> bool list" where
  "machine_shown h x =
     (let (spec, nils) = machine_spec_shown h (mv_Spec x); (status, nils') = machine_status_shown h (mv_Status x)
      in (mv_TypeMeta x, \<lparr>m_Meta = meta_at (h ! mv_ObjectMeta x), m_Spec = spec, m_Status = status\<rparr>, nils @ nils'))"

definition machine_refs :: "heap \<Rightarrow> machine_value \<Rightarrow> nat set" where
  "machine_refs h x = {mv_ObjectMeta x} \<union> (machine_spec_refs h (mv_Spec x) \<union> machine_status_refs h (mv_Status x))"

lemma copy_ConfigPatch:
  assumes "library_copies L"
  shows "deep_copy (ConfigPatch_DeepCopyInto L) patch_shown patch_refs"
  by (rule deep_copy_struct [where get = cpv_Inline and put = "\<lambda>y x. x\<lparr>cpv_Inline := y\<rparr>" and rest = cpv_Name
        and shape = "\<lambda>n i. \<lparr>cp_Name = n, cp_Inline = i\<rparr>" and c = "copy_JSON L" and v = "shown_at raw_at" and r = refs_at])
    (use assms in \<open>simp_all add: library_copies_def ConfigPatch_DeepCopyInto_def patch_shown_def patch_refs_def\<close>)

lemma copy_patches_copies:
  "library_copies L \<Longrightarrow> deep_copy (copy_patches L) patches_shown patches_refs"
  unfolding copy_patches_def by (rule deep_copy_ref [OF deep_copy_list [OF copy_ConfigPatch]]) simp_all

lemma copy_conditions_copies:
  "library_copies L \<Longrightarrow> deep_copy (copy_conditions L) conditions_shown conditions_refs"
  unfolding copy_conditions_def library_copies_def by (rule deep_copy_ref [OF deep_copy_list]) simp_all

lemma copy_Time_copies: "library_copies L \<Longrightarrow> deep_copy (copy_pointee (copy_Time L)) time_shown time_refs"
  unfolding library_copies_def by (rule deep_copy_pointee) simp

lemma copy_MachineSpec:
  assumes L: "library_copies L"
  shows "deep_copy (MachineSpec_DeepCopyInto L) machine_spec_shown machine_spec_refs"
proof -
  note fields = deep_copy_pair [OF copy_patches_copies [OF L] deep_copy_pair [OF strings.deep_copy_axioms copy_Time_copies [OF L]]]
  show ?thesis
    by (rule deep_copy_struct [OF fields,
          where get = "\<lambda>x. (mpv_ConfigPatches x, mpv_KernelArgs x, mpv_RebootRequestedAt x)"
          and put = "\<lambda>(a, b, c) x. x\<lparr>mpv_ConfigPatches := a, mpv_KernelArgs := b, mpv_RebootRequestedAt := c\<rparr>"
          and rest = "\<lambda>x. (mpv_ClusterName x, mpv_MachineSetID x, mpv_Role x, mpv_ManagementAddress x)"
          and shape = "\<lambda>(cn, s, r, a) (ps, args, t).
            (\<lparr>ms_ClusterName = cn, ms_MachineSetID = s, ms_Role = r, ms_ConfigPatches = listed ps,
              ms_KernelArgs = listed args, ms_RebootRequestedAt = t, ms_ManagementAddress = a\<rparr>, [ps = None, args = None])"])
      (simp_all add: MachineSpec_DeepCopyInto_def copy_pair_def machine_spec_shown_def machine_spec_refs_def
        view_pair_def refs_pair_def Let_def split: prod.splits)
qed

lemma copy_MachineStatus:
  assumes L: "library_copies L"
  shows "deep_copy (MachineStatus_DeepCopyInto L) machine_status_shown machine_status_refs"
proof -
  note fields = deep_copy_pair [OF copy_Time_copies [OF L] deep_copy_pair [OF string.deep_copy_axioms
    deep_copy_pair [OF string.deep_copy_axioms copy_conditions_copies [OF L]]]]
  show ?thesis
    by (rule deep_copy_struct [OF fields,
          where get = "\<lambda>x. (mtv_LastRebootTime x, mtv_FailureReason x, mtv_FailureMessage x, mtv_Conditions x)"
          and put = "\<lambda>(a, b, c, d) x. x\<lparr>mtv_LastRebootTime := a, mtv_FailureReason := b, mtv_FailureMessage := c,
            mtv_Conditions := d\<rparr>"
          and rest = "\<lambda>x. (mtv_ObservedGeneration x, mtv_Ready x, mtv_Phase x)"
          and shape = "\<lambda>(g, r, p) (t, fr, fm, cs).
            (\<lparr>mst_ObservedGeneration = g, mst_Ready = r, mst_Phase = p, mst_LastRebootTime = t,
              mst_FailureReason = fr, mst_FailureMessage = fm, mst_Conditions = listed cs\<rparr>, [cs = None])"])
      (simp_all add: MachineStatus_DeepCopyInto_def copy_pair_def machine_status_shown_def machine_status_refs_def
        view_pair_def refs_pair_def Let_def split: prod.splits)
qed

lemma copy_Machine:
  assumes L: "library_copies L"
  shows "deep_copy (Machine_DeepCopyInto L) machine_shown machine_refs"
proof -
  have meta: "deep_copy (copy_ObjectMeta L) (shown_at meta_at) refs_at"
    using L by (simp add: library_copies_def)
  note fields = deep_copy_pair [OF meta deep_copy_pair [OF copy_MachineSpec [OF L] copy_MachineStatus [OF L]]]
  show ?thesis
    by (rule deep_copy_struct [OF fields,
          where get = "\<lambda>x. (mv_ObjectMeta x, mv_Spec x, mv_Status x)"
          and put = "\<lambda>(a, b, c) x. x\<lparr>mv_ObjectMeta := a, mv_Spec := b, mv_Status := c\<rparr>"
          and rest = mv_TypeMeta
          and shape = "\<lambda>tm (meta, (spec, nils), (status, nils')).
            (tm, \<lparr>m_Meta = meta, m_Spec = spec, m_Status = status\<rparr>, nils @ nils')"])
      (simp_all add: Machine_DeepCopyInto_def copy_pair_def machine_shown_def machine_refs_def
        view_pair_def refs_pair_def Let_def split: prod.splits)
qed

subsection \<open>Clusters\<close>

definition machine_set_shown :: "heap \<Rightarrow> machine_set_value \<Rightarrow> machine_set_spec \<times> bool list" where
  "machine_set_shown h x =
     (let extensions = strings_shown h (msv_MachineExtensions x); args = strings_shown h (msv_KernelArgs x);
          patches = patches_shown h (msv_ConfigPatches x)
      in (\<lparr>mss_Replicas = msv_Replicas x, mss_MachineSelector = selector_at (h ! msv_MachineSelector x),
           mss_MachineExtensions = listed extensions, mss_KernelArgs = listed args, mss_ConfigPatches = listed patches\<rparr>,
          [extensions = None, args = None, patches = None]))"

definition machine_set_refs :: "heap \<Rightarrow> machine_set_value \<Rightarrow> nat set" where
  "machine_set_refs h x = {msv_MachineSelector x} \<union> (strings_refs h (msv_MachineExtensions x) \<union>
     (strings_refs h (msv_KernelArgs x) \<union> patches_refs h (msv_ConfigPatches x)))"

definition worker_set_shown :: "heap \<Rightarrow> worker_set_value \<Rightarrow> worker_machine_set_spec \<times> bool list" where
  "worker_set_shown h x =
     (let (spec, nils) = machine_set_shown h (wsv_MachineSetSpec x)
      in (\<lparr>wms_Name = wsv_Name x, wms_MachineSetSpec = spec\<rparr>, nils))"

definition worker_set_refs :: "heap \<Rightarrow> worker_set_value \<Rightarrow> nat set" where
  "worker_set_refs h x = machine_set_refs h (wsv_MachineSetSpec x)"

definition cluster_spec_shown :: "heap \<Rightarrow> cluster_spec_value \<Rightarrow> omni_cluster_spec \<times> bool list list" where
  "cluster_spec_shown h x =
     (let (controlPlane, nils) = machine_set_shown h (csv_ControlPlane x);
          workers = view_ref workers_at (view_list worker_set_shown) h (csv_Workers x)
      in (\<lparr>ocs_KubernetesVersion = csv_KubernetesVersion x, ocs_TalosVersion = csv_TalosVersion x,
           ocs_ControlPlane = controlPlane, ocs_Workers = map fst (listed workers)\<rparr>,
          nils # [workers = None] # map snd (listed workers)))"

definition cluster_spec_refs :: "heap \<Rightarrow> cluster_spec_value \<Rightarrow> nat set" where
  "cluster_spec_refs h x = machine_set_refs h (csv_ControlPlane x) \<union>
     refs_ref workers_at (refs_list worker_set_refs) h (csv_Workers x)"

definition entry_shown :: "heap \<Rightarrow> string \<times> ref \<Rightarrow> string \<times> string list option" where
  "entry_shown h x = (fst x, strings_shown h (snd x))"

definition entry_refs :: "heap \<Rightarrow> string \<times> ref \<Rightarrow> nat set" where
  "entry_refs h x = strings_refs h (snd x)"

definition cluster_status_shown :: "heap \<Rightarrow> cluster_status_value \<Rightarrow> omni_cluster_status \<times> bool list" where
  "cluster_status_shown h x =
     (let allocated = view_ref slices_at (view_list entry_shown) h (ctv_AllocatedMachines x);
          conditions = conditions_shown h (ctv_Conditions x)
      in (\<lparr>ost_ObservedGeneration = ctv_ObservedGeneration x, ost_Phase = ctv_Phase x, ost_Ready = ctv_Ready x,
           ost_AllocatedMachines = map (\<lambda>(k, v). (k, listed v)) (listed allocated),
           ost_FailureReason = string_shown h (ctv_FailureReason x),
           ost_FailureMessage = string_shown h (ctv_FailureMessage x), ost_Conditions = listed conditions\<rparr>,
          (allocated = None) # (conditions = None) # map (\<lambda>(k, v). v = None) (listed allocated)))"

definition cluster_status_refs :: "heap \<Rightarrow> cluster_status_value \<Rightarrow> nat set" where
  "cluster_status_refs h x = refs_ref slices_at (refs_list entry_refs) h (ctv_AllocatedMachines x) \<union>
     (string_refs h (ctv_FailureReason x) \<union> (string_refs h (ctv_FailureMessage x) \<union> conditions_refs h (ctv_Conditions x)))"

definition cluster_shown :: "heap \<Rightarrow> cluster_value \<Rightarrow> (string \<times> string) \<times> omni_cluster \<times> bool list list" where
  "cluster_shown h x =
     (let (spec, nils) = cluster_spec_shown h (cv_Spec x); (status, nils') = cluster_status_shown h (cv_Status x)
      in (cv_TypeMeta x, \<lparr>oc_Meta = meta_at (h ! cv_ObjectMeta x), oc_Spec = spec, oc_Status = status\<rparr>, nils' # nils))"

definition cluster_refs :: "heap \<Rightarrow> cluster_value \<Rightarrow> nat set" where
  "cluster_refs h x = {cv_ObjectMeta x} \<union> (cluster_spec_refs h (cv_Spec x) \<union> cluster_status_refs h (cv_Status x))"

lemma copy_MachineSetSpec:
  assumes L: "library_copies L"
  shows "deep_copy (MachineSetSpec_DeepCopyInto L) machine_set_shown machine_set_refs"
proof -
  have selector: "deep_copy (copy_LabelSelector L) (shown_at selector_at) refs_at"
    using L by (simp add: library_copies_def)
  note fields = deep_copy_pair [OF selector deep_copy_pair [OF strings.deep_copy_axioms
    deep_copy_pair [OF strings.deep_copy_axioms copy_patches_copies [OF L]]]]
  show ?thesis
    by (rule deep_copy_struct [OF fields,
          where get = "\<lambda>x. (msv_MachineSelector x, msv_MachineExtensions x, msv_KernelArgs x, msv_ConfigPatches x)"
          and put = "\<lambda>(a, b, c, d) x. x\<lparr>msv_MachineSelector := a, msv_MachineExtensions := b, msv_KernelArgs := c,
            msv_ConfigPatches := d\<rparr>"
          and rest = msv_Replicas
          and shape = "\<lambda>n (s, e, a, p).
            (\<lparr>mss_Replicas = n, mss_MachineSelector = s, mss_MachineExtensions = listed e, mss_KernelArgs = listed a,
              mss_ConfigPatches = listed p\<rparr>, [e = None, a = None, p = None])"])
      (simp_all add: MachineSetSpec_DeepCopyInto_def copy_pair_def machine_set_shown_def machine_set_refs_def
        view_pair_def refs_pair_def Let_def split: prod.splits)
qed

lemma copy_WorkerMachineSetSpec:
  assumes L: "library_copies L"
  shows "deep_copy (WorkerMachineSetSpec_DeepCopyInto L) worker_set_shown worker_set_refs"
  by (rule deep_copy_struct [OF copy_MachineSetSpec [OF L], where get = wsv_MachineSetSpec
        and put = "\<lambda>y x. x\<lparr>wsv_MachineSetSpec := y\<rparr>" and rest = wsv_Name
        and shape = "\<lambda>n (spec, nils). (\<lparr>wms_Name = n, wms_MachineSetSpec = spec\<rparr>, nils)"])
    (simp_all add: WorkerMachineSetSpec_DeepCopyInto_def worker_set_shown_def worker_set_refs_def)

lemma copy_OmniClusterSpec:
  assumes L: "library_copies L"
  shows "deep_copy (OmniClusterSpec_DeepCopyInto L) cluster_spec_shown cluster_spec_refs"
proof -
  have workers: "deep_copy (copy_ref workers_at WorkersCell (copy_list (WorkerMachineSetSpec_DeepCopyInto L)))
      (view_ref workers_at (view_list worker_set_shown)) (refs_ref workers_at (refs_list worker_set_refs))"
    by (rule deep_copy_ref [OF deep_copy_list [OF copy_WorkerMachineSetSpec [OF L]]]) simp
  note fields = deep_copy_pair [OF copy_MachineSetSpec [OF L] workers]
  show ?thesis
    by (rule deep_copy_struct [OF fields, where get = "\<lambda>x. (csv_ControlPlane x, csv_Workers x)"
          and put = "\<lambda>(a, b) x. x\<lparr>csv_ControlPlane := a, csv_Workers := b\<rparr>"
          and rest = "\<lambda>x. (csv_KubernetesVersion x, csv_TalosVersion x)"
          and shape = "\<lambda>(k, t) ((c, nils), ws).
            (\<lparr>ocs_KubernetesVersion = k, ocs_TalosVersion = t, ocs_ControlPlane = c, ocs_Workers = map fst (listed ws)\<rparr>,
             nils # [ws = None] # map snd (listed ws))"])
      (simp_all add: OmniClusterSpec_DeepCopyInto_def copy_pair_def cluster_spec_shown_def cluster_spec_refs_def
        view_pair_def refs_pair_def Let_def split: prod.splits)
qed

lemma copy_entry_copies: "deep_copy copy_entry entry_shown entry_refs"
  by (rule deep_copy_struct [OF strings.deep_copy_axioms, where get = snd and put = "\<lambda>y x. (fst x, y)" and rest = fst
        and shape = Pair])
    (simp_all add: copy_entry_def entry_shown_def entry_refs_def)

lemma copy_OmniClusterStatus:
  assumes L: "library_copies L"
  shows "deep_copy (OmniClusterStatus_DeepCopyInto L) cluster_status_shown cluster_status_refs"
proof -
  have slices: "deep_copy (copy_ref slices_at SlicesCell (copy_list copy_entry))
      (view_ref slices_at (view_list entry_shown)) (refs_ref slices_at (refs_list entry_refs))"
    by (rule deep_copy_ref [OF deep_copy_list [OF copy_entry_copies]]) simp
  note fields = deep_copy_pair [OF slices deep_copy_pair [OF string.deep_copy_axioms
    deep_copy_pair [OF string.deep_copy_axioms copy_conditions_copies [OF L]]]]
  show ?thesis
    by (rule deep_copy_struct [OF fields,
          where get = "\<lambda>x. (ctv_AllocatedMachines x, ctv_FailureReason x, ctv_FailureMessage x, ctv_Conditions x)"
          and put = "\<lambda>(a, b, c, d) x. x\<lparr>ctv_AllocatedMachines := a, ctv_FailureReason := b, ctv_FailureMessage := c,
            ctv_Conditions := d\<rparr>"
          and rest = "\<lambda>x. (ctv_ObservedGeneration x, ctv_Phase x, ctv_Ready x)"
          and shape = "\<lambda>(g, p, r) (al, fr, fm, cs).
            (\<lparr>ost_ObservedGeneration = g, ost_Phase = p, ost_Ready = r,
              ost_AllocatedMachines = map (\<lambda>(k, v). (k, listed v)) (listed al),
              ost_FailureReason = fr, ost_FailureMessage = fm, ost_Conditions = listed cs\<rparr>,
             (al = None) # (cs = None) # map (\<lambda>(k, v). v = None) (listed al))"])
      (simp_all add: OmniClusterStatus_DeepCopyInto_def copy_pair_def cluster_status_shown_def cluster_status_refs_def
        view_pair_def refs_pair_def Let_def split: prod.splits)
qed

lemma copy_OmniCluster:
  assumes L: "library_copies L"
  shows "deep_copy (OmniCluster_DeepCopyInto L) cluster_shown cluster_refs"
proof -
  have meta: "deep_copy (copy_ObjectMeta L) (shown_at meta_at) refs_at"
    using L by (simp add: library_copies_def)
  note fields = deep_copy_pair [OF meta deep_copy_pair [OF copy_OmniClusterSpec [OF L] copy_OmniClusterStatus [OF L]]]
  show ?thesis
    by (rule deep_copy_struct [OF fields,
          where get = "\<lambda>x. (cv_ObjectMeta x, cv_Spec x, cv_Status x)"
          and put = "\<lambda>(a, b, c) x. x\<lparr>cv_ObjectMeta := a, cv_Spec := b, cv_Status := c\<rparr>"
          and rest = cv_TypeMeta
          and shape = "\<lambda>tm (meta, (spec, nils), (status, nils')).
            (tm, \<lparr>oc_Meta = meta, oc_Spec = spec, oc_Status = status\<rparr>, nils' # nils)"])
      (simp_all add: OmniCluster_DeepCopyInto_def copy_pair_def cluster_shown_def cluster_refs_def
        view_pair_def refs_pair_def Let_def split: prod.splits)
qed

subsection \<open>Lists and objects\<close>

definition machine_list_shown where
  "machine_list_shown h x = (lv_TypeMeta x, list_meta_at (h ! lv_ListMeta x),
     view_ref machines_at (view_list machine_shown) h (lv_Items x))"

definition machine_list_refs :: "heap \<Rightarrow> list_value \<Rightarrow> nat set" where
  "machine_list_refs h x = {lv_ListMeta x} \<union> refs_ref machines_at (refs_list machine_refs) h (lv_Items x)"

definition cluster_list_shown where
  "cluster_list_shown h x = (lv_TypeMeta x, list_meta_at (h ! lv_ListMeta x),
     view_ref clusters_at (view_list cluster_shown) h (lv_Items x))"

definition cluster_list_refs :: "heap \<Rightarrow> list_value \<Rightarrow> nat set" where
  "cluster_list_refs h x = {lv_ListMeta x} \<union> refs_ref clusters_at (refs_list cluster_refs) h (lv_Items x)"

lemma copy_MachineList:
  assumes L: "library_copies L"
  shows "deep_copy (MachineList_DeepCopyInto L) machine_list_shown machine_list_refs"
proof -
  have meta: "deep_copy (copy_ListMeta L) (shown_at list_meta_at) refs_at"
    using L by (simp add: library_copies_def)
  have items: "deep_copy (copy_ref machines_at MachinesCell (copy_list (Machine_DeepCopyInto L)))
      (view_ref machines_at (view_list machine_shown)) (refs_ref machines_at (refs_list machine_refs))"
    by (rule deep_copy_ref [OF deep_copy_list [OF copy_Machine [OF L]]]) simp
  show ?thesis
    by (rule deep_copy_struct [OF deep_copy_pair [OF meta items], where get = "\<lambda>x. (lv_ListMeta x, lv_Items x)"
          and put = "\<lambda>(a, b) x. x\<lparr>lv_ListMeta := a, lv_Items := b\<rparr>" and rest = lv_TypeMeta and shape = Pair])
      (simp_all add: MachineList_DeepCopyInto_def copy_pair_def machine_list_shown_def machine_list_refs_def
        view_pair_def refs_pair_def Let_def split: prod.splits)
qed

lemma copy_OmniClusterList:
  assumes L: "library_copies L"
  shows "deep_copy (OmniClusterList_DeepCopyInto L) cluster_list_shown cluster_list_refs"
proof -
  have meta: "deep_copy (copy_ListMeta L) (shown_at list_meta_at) refs_at"
    using L by (simp add: library_copies_def)
  have items: "deep_copy (copy_ref clusters_at ClustersCell (copy_list (OmniCluster_DeepCopyInto L)))
      (view_ref clusters_at (view_list cluster_shown)) (refs_ref clusters_at (refs_list cluster_refs))"
    by (rule deep_copy_ref [OF deep_copy_list [OF copy_OmniCluster [OF L]]]) simp
  show ?thesis
    by (rule deep_copy_struct [OF deep_copy_pair [OF meta items], where get = "\<lambda>x. (lv_ListMeta x, lv_Items x)"
          and put = "\<lambda>(a, b) x. x\<lparr>lv_ListMeta := a, lv_Items := b\<rparr>" and rest = lv_TypeMeta and shape = Pair])
      (simp_all add: OmniClusterList_DeepCopyInto_def copy_pair_def cluster_list_shown_def cluster_list_refs_def
        view_pair_def refs_pair_def Let_def split: prod.splits)
qed

datatype object_view =
    ShowMachine "(string \<times> string) \<times> machine \<times> bool list"
  | ShowMachineList "(string \<times> string) \<times> string \<times> ((string \<times> string) \<times> machine \<times> bool list) list option"
  | ShowCluster "(string \<times> string) \<times> omni_cluster \<times> bool list list"
  | ShowClusterList "(string \<times> string) \<times> string \<times> ((string \<times> string) \<times> omni_cluster \<times> bool list list) list option"

primrec object_shown :: "heap \<Rightarrow> runtime_object \<Rightarrow> object_view" where
  "object_shown h (MachineObject x) = ShowMachine (machine_shown h x)"
| "object_shown h (MachineListObject x) = ShowMachineList (machine_list_shown h x)"
| "object_shown h (OmniClusterObject x) = ShowCluster (cluster_shown h x)"
| "object_shown h (OmniClusterListObject x) = ShowClusterList (cluster_list_shown h x)"

primrec object_refs :: "heap \<Rightarrow> runtime_object \<Rightarrow> nat set" where
  "object_refs h (MachineObject x) = machine_refs h x"
| "object_refs h (MachineListObject x) = machine_list_refs h x"
| "object_refs h (OmniClusterObject x) = cluster_refs h x"
| "object_refs h (OmniClusterListObject x) = cluster_list_refs h x"

lemma nil_copies [simp]:
  "Machine_DeepCopyObject L None h = (None, h)" "MachineList_DeepCopyObject L None h = (None, h)"
  "OmniCluster_DeepCopyObject L None h = (None, h)" "OmniClusterList_DeepCopyObject L None h = (None, h)"
  by (simp_all add: Machine_DeepCopyObject_def MachineList_DeepCopyObject_def OmniCluster_DeepCopyObject_def
      OmniClusterList_DeepCopyObject_def Machine_DeepCopy_def MachineList_DeepCopy_def OmniCluster_DeepCopy_def
      OmniClusterList_DeepCopy_def copy_new_def as_object_def)

text \<open>One kind of object at a time: \<open>obj\<close> is its constructor.\<close>

lemma object_snapshot:
  assumes c: "deep_copy into v r"
    and copy: "DeepCopyObject L (obj x) h = as_object obj (copy_new into (Some x) h)"
    and v: "\<And>h y. object_shown h (obj y) = show_as (v h y)" and r: "\<And>h y. object_refs h (obj y) = r h y"
    and closed: "closed h (object_refs h (obj x))"
  shows "\<exists>y cs. DeepCopyObject L (obj x) h = (Some (obj y), h @ cs) \<and>
    object_shown (h @ cs) (obj x) = object_shown h (obj x) \<and>
    fresh h cs (object_refs (h @ cs) (obj y)) \<and>
    (\<forall>h2. agree {length h..<length (h @ cs)} (h @ cs) h2 \<longrightarrow> object_shown h2 (obj y) = object_shown h (obj x))"
proof -
  have "closed h (r h x)"
    using closed by (simp add: r)
  then obtain y cs where y: "into x h = (y, h @ cs)" "fresh h cs (r (h @ cs) y)"
    by (rule deep_copy.copyE [OF c])
  from deep_copy.snapshot [OF c \<open>closed h (r h x)\<close> y(1)] y show ?thesis
    by (intro exI [of _ y] exI [of _ cs]) (simp add: copy copy_new_def as_object_def v r)
qed

lemma object_cases:
  assumes L: "library_copies L" and closed: "closed h (object_refs h obj)"
  shows "\<exists>copy cs. DeepCopyObject L obj h = (Some copy, h @ cs) \<and>
    object_shown (h @ cs) obj = object_shown h obj \<and>
    fresh h cs (object_refs (h @ cs) copy) \<and>
    (\<forall>h2. agree {length h..<length (h @ cs)} (h @ cs) h2 \<longrightarrow> object_shown h2 copy = object_shown h obj)"
proof (cases obj)
  case (MachineObject x)
  show ?thesis
    using object_snapshot [OF copy_Machine [OF L], of L MachineObject x h ShowMachine] closed
    unfolding MachineObject by (auto simp: Machine_DeepCopyObject_def Machine_DeepCopy_def)
next
  case (MachineListObject x)
  show ?thesis
    using object_snapshot [OF copy_MachineList [OF L], of L MachineListObject x h ShowMachineList] closed
    unfolding MachineListObject by (auto simp: MachineList_DeepCopyObject_def MachineList_DeepCopy_def)
next
  case (OmniClusterObject x)
  show ?thesis
    using object_snapshot [OF copy_OmniCluster [OF L], of L OmniClusterObject x h ShowCluster] closed
    unfolding OmniClusterObject by (auto simp: OmniCluster_DeepCopyObject_def OmniCluster_DeepCopy_def)
next
  case (OmniClusterListObject x)
  show ?thesis
    using object_snapshot [OF copy_OmniClusterList [OF L], of L OmniClusterListObject x h ShowClusterList] closed
    unfolding OmniClusterListObject by (auto simp: OmniClusterList_DeepCopyObject_def OmniClusterList_DeepCopy_def)
qed

section \<open>The property\<close>

text \<open>C17: A deep copy of an API object (a machine, a cluster, a list of either) is a snapshot. It shows the
  same object as the original, nil slices, maps and pointers included; making it changes nothing the
  original shows; it shares no cell with anything that existed before; and whatever is later written to
  those older cells or to cells allocated afterwards, the copy shows what the original showed when it
  was made. The controllers rely on this when they keep a status from before a pass, and the records of
  \<open>Api\<close> stand for their values because of it.\<close>

theorem deep_copy_is_a_snapshot:
  assumes L: "library_copies L" and closed: "closed h (object_refs h obj)"
  shows "\<exists>copy cs. DeepCopyObject L obj h = (Some copy, h @ cs) \<and>
    object_shown (h @ cs) copy = object_shown h obj \<and> object_shown (h @ cs) obj = object_shown h obj \<and>
    object_refs (h @ cs) copy \<inter> {..<length h} = {} \<and>
    (\<forall>h2. (\<forall>i. length h \<le> i \<longrightarrow> i < length (h @ cs) \<longrightarrow> i < length h2 \<and> h2 ! i = (h @ cs) ! i) \<longrightarrow>
      object_shown h2 copy = object_shown h obj)"
proof -
  obtain copy cs where copy: "DeepCopyObject L obj h = (Some copy, h @ cs)"
      "object_shown (h @ cs) obj = object_shown h obj" "fresh h cs (object_refs (h @ cs) copy)"
      "\<forall>h2. agree {length h..<length (h @ cs)} (h @ cs) h2 \<longrightarrow> object_shown h2 copy = object_shown h obj"
    using object_cases [OF L closed] by blast
  have "agree {length h..<length (h @ cs)} (h @ cs) (h @ cs)"
    by (simp add: agree_def)
  with copy show ?thesis
    by (intro exI [of _ copy] exI [of _ cs]) (auto simp: agree_def fresh_def)
qed

text \<open>The libraries' copies on cells: a new cell with the same content.\<close>

definition copy_cell :: "(cell \<Rightarrow> 'b) \<Rightarrow> ('b \<Rightarrow> cell) \<Rightarrow> nat \<Rightarrow> heap \<Rightarrow> nat \<times> heap" where
  "copy_cell get mk i h = (length h, h @ [mk (get (h ! i))])"

lemma copy_cell_copies: "(\<And>x. get (mk x) = x) \<Longrightarrow> deep_copy (copy_cell get mk) (shown_at get) refs_at"
  by unfold_locales (auto simp: copy_cell_def fresh_def agree_def)

definition cell_library :: library where
  "cell_library = \<lparr>copy_ObjectMeta = copy_cell meta_at MetaCell, copy_ListMeta = copy_cell list_meta_at ListMetaCell,
     copy_LabelSelector = copy_cell selector_at SelectorCell, copy_JSON = copy_cell raw_at RawCell,
     copy_Time = copy_cell time_at TimeCell, copy_Condition = copy_plain\<rparr>"

lemma cell_library_copies: "library_copies cell_library"
  unfolding library_copies_def cell_library_def
  by (simp add: copy_cell_copies plain.deep_copy_axioms)

definition sample_heap :: heap where
  "sample_heap = [MetaCell (empty_meta ''m1'' ''ns''), RawCell (Some ''data''), PatchesCell
     [\<lparr>cpv_Name = ''p'', cpv_Inline = 1\<rparr>], TimeCell 5, ConditionsCell []]"

definition sample_value :: machine_value where
  "sample_value = \<lparr>mv_TypeMeta = (''Machine'', ''v1alpha1''), mv_ObjectMeta = 0,
     mv_Spec = \<lparr>mpv_ClusterName = ''c1'', mpv_MachineSetID = ''c1-w'', mpv_Role = ''worker'', mpv_ConfigPatches = Some 2,
       mpv_KernelArgs = None, mpv_RebootRequestedAt = Some 3, mpv_ManagementAddress = ''''\<rparr>,
     mv_Status = \<lparr>mtv_ObservedGeneration = 1, mtv_Ready = True, mtv_Phase = ''Ready'', mtv_LastRebootTime = None,
       mtv_FailureReason = None, mtv_FailureMessage = None, mtv_Conditions = Some 4\<rparr>\<rparr>"

definition ready_condition :: condition where
  "ready_condition = \<lparr>cond_Type = ''Ready'', cond_Status = ConditionTrue, cond_Reason = ''Bound'', cond_Message = '''',
     cond_ObservedGeneration = 1, cond_LastTransitionTime = 9\<rparr>"

theorem deep_copy_is_a_snapshot_witness:
  "\<exists>copy h'. DeepCopyObject cell_library (MachineObject sample_value) sample_heap = (Some copy, h') \<and>
     object_shown (h'[4 := ConditionsCell [ready_condition], 3 := TimeCell 9]) copy = object_shown sample_heap (MachineObject sample_value)"
proof -
  have closed: "closed sample_heap (object_refs sample_heap (MachineObject sample_value))"
    by (simp add: sample_value_def sample_heap_def machine_refs_def machine_spec_refs_def machine_status_refs_def
        patch_refs_def refs_ref_def refs_pointee_def refs_list_def patches_at_def conditions_at_def)
  have "length sample_heap = 5"
    by (simp add: sample_heap_def)
  with deep_copy_is_a_snapshot [OF cell_library_copies closed] show ?thesis
    by (elim exE conjE) (intro exI conjI, assumption, auto)
qed

end
