(* ===== verification/Startup.thy ===== *)
theory Startup
  imports World
begin

text \<open>
  The process entry point: \<open>main.go\<close>, \<open>api/v1alpha1/groupversion.go\<close>, \<open>NewOmniClient\<close> and the two
  \<open>SetupWithManager\<close>. Values of the libraries (schemes, clients, managers, recorders) are opaque
  handles of a type \<open>'h\<close>; what the libraries do with them are the fields of the record \<open>platform\<close>.
  Go's own \<open>flag\<close> and \<open>os\<close> packages are modelled: flags by the loop of \<open>FlagSet.parseOne\<close> under
  \<open>ExitOnError\<close>, \<open>os.Exit\<close> as the end of the process.
\<close>

section \<open>Command-line flags\<close>

record flags =
  metricsAddr :: string
  probeAddr :: string
  enableLeaderElection :: bool
  kubeconfigNamespace :: string
  argoCDClusters :: bool

text \<open>A declared flag: whether it needs no argument, and \<open>Value.Set\<close> (\<open>None\<close>: the text is refused).\<close>

record flag =
  fl_IsBool :: bool
  fl_Set :: "string \<Rightarrow> flags \<Rightarrow> flags option"

definition ParseBool :: "string \<Rightarrow> bool option" where
  "ParseBool s =
    (if s \<in> {''1'', ''t'', ''T'', ''true'', ''TRUE'', ''True''} then Some True
     else if s \<in> {''0'', ''f'', ''F'', ''false'', ''FALSE'', ''False''} then Some False
     else None)"

definition StringVar :: "(string \<Rightarrow> flags \<Rightarrow> flags) \<Rightarrow> flag" where
  "StringVar upd = \<lparr>fl_IsBool = False, fl_Set = (\<lambda>s f. Some (upd s f))\<rparr>"

definition BoolVar :: "(bool \<Rightarrow> flags \<Rightarrow> flags) \<Rightarrow> flag" where
  "BoolVar upd = \<lparr>fl_IsBool = True, fl_Set = (\<lambda>s f. map_option (\<lambda>b. upd b f) (ParseBool s))\<rparr>"

definition main_flags :: "(string \<times> flag) list" where
  "main_flags =
    [(''metrics-bind-address'', StringVar (\<lambda>s f. f\<lparr>metricsAddr := s\<rparr>)),
     (''health-probe-bind-address'', StringVar (\<lambda>s f. f\<lparr>probeAddr := s\<rparr>)),
     (''leader-elect'', BoolVar (\<lambda>b f. f\<lparr>enableLeaderElection := b\<rparr>)),
     (''kubeconfig-namespace'', StringVar (\<lambda>s f. f\<lparr>kubeconfigNamespace := s\<rparr>)),
     (''argocd-clusters'', BoolVar (\<lambda>b f. f\<lparr>argoCDClusters := b\<rparr>))]"

definition default_flags :: flags where
  "default_flags = \<lparr>metricsAddr = '':8080'', probeAddr = '':8081'', enableLeaderElection = False,
     kubeconfigNamespace = ''flux-system'', argoCDClusters = False\<rparr>"

text \<open>A flag name with its \<open>=value\<close>: the first \<open>=\<close> counts, but not as the first character.\<close>

fun split_value :: "string \<Rightarrow> string \<times> string option" where
  "split_value [] = ([], None)"
| "split_value (c # s) = (c # takeWhile (\<lambda>d. d \<noteq> CHR ''='') s,
     (case dropWhile (\<lambda>d. d \<noteq> CHR ''='') s of [] \<Rightarrow> None | _ # v \<Rightarrow> Some v))"

text \<open>\<open>parseOne\<close>: stop before a non-flag or at \<open>--\<close>, fail with an exit code, or go on.\<close>

datatype parsed = Stop | Failed nat | Parsed "string list" flags

definition set_flag :: "flag \<Rightarrow> string \<Rightarrow> string list \<Rightarrow> flags \<Rightarrow> parsed" where
  "set_flag fl v args vars = (case fl_Set fl v vars of None \<Rightarrow> Failed 2 | Some vars' \<Rightarrow> Parsed args vars')"

definition parse_flag :: "(string \<times> flag) list \<Rightarrow> string \<Rightarrow> string list \<Rightarrow> flags \<Rightarrow> parsed" where
  "parse_flag formal name args vars =
    (if name = [] \<or> hd name = CHR ''-'' \<or> hd name = CHR ''='' then Failed 2
     else case split_value name of (n, value) \<Rightarrow>
       (case map_of formal n of
          None \<Rightarrow> Failed (if n = ''help'' \<or> n = ''h'' then 0 else 2)
        | Some fl \<Rightarrow>
            (case value of
               Some v \<Rightarrow> set_flag fl v args vars
             | None \<Rightarrow>
                 if fl_IsBool fl then set_flag fl ''true'' args vars
                 else (case args of [] \<Rightarrow> Failed 2 | v # rest \<Rightarrow> set_flag fl v rest vars))))"

definition parseOne :: "(string \<times> flag) list \<Rightarrow> string list \<Rightarrow> flags \<Rightarrow> parsed" where
  "parseOne formal args vars =
    (case args of
       [] \<Rightarrow> Stop
     | s # rest \<Rightarrow>
         if length s < 2 \<or> hd s \<noteq> CHR ''-'' then Stop
         else if s ! 1 = CHR ''-'' then
           (if length s = 2 then Stop else parse_flag formal (drop 2 s) rest vars)
         else parse_flag formal (drop 1 s) rest vars)"

lemma set_flag_rest: "set_flag fl v args vars = Parsed rest vars' \<Longrightarrow> rest = args"
  by (simp add: set_flag_def split: option.splits)

lemma parse_flag_rest: "parse_flag formal name args vars = Parsed rest vars' \<Longrightarrow> length rest \<le> length args"
  by (auto simp: parse_flag_def dest!: set_flag_rest split: if_splits option.splits list.splits prod.splits)

lemma parseOne_rest: "parseOne formal args vars = Parsed rest vars' \<Longrightarrow> length rest < length args"
  by (auto simp: parseOne_def dest!: parse_flag_rest split: if_splits list.splits)

text \<open>\<open>Inl\<close> is the code the process exits with (\<open>ExitOnError\<close>: help 0, an error 2).\<close>

function flag_Parse :: "(string \<times> flag) list \<Rightarrow> string list \<Rightarrow> flags \<Rightarrow> nat + flags" where
  "flag_Parse formal args vars =
    (case parseOne formal args vars of
       Stop \<Rightarrow> Inr vars
     | Failed code \<Rightarrow> Inl code
     | Parsed rest vars' \<Rightarrow> flag_Parse formal rest vars')"
  by pat_completeness auto
termination
  by (relation "measure (\<lambda>(formal, args, vars). length args)") (auto dest: parseOne_rest)

declare flag_Parse.simps [simp del]

section \<open>The libraries\<close>

datatype api_kind = OmniClusterKind | OmniClusterListKind | MachineKind | MachineListKind

record group_version =
  gv_Group :: string
  gv_Version :: string

record 'h omni_client =
  cl_state :: 'h
  cl_mgmt :: 'h
  cl_raw :: 'h

record 'h cluster_fields =
  cf_Client :: 'h
  cf_Scheme :: 'h
  cf_OmniClient :: "'h omni_client"
  cf_Recorder :: 'h
  cf_KubeconfigNamespace :: string
  cf_ArgoCDClusters :: bool

record 'h machine_fields =
  mf_Client :: 'h
  mf_Scheme :: 'h
  mf_OmniClient :: "'h omni_client"
  mf_Recorder :: 'h

datatype 'h reconciles =
    ReconcilesCluster "'h cluster_fields"
  | ReconcilesMachine "'h machine_fields"

text \<open>What \<open>ctrl.NewControllerManagedBy(mgr).For(...).Owns(...)\<close> has collected.\<close>

record 'h builder =
  bd_Manager :: 'h
  bd_For :: api_kind
  bd_Owns :: "api_kind list"

record 'h manager_options =
  mo_Scheme :: 'h
  mo_MetricsBindAddress :: string
  mo_HealthProbeBindAddress :: string
  mo_LeaderElection :: bool
  mo_LeaderElectionID :: string

record ('e, 'h) platform =
  pl_Args :: "string list"
  pl_LibraryFlags :: "(string \<times> flag) list"
  pl_Getenv :: "string \<Rightarrow> string"
  pl_NewScheme :: 'h
  pl_ClientGoAddToScheme :: "'h \<Rightarrow> goerror + 'h"
  pl_SchemeBuilderAddToScheme :: "('h \<Rightarrow> goerror + 'h) list \<Rightarrow> 'h \<Rightarrow> goerror + 'h"
  pl_AddKnownTypes :: "group_version \<Rightarrow> api_kind list \<Rightarrow> 'h \<Rightarrow> 'h"
  pl_AddToGroupVersion :: "group_version \<Rightarrow> 'h \<Rightarrow> 'h"
  pl_MustRegister :: "(string \<times> string list) list \<Rightarrow> goerror option"
  pl_OmniNew :: "string \<Rightarrow> string \<Rightarrow> 'e \<Rightarrow> (goerror + 'h) \<times> 'e"
  pl_OmniState :: "'h \<Rightarrow> 'h"
  pl_OmniManagement :: "'h \<Rightarrow> 'h"
  pl_GetConfig :: "'e \<Rightarrow> (goerror + 'h) \<times> 'e"
  pl_NewManager :: "'h \<Rightarrow> 'h manager_options \<Rightarrow> 'e \<Rightarrow> (goerror + 'h) \<times> 'e"
  pl_GetClient :: "'h \<Rightarrow> 'h"
  pl_GetScheme :: "'h \<Rightarrow> 'h"
  pl_GetEventRecorder :: "'h \<Rightarrow> string \<Rightarrow> 'h"
  pl_Complete :: "'h builder \<Rightarrow> 'h reconciles \<Rightarrow> 'e \<Rightarrow> (goerror + unit) \<times> 'e"
  pl_AddHealthzCheck :: "'h \<Rightarrow> string \<Rightarrow> 'e \<Rightarrow> (goerror + unit) \<times> 'e"
  pl_AddReadyzCheck :: "'h \<Rightarrow> string \<Rightarrow> 'e \<Rightarrow> (goerror + unit) \<times> 'e"
  pl_Start :: "'h \<Rightarrow> 'e \<Rightarrow> (goerror + unit) \<times> 'e"

text \<open>What the process did with the libraries, in order.\<close>

datatype 'h boot_call =
    NewOmniClientCall string string
  | NewManagerCall 'h "'h manager_options"
  | CompleteCall "'h builder" "'h reconciles"
  | HealthzCall 'h string
  | ReadyzCall 'h string
  | StartCall 'h

datatype ending = Returned | Exited nat | Panicked goerror

section \<open>A process\<close>

text \<open>A step of the process: it ends the process or goes on with a value.\<close>

type_synonym ('e, 'h, 'a) boot = "'e \<times> 'h boot_call list \<Rightarrow> (ending + 'a) \<times> 'e \<times> 'h boot_call list"

definition boot_end :: "ending \<Rightarrow> ('e, 'h, 'a) boot" where
  "boot_end x s = (Inl x, s)"

definition boot_bind :: "('e, 'h, 'a) boot \<Rightarrow> ('a \<Rightarrow> ('e, 'h, 'b) boot) \<Rightarrow> ('e, 'h, 'b) boot" where
  "boot_bind m f s = (case m s of (Inl x, s') \<Rightarrow> (Inl x, s') | (Inr v, s') \<Rightarrow> f v s')"

text \<open>\<open>if err != nil { setupLog.Error(...); os.Exit(1) }\<close> after a call, which leaves its entry.\<close>

definition or_exit ::
  "'h boot_call list \<Rightarrow> ('e \<Rightarrow> (goerror + 'a) \<times> 'e) \<Rightarrow> ('e, 'h, 'a) boot" where
  "or_exit cs f s = (case s of (e, before) \<Rightarrow> (case f e of
     (Inl err, e') \<Rightarrow> (Inl (Exited 1), e', before @ cs)
   | (Inr v, e') \<Rightarrow> (Inr v, e', before @ cs)))"

section \<open>Initialisation of the packages\<close>

definition GroupVersion :: group_version where
  "GroupVersion = \<lparr>gv_Group = ''omni.gitops.dev'', gv_Version = ''v1alpha1''\<rparr>"

definition addKnownTypes :: "('e, 'h) platform \<Rightarrow> 'h \<Rightarrow> goerror + 'h" where
  "addKnownTypes P s =
     (let s1 = pl_AddKnownTypes P GroupVersion
                 [OmniClusterKind, OmniClusterListKind, MachineKind, MachineListKind] s
      in Inr (pl_AddToGroupVersion P GroupVersion s1))"

definition AddToScheme :: "('e, 'h) platform \<Rightarrow> 'h \<Rightarrow> goerror + 'h" where
  "AddToScheme P = pl_SchemeBuilderAddToScheme P [addKnownTypes P]"

text \<open>The vectors of \<open>metrics.go\<close>: metric name and label names.\<close>

definition metric_vectors :: "(string \<times> string list) list" where
  "metric_vectors =
    [(''omni_cluster_ready'', [''name'', ''namespace'']),
     (''omni_cluster_machines_allocated'', [''name'', ''namespace'', ''machineset'']),
     (''omni_cluster_config_drift_detected'', [''name'', ''namespace'']),
     (''omni_machine_reboots_total'', [''name'', ''namespace''])]"

text \<open>\<open>utilruntime.Must\<close> and \<open>MustRegister\<close> panic on an error.\<close>

definition must :: "goerror + 'a \<Rightarrow> ('e, 'h, 'a) boot" where
  "must r s = (case r of Inl err \<Rightarrow> (Inl (Panicked err), s) | Inr v \<Rightarrow> (Inr v, s))"

definition init_metrics :: "('e, 'h) platform \<Rightarrow> ('e, 'h, unit) boot" where
  "init_metrics P =
     must (case pl_MustRegister P metric_vectors of Some err \<Rightarrow> Inl err | None \<Rightarrow> Inr ())"

definition init_scheme :: "('e, 'h) platform \<Rightarrow> ('e, 'h, 'h) boot" where
  "init_scheme P =
     boot_bind (must (pl_ClientGoAddToScheme P (pl_NewScheme P))) (\<lambda>s. must (AddToScheme P s))"

section \<open>Constructors of the controllers package\<close>

definition NewOmniClient ::
  "('e, 'h) platform \<Rightarrow> string \<Rightarrow> string \<Rightarrow> 'e \<Rightarrow> (goerror + 'h omni_client) \<times> 'e" where
  "NewOmniClient P endpoint token e = (case pl_OmniNew P endpoint token e of
     (Inl err, e') \<Rightarrow> (Inl (Wrapf ''omni client: '' err []), e')
   | (Inr c, e') \<Rightarrow>
       (Inr \<lparr>cl_state = pl_OmniState P c, cl_mgmt = pl_OmniManagement P c, cl_raw = c\<rparr>, e'))"

definition cluster_builder :: "'h \<Rightarrow> 'h builder" where
  "cluster_builder mgr = \<lparr>bd_Manager = mgr, bd_For = OmniClusterKind, bd_Owns = [MachineKind]\<rparr>"

definition machine_builder :: "'h \<Rightarrow> 'h builder" where
  "machine_builder mgr = \<lparr>bd_Manager = mgr, bd_For = MachineKind, bd_Owns = []\<rparr>"

definition cluster_SetupWithManager ::
  "('e, 'h) platform \<Rightarrow> 'h cluster_fields \<Rightarrow> 'h \<Rightarrow> 'e \<Rightarrow> (goerror + unit) \<times> 'e" where
  "cluster_SetupWithManager P r mgr = pl_Complete P (cluster_builder mgr) (ReconcilesCluster r)"

definition machine_SetupWithManager ::
  "('e, 'h) platform \<Rightarrow> 'h machine_fields \<Rightarrow> 'h \<Rightarrow> 'e \<Rightarrow> (goerror + unit) \<times> 'e" where
  "machine_SetupWithManager P r mgr = pl_Complete P (machine_builder mgr) (ReconcilesMachine r)"

section \<open>The main function\<close>

text \<open>Declaring a flag twice panics; \<open>pl_LibraryFlags\<close> are those of zap and controller-runtime.\<close>

definition parse_flags :: "('e, 'h) platform \<Rightarrow> ('e, 'h, flags) boot" where
  "parse_flags P s =
     (let formal = main_flags @ pl_LibraryFlags P
      in if \<not> distinct (map fst formal) then (Inl (Panicked (Panic ''flag redefined'')), s)
         else (case flag_Parse formal (pl_Args P) default_flags of
                 Inl code \<Rightarrow> (Inl (Exited code), s)
               | Inr vars \<Rightarrow> (Inr vars, s)))"

definition manager_options :: "flags \<Rightarrow> 'h \<Rightarrow> 'h manager_options" where
  "manager_options vars scheme =
     \<lparr>mo_Scheme = scheme, mo_MetricsBindAddress = metricsAddr vars,
      mo_HealthProbeBindAddress = probeAddr vars, mo_LeaderElection = enableLeaderElection vars,
      mo_LeaderElectionID = ''omni-controller.omni.gitops.dev''\<rparr>"

definition cluster_reconciler ::
  "('e, 'h) platform \<Rightarrow> flags \<Rightarrow> 'h omni_client \<Rightarrow> 'h \<Rightarrow> 'h cluster_fields" where
  "cluster_reconciler P vars client mgr =
     \<lparr>cf_Client = pl_GetClient P mgr, cf_Scheme = pl_GetScheme P mgr, cf_OmniClient = client,
      cf_Recorder = pl_GetEventRecorder P mgr ''omni-gitops-controller'',
      cf_KubeconfigNamespace = kubeconfigNamespace vars, cf_ArgoCDClusters = argoCDClusters vars\<rparr>"

definition machine_reconciler :: "('e, 'h) platform \<Rightarrow> 'h omni_client \<Rightarrow> 'h \<Rightarrow> 'h machine_fields" where
  "machine_reconciler P client mgr =
     \<lparr>mf_Client = pl_GetClient P mgr, mf_Scheme = pl_GetScheme P mgr, mf_OmniClient = client,
      mf_Recorder = pl_GetEventRecorder P mgr ''omni-gitops-controller''\<rparr>"

definition run_manager ::
  "('e, 'h) platform \<Rightarrow> flags \<Rightarrow> 'h omni_client \<Rightarrow> 'h \<Rightarrow> ('e, 'h, unit) boot" where
  "run_manager P vars client mgr =
     (let rc = cluster_reconciler P vars client mgr;
          rm = machine_reconciler P client mgr
      in boot_bind (or_exit [CompleteCall (cluster_builder mgr) (ReconcilesCluster rc)]
           (cluster_SetupWithManager P rc mgr)) (\<lambda>_.
         boot_bind (or_exit [CompleteCall (machine_builder mgr) (ReconcilesMachine rm)]
           (machine_SetupWithManager P rm mgr)) (\<lambda>_.
         boot_bind (or_exit [HealthzCall mgr ''healthz''] (pl_AddHealthzCheck P mgr ''healthz'')) (\<lambda>_.
         boot_bind (or_exit [ReadyzCall mgr ''readyz''] (pl_AddReadyzCheck P mgr ''readyz'')) (\<lambda>_.
         or_exit [StartCall mgr] (pl_Start P mgr))))))"

definition go_main :: "('e, 'h) platform \<Rightarrow> 'h \<Rightarrow> ('e, 'h, unit) boot" where
  "go_main P scheme =
     boot_bind (parse_flags P) (\<lambda>vars.
       let omniEndpoint = pl_Getenv P ''OMNI_ENDPOINT'';
           omniToken = pl_Getenv P ''OMNI_SERVICE_ACCOUNT_TOKEN''
       in if omniEndpoint = [] then boot_end (Exited 1)
          else if omniToken = [] then boot_end (Exited 1)
          else boot_bind (or_exit [NewOmniClientCall omniEndpoint omniToken]
                 (NewOmniClient P omniEndpoint omniToken)) (\<lambda>client.
               boot_bind (or_exit [] (pl_GetConfig P)) (\<lambda>config.
               boot_bind (or_exit [NewManagerCall config (manager_options vars scheme)]
                 (pl_NewManager P config (manager_options vars scheme))) (\<lambda>mgr.
               run_manager P vars client mgr))))"

text \<open>The process: the packages are initialised, then \<open>main\<close> runs; how it ended, and what it did.\<close>

definition run_process :: "('e, 'h) platform \<Rightarrow> 'e \<Rightarrow> ending \<times> 'h boot_call list" where
  "run_process P e =
     (case boot_bind (init_metrics P) (\<lambda>_. boot_bind (init_scheme P) (go_main P)) (e, []) of
        (Inl x, e', cs) \<Rightarrow> (x, cs)
      | (Inr _, e', cs) \<Rightarrow> (Returned, cs))"

end
