(* ===== verification/Startup_Properties.thy ===== *)
theory Startup_Properties
  imports Startup "HOL-Library.Sublist"
begin

text \<open>
  The process entry point: every setting of the flags can be given on the command line, and the
  manager is started only once everything it runs has been set up.
\<close>

section \<open>Flags\<close>

definition show_bool :: "bool \<Rightarrow> string" where
  "show_bool b = (if b then ''true'' else ''false'')"

definition show_flags :: "flags \<Rightarrow> string list" where
  "show_flags f =
    [''--metrics-bind-address='' @ metricsAddr f, ''--health-probe-bind-address='' @ probeAddr f,
     ''--leader-elect='' @ show_bool (enableLeaderElection f),
     ''--kubeconfig-namespace='' @ kubeconfigNamespace f,
     ''--argocd-clusters='' @ show_bool (argoCDClusters f)]"

lemma ParseBool_show [simp]: "ParseBool (show_bool b) = Some b"
  by (simp add: ParseBool_def show_bool_def)

lemma parseOne_assignment:
  assumes "name \<noteq> []" "hd name \<noteq> CHR ''-''" "CHR ''='' \<notin> set name"
    and "map_option (\<lambda>fl. fl_Set fl v vars) (map_of formal name) = Some (Some vars')"
  shows "parseOne formal ((''--'' @ name @ CHR ''='' # v) # args) vars = Parsed args vars'"
proof (cases name)
  case (Cons c cs)
  then have "split_value (name @ CHR ''='' # v) = (name, Some v)"
    using assms(3) by (auto simp: takeWhile_append dropWhile_append)
  moreover have "c \<noteq> CHR ''='' \<and> c \<noteq> CHR ''-''"
    using assms(2,3) Cons by auto
  ultimately show ?thesis
    using assms(4) Cons by (auto simp: parseOne_def parse_flag_def set_flag_def)
qed (use assms(1) in simp)

lemma flag_Parse_assignment:
  assumes "name \<noteq> []" "hd name \<noteq> CHR ''-''" "CHR ''='' \<notin> set name"
    and "map_option (\<lambda>fl. fl_Set fl v vars) (map_of formal name) = Some (Some vars')"
    and "s = ''--'' @ name @ CHR ''='' # v"
  shows "flag_Parse formal (s # args) vars = flag_Parse formal args vars'"
  using parseOne_assignment [OF assms(1-4)] assms(5)
  by (subst flag_Parse.simps) simp

text \<open>Whatever the settings, their rendering parses back to them.\<close>

lemma flags_roundtrip: "flag_Parse (main_flags @ lib) (show_flags f) start = Inr f"
proof -
  let ?F = "main_flags @ lib"
  have metrics: "flag_Parse ?F ((''--metrics-bind-address='' @ s) # args) vars =
      flag_Parse ?F args (vars\<lparr>metricsAddr := s\<rparr>)" for s args vars
    by (rule flag_Parse_assignment [where name = "''metrics-bind-address''"]) (simp_all add: main_flags_def StringVar_def)
  have probe: "flag_Parse ?F ((''--health-probe-bind-address='' @ s) # args) vars =
      flag_Parse ?F args (vars\<lparr>probeAddr := s\<rparr>)" for s args vars
    by (rule flag_Parse_assignment [where name = "''health-probe-bind-address''"]) (simp_all add: main_flags_def StringVar_def)
  have leader: "flag_Parse ?F ((''--leader-elect='' @ show_bool b) # args) vars =
      flag_Parse ?F args (vars\<lparr>enableLeaderElection := b\<rparr>)" for b args vars
    by (rule flag_Parse_assignment [where name = "''leader-elect''"]) (simp_all add: main_flags_def BoolVar_def)
  have ns: "flag_Parse ?F ((''--kubeconfig-namespace='' @ s) # args) vars =
      flag_Parse ?F args (vars\<lparr>kubeconfigNamespace := s\<rparr>)" for s args vars
    by (rule flag_Parse_assignment [where name = "''kubeconfig-namespace''"]) (simp_all add: main_flags_def StringVar_def)
  have argo: "flag_Parse ?F ((''--argocd-clusters='' @ show_bool b) # args) vars =
      flag_Parse ?F args (vars\<lparr>argoCDClusters := b\<rparr>)" for b args vars
    by (rule flag_Parse_assignment [where name = "''argocd-clusters''"]) (simp_all add: main_flags_def BoolVar_def)
  have "flag_Parse ?F [] vars = Inr vars" for vars
    by (subst flag_Parse.simps) (simp add: parseOne_def)
  then show ?thesis
    unfolding show_flags_def by (simp only: metrics probe leader ns argo) simp
qed

section \<open>The order of the set-up\<close>

text \<open>The scheme of the API types: what the libraries promise of registration.\<close>

definition scheme_laws :: "('e, 'h) platform \<Rightarrow> ('h \<Rightarrow> api_kind set) \<Rightarrow> bool" where
  "scheme_laws P known \<longleftrightarrow>
     (\<forall>f s. pl_SchemeBuilderAddToScheme P [f] s = f s) \<and>
     (\<forall>gv ks s. known (pl_AddKnownTypes P gv ks s) = known s \<union> set ks) \<and>
     (\<forall>gv s. known (pl_AddToGroupVersion P gv s) = known s)"

text \<open>The settings of the manager, the fields of the two controllers and what they watch, spelled out.\<close>

definition wired_options :: "flags \<Rightarrow> 'h \<Rightarrow> 'h manager_options" where
  "wired_options vars scheme =
     \<lparr>mo_Scheme = scheme, mo_MetricsBindAddress = metricsAddr vars, mo_HealthProbeBindAddress = probeAddr vars,
      mo_LeaderElection = enableLeaderElection vars, mo_LeaderElectionID = ''omni-controller.omni.gitops.dev''\<rparr>"

definition startup_sequence ::
  "('e, 'h) platform \<Rightarrow> flags \<Rightarrow> 'h \<Rightarrow> 'h omni_client \<Rightarrow> 'h \<Rightarrow> 'h \<Rightarrow> 'h boot_call list" where
  "startup_sequence P vars scheme client config mgr =
    [NewOmniClientCall (pl_Getenv P ''OMNI_ENDPOINT'') (pl_Getenv P ''OMNI_SERVICE_ACCOUNT_TOKEN''),
     NewManagerCall config (wired_options vars scheme),
     CompleteCall \<lparr>bd_Manager = mgr, bd_For = OmniClusterKind, bd_Owns = [MachineKind]\<rparr> (ReconcilesCluster
       \<lparr>cf_Client = pl_GetClient P mgr, cf_Scheme = pl_GetScheme P mgr, cf_OmniClient = client,
        cf_Recorder = pl_GetEventRecorder P mgr ''omni-gitops-controller'',
        cf_KubeconfigNamespace = kubeconfigNamespace vars, cf_ArgoCDClusters = argoCDClusters vars\<rparr>),
     CompleteCall \<lparr>bd_Manager = mgr, bd_For = MachineKind, bd_Owns = []\<rparr> (ReconcilesMachine
       \<lparr>mf_Client = pl_GetClient P mgr, mf_Scheme = pl_GetScheme P mgr, mf_OmniClient = client,
        mf_Recorder = pl_GetEventRecorder P mgr ''omni-gitops-controller''\<rparr>),
     HealthzCall mgr ''healthz'', ReadyzCall mgr ''readyz'', StartCall mgr]"

lemmas wiring = wired_options_def manager_options_def cluster_builder_def machine_builder_def
  cluster_reconciler_def machine_reconciler_def

lemma manager_options_wired: "manager_options vars scheme = wired_options vars scheme"
  by (simp add: wiring)

lemma init_scheme_knows:
  assumes "scheme_laws P known" "init_scheme P s = (Inr scheme, s')"
  shows "known scheme = UNIV \<and> s' = s"
proof -
  obtain s1 where "scheme = pl_AddToGroupVersion P GroupVersion (pl_AddKnownTypes P GroupVersion
      [OmniClusterKind, OmniClusterListKind, MachineKind, MachineListKind] s1)" "s' = s"
    using assms by (auto simp: init_scheme_def scheme_laws_def must_def boot_bind_def AddToScheme_def addKnownTypes_def Let_def
        split: sum.splits)
  moreover have "insert OmniClusterKind (insert OmniClusterListKind (insert MachineKind {MachineListKind})) = UNIV"
    using api_kind.exhaust by auto
  ultimately show ?thesis
    using assms(1) by (simp add: scheme_laws_def)
qed

text \<open>A run goes wrong before any call, or it is a prefix of the sequence.\<close>

definition follows :: "'h boot_call list \<Rightarrow> (ending + 'a) \<times> 'e \<times> 'h boot_call list \<Rightarrow> bool" where
  "follows full x \<longleftrightarrow> prefix (snd (snd x)) full \<and>
     (case fst x of Inl r \<Rightarrow> r = Exited 1 | Inr _ \<Rightarrow> snd (snd x) = full)"

lemma follows_last: "cs @ c = full \<Longrightarrow> follows full (or_exit c f (e, cs))"
  by (auto simp: follows_def or_exit_def split: prod.splits sum.splits)

lemma follows_bind:
  assumes "prefix (cs @ c) full" "\<And>v e'. follows full (g v (e', cs @ c))"
  shows "follows full (boot_bind (or_exit c f) g (e, cs))"
proof (cases "f e")
  case (Pair r e')
  with assms show ?thesis
    by (cases r) (simp_all add: follows_def [of _ "(Inl _, _)"] boot_bind_def or_exit_def)
qed

lemma run_manager_follows:
  "follows (startup_sequence P vars scheme client config mgr)
     (run_manager P vars client mgr (e, take 2 (startup_sequence P vars scheme client config mgr)))"
  unfolding run_manager_def Let_def
  by (intro follows_bind follows_last) (simp_all add: startup_sequence_def wiring)

text \<open>The client, the configuration and the manager are those the libraries made.\<close>

definition made_by ::
  "('e, 'h) platform \<Rightarrow> flags \<Rightarrow> 'h \<Rightarrow> 'h omni_client \<Rightarrow> 'h \<Rightarrow> 'h \<Rightarrow> 'e \<Rightarrow> bool" where
  "made_by P vars scheme client config mgr e \<longleftrightarrow> (\<exists>c e1 e2 e3.
     pl_OmniNew P (pl_Getenv P ''OMNI_ENDPOINT'') (pl_Getenv P ''OMNI_SERVICE_ACCOUNT_TOKEN'') e = (Inr c, e1) \<and>
     client = \<lparr>cl_state = pl_OmniState P c, cl_mgmt = pl_OmniManagement P c, cl_raw = c\<rparr> \<and>
     pl_GetConfig P e1 = (Inr config, e2) \<and>
     pl_NewManager P config (wired_options vars scheme) e2 = (Inr mgr, e3))"

lemma NewOmniClient_made:
  "NewOmniClient P endpoint token e = (Inr client, e1) \<longleftrightarrow> (\<exists>c. pl_OmniNew P endpoint token e = (Inr c, e1) \<and>
     client = \<lparr>cl_state = pl_OmniState P c, cl_mgmt = pl_OmniManagement P c, cl_raw = c\<rparr>)"
  by (auto simp: NewOmniClient_def split: prod.splits sum.splits)

lemma go_main_follows:
  assumes flags: "parse_flags P (e, []) = (Inr vars, e, [])"
    and env: "pl_Getenv P ''OMNI_ENDPOINT'' \<noteq> []" "pl_Getenv P ''OMNI_SERVICE_ACCOUNT_TOKEN'' \<noteq> []"
  shows "\<exists>client config mgr. follows (startup_sequence P vars scheme client config mgr) (go_main P scheme (e, [])) \<and>
    (2 < length (snd (snd (go_main P scheme (e, [])))) \<longrightarrow> made_by P vars scheme client config mgr e)"
proof -
  let ?new = "NewOmniClient P (pl_Getenv P ''OMNI_ENDPOINT'') (pl_Getenv P ''OMNI_SERVICE_ACCOUNT_TOKEN'') e"
  note main = go_main_def boot_bind_def [where m = "parse_flags P"] flags env Let_def manager_options_wired
  obtain r1 e1 where new: "?new = (r1, e1)" by fastforce
  show ?thesis
  proof (cases r1)
    case (Inl err)
    then show ?thesis
      by (simp add: main new boot_bind_def or_exit_def follows_def startup_sequence_def)
  next
    case (Inr client)
    obtain r2 e2 where config: "pl_GetConfig P e1 = (r2, e2)" by fastforce
    show ?thesis
    proof (cases r2)
      case (Inl err)
      then show ?thesis
        using Inr by (simp add: main new config boot_bind_def or_exit_def follows_def startup_sequence_def)
    next
      case r2: (Inr config)
      obtain r3 e3 where mgr: "pl_NewManager P config (wired_options vars scheme) e2 = (r3, e3)" by fastforce
      show ?thesis
      proof (cases r3)
        case (Inl err)
        then show ?thesis
          using Inr r2
          by (auto simp: main new \<open>pl_GetConfig P e1 = (r2, e2)\<close> mgr boot_bind_def or_exit_def follows_def startup_sequence_def)
      next
        case r3: (Inr mgr)
        have "go_main P scheme (e, []) =
            run_manager P vars client mgr (e3, take 2 (startup_sequence P vars scheme client config mgr))"
          using Inr r2 r3 by (simp add: main new \<open>pl_GetConfig P e1 = (r2, e2)\<close> mgr boot_bind_def or_exit_def
              startup_sequence_def)
        then have "follows (startup_sequence P vars scheme client config mgr) (go_main P scheme (e, []))"
          by (simp only: run_manager_follows)
        moreover have "made_by P vars scheme client config mgr e"
          using new \<open>pl_GetConfig P e1 = (r2, e2)\<close> mgr Inr r2 r3 unfolding made_by_def by (auto simp: NewOmniClient_made)
        ultimately show ?thesis by blast
      qed
    qed
  qed
qed

section \<open>The property\<close>

lemma parse_flags_stage:
  assumes "parse_flags P (e, []) = (r, s)"
  shows "s = (e, [])"
    and "\<And>vars. r = Inr vars \<Longrightarrow> flag_Parse (main_flags @ pl_LibraryFlags P) (pl_Args P) default_flags = Inr vars"
    and "r \<noteq> Inl Returned"
  using assms by (auto simp: parse_flags_def Let_def split: if_splits sum.splits)

lemma init_scheme_stage:
  assumes "init_scheme P (e, []) = (r, s)"
  shows "s = (e, [])" and "r \<noteq> Inl Returned"
  using assms by (auto simp: init_scheme_def must_def boot_bind_def split: sum.splits)

text \<open>C33: The controllers never run half-wired. Whatever the libraries answer, the process does a prefix
  of one fixed sequence: create the Omni client, create the manager, register the cluster and then the
  machine controller, add the two probes, start the manager. It returns normally only after the whole of
  it, and exits with code 1 when any step fails. Once controllers are registered, both hold the one Omni
  client and the manager that were made, with the namespace and the format the flags gave, every field
  spelled out in \<open>startup_sequence\<close>; a command line that states the settings is taken at its word; the
  scheme the manager got knows every kind of the API; and no call at all is made unless both
  environment variables are set and the flags parse.\<close>

theorem manager_starts_fully_wired:
  assumes laws: "scheme_laws P known" and run: "run_process P e = (out, cs)"
  shows "if cs = [] then out \<noteq> Returned
    else \<exists>vars scheme client config mgr.
      flag_Parse (main_flags @ pl_LibraryFlags P) (pl_Args P) default_flags = Inr vars \<and>
      (\<forall>f. pl_Args P = show_flags f \<longrightarrow> vars = f) \<and>
      pl_Getenv P ''OMNI_ENDPOINT'' \<noteq> [] \<and> pl_Getenv P ''OMNI_SERVICE_ACCOUNT_TOKEN'' \<noteq> [] \<and>
      known scheme = UNIV \<and> prefix cs (startup_sequence P vars scheme client config mgr) \<and>
      (out = Returned \<and> cs = startup_sequence P vars scheme client config mgr \<or> out = Exited 1) \<and>
      (2 < length cs \<longrightarrow> made_by P vars scheme client config mgr e)"
proof (cases "pl_MustRegister P metric_vectors")
  case (Some err)
  then show ?thesis
    using run by (auto simp: run_process_def boot_bind_def init_metrics_def must_def)
next
  case None
  obtain r1 s1 where scheme: "init_scheme P (e, []) = (r1, s1)" by (metis prod.exhaust)
  obtain r2 s2 where flags: "parse_flags P (e, []) = (r2, s2)" by (metis prod.exhaust)
  note s2 = parse_flags_stage [OF flags] and s1 = init_scheme_stage [OF scheme]
  note start = run [unfolded run_process_def boot_bind_def [where m = "init_metrics P"]
    boot_bind_def [where m = "init_scheme P"]] None
  show ?thesis
  proof (cases "\<exists>scheme vars. r1 = Inr scheme \<and> r2 = Inr vars \<and> pl_Getenv P ''OMNI_ENDPOINT'' \<noteq> [] \<and>
      pl_Getenv P ''OMNI_SERVICE_ACCOUNT_TOKEN'' \<noteq> []")
    case True
    then obtain s vars where ok: "r1 = Inr s" "r2 = Inr vars" "pl_Getenv P ''OMNI_ENDPOINT'' \<noteq> []"
        "pl_Getenv P ''OMNI_SERVICE_ACCOUNT_TOKEN'' \<noteq> []" by blast
    from go_main_follows [OF flags [unfolded ok s2] ok(3,4), of s] obtain client config mgr where
      "follows (startup_sequence P vars s client config mgr) (go_main P s (e, []))"
      "2 < length (snd (snd (go_main P s (e, [])))) \<Longrightarrow> made_by P vars s client config mgr e" by blast
    moreover have "known s = UNIV"
      using init_scheme_knows [OF laws] scheme ok(1) by blast
    moreover obtain r s' where "go_main P s (e, []) = (r, s', cs)" "out = (case r of Inl x \<Rightarrow> x | Inr _ \<Rightarrow> Returned)"
      using start scheme s1 ok(1) by (auto simp: init_metrics_def must_def split: prod.splits sum.splits)
    ultimately have "prefix cs (startup_sequence P vars s client config mgr)"
      "out = Returned \<and> cs = startup_sequence P vars s client config mgr \<or> out = Exited 1"
      "2 < length cs \<Longrightarrow> made_by P vars s client config mgr e" "known s = UNIV" "out = Returned \<Longrightarrow> cs \<noteq> []"
      by (auto simp: follows_def startup_sequence_def split: sum.splits)
    moreover have "vars = f" if "pl_Args P = show_flags f" for f
      using s2(2) [OF ok(2)] unfolding that flags_roundtrip by simp
    ultimately show ?thesis
      using ok s2(2) [OF ok(2)] by auto
  next
    case False
    then show ?thesis
      using start scheme flags s1 s2
      by (auto simp: init_metrics_def must_def go_main_def boot_bind_def boot_end_def Let_def
          split: sum.splits if_splits)
  qed
qed

text \<open>A platform on which all goes well; a scheme handle is the list of kinds it knows.\<close>

definition sample_platform :: "(unit, api_kind list) platform" where
  "sample_platform = \<lparr>pl_Args = [''--argocd-clusters'', ''-kubeconfig-namespace'', ''argocd''],
     pl_LibraryFlags = [(''kubeconfig'', \<lparr>fl_IsBool = False, fl_Set = (\<lambda>_. Some)\<rparr>)],
     pl_Getenv = (\<lambda>_. ''x''), pl_NewScheme = [], pl_ClientGoAddToScheme = Inr,
     pl_SchemeBuilderAddToScheme = (\<lambda>fs s. hd fs s),
     pl_AddKnownTypes = (\<lambda>_ ks s. s @ ks), pl_AddToGroupVersion = (\<lambda>_ s. s), pl_MustRegister = (\<lambda>_. None),
     pl_OmniNew = (\<lambda>_ _ e. (Inr [], e)), pl_OmniState = (\<lambda>h. h), pl_OmniManagement = (\<lambda>h. h),
     pl_GetConfig = (\<lambda>e. (Inr [], e)), pl_NewManager = (\<lambda>_ mo e. (Inr (mo_Scheme mo), e)),
     pl_GetClient = (\<lambda>h. h), pl_GetScheme = (\<lambda>h. h), pl_GetEventRecorder = (\<lambda>h _. h),
     pl_Complete = (\<lambda>_ _ e. (Inr (), e)), pl_AddHealthzCheck = (\<lambda>_ _ e. (Inr (), e)),
     pl_AddReadyzCheck = (\<lambda>_ _ e. (Inr (), e)), pl_Start = (\<lambda>_ e. (Inr (), e))\<rparr>"

lemma sample_run: "fst (run_process sample_platform ()) = Returned \<and> snd (run_process sample_platform ()) \<noteq> []"
  by code_simp

lemma sample_flags: "flag_Parse (main_flags @ pl_LibraryFlags sample_platform) (pl_Args sample_platform) default_flags =
    Inr (default_flags\<lparr>kubeconfigNamespace := ''argocd'', argoCDClusters := True\<rparr>)"
  by code_simp

theorem manager_starts_fully_wired_witness:
  "\<exists>scheme client config mgr. snd (run_process sample_platform ()) = startup_sequence sample_platform
     (default_flags\<lparr>kubeconfigNamespace := ''argocd'', argoCDClusters := True\<rparr>) scheme client config mgr"
proof -
  have "scheme_laws sample_platform set"
    by (auto simp: scheme_laws_def sample_platform_def)
  from manager_starts_fully_wired [OF this surjective_pairing [of "run_process sample_platform ()"]] sample_run sample_flags
  show ?thesis
    by auto
qed

end
