(* ===== verification/Divergences.thy ===== *)
theory Divergences
  imports Cluster_Properties Machine_Properties Drift_Properties
begin

text \<open>
  Where the code departs from what its comments, its documentation or its purpose say: one theorem for
  each, a general one where the departure does not depend on circumstances and a run otherwise.
\<close>

section \<open>Identities that collide\<close>

text \<open>Two clusters share a worker set's ID, and the existing set is accepted whoever has it.\<close>

theorem worker_set_ids_collide:
  "workerSetID (c @ ''-'' @ n) (w\<lparr>wms_Name := m\<rparr>) = workerSetID c (w\<lparr>wms_Name := n @ ''-'' @ m\<rparr>)"
  by (simp add: workerSetID_def)

theorem existing_machine_set_is_accepted:
  assumes "cosi_Get E MachineSetType s (env w) = (Inr r, e)" "r_Type r = MachineSetType"
  shows "fst (EnsureMachineSet E cn s role w) = Inr () \<and> made (EnsureMachineSet E cn s role) w = []"
  using assms by (simp add: EnsureMachineSet_def StateGet_def io_defs made_def)

section \<open>Allocation\<close>

text \<open>A \<open>Machine\<close> object that exists, of whatever set, counts as created for this one.\<close>

theorem existing_machine_counts_as_allocated:
  assumes "k8s_SetControllerReference E cluster (newMachine (oc_Namespace cluster) cn s role i spec) = Inr m"
    and "k8s_CreateMachine E m (env w) = (Inl (ApiError AlreadyExists msg), e)"
  shows "fst (createFresh E cluster cn s role spec [i] active claimed w) =
    Inr (active @ [synthetic_machine '''' i], claim i claimed)"
  using assms by (simp add: createMachine_def io_defs)

text \<open>The control plane is given \<open>m1\<close>, which has a \<open>Machine\<close> object in a worker set but no binding yet.\<close>

definition unbound_worker :: machine where
  "unbound_worker = newMachine ''ns'' ''c1'' ''c1-w'' roleWorker ''m1'' (sample_set 1)"

definition unbound_world :: "memory world" where
  "unbound_world = world_of (empty_memory\<lparr>mem_machines := [unbound_worker], mem_resources := [free_machine ''m1'']\<rparr>)"

theorem control_plane_takes_a_workers_machine:
  "map_sum (\<lambda>_. ()) fst (fst (reconcileMachineSetAllocation memory_ops False sample_cluster ''c1''
     ''c1-control-planes'' roleControlPlane (sample_set 1) [] unbound_world)) = Inr [''m1'']"
  by code_simp

text \<open>No extensions in the spec: the set's extensions are deleted, not left alone.\<close>

definition extended_world :: "memory world" where
  "extended_world = world_of (empty_memory\<lparr>mem_resources := [\<lparr>r_ID = schematicID ''c1-w'',
     r_Labels = [(''cluster'', ''c1''), (''machine-set'', ''c1-w'')], r_Spec = ExtensionsConfigurationSpec [''x'']\<rparr>]\<rparr>)"

theorem extensions_are_not_left_untouched:
  "mem_resources (env extended_world) \<noteq> [] \<and>
   mem_resources (env (snd (reconcileExtensions memory_ops ''c1'' ''c1-w'' (sample_set 1) extended_world))) = []"
  by code_simp

section \<open>Teardown\<close>

text \<open>\<open>m1\<close> is bound to a set of another cluster; deleting its \<open>Machine\<close> object unbinds it there.\<close>

definition bound_elsewhere_world :: "memory world" where
  "bound_elsewhere_world = world_of (empty_memory\<lparr>mem_machines := [deleted_machine],
     mem_resources := [\<lparr>r_ID = ''m1'', r_Labels = [(''cluster'', ''c2''), (''machine-set'', ''c2-w'')], r_Spec = MachineSetNodeSpec\<rparr>]\<rparr>)"

theorem teardown_unbinds_another_clusters_machine:
  "mem_resources (env (snd (MachineReconcile memory_ops (OmniClient memory_ops) True ''ns'' ''m1'' bound_elsewhere_world))) = []"
  by code_simp

section \<open>Reboots\<close>

text \<open>A status write that fails loses the stamp, and the next pass reboots again at once.\<close>

definition lossy_ops :: "memory ops" where
  "lossy_ops = memory_ops\<lparr>k8s_UpdateMachineStatus := (\<lambda>m e. (Inl (ApiError OtherReason ''conflict''), e))\<rparr>"

abbreviation lossy_pass :: "(memory, ctrl_result) io" where
  "lossy_pass \<equiv> MachineReconcile lossy_ops (OmniClient lossy_ops) True ''ns'' ''m1''"

theorem lost_stamp_reboots_again:
  "length (filter is_reboot (made (io_bind (io_try lossy_pass) (\<lambda>_. lossy_pass)) (machine_world sample_machine))) = 2"
  by code_simp

text \<open>The list comes from a cache. Where it lags behind the request made for \<open>m1\<close>, \<open>m2\<close> is asked too, with
  \<open>m1\<close> still in flight: locking does not help, as \<open>m2\<close> itself has not changed.\<close>

definition unasked_machine :: "string \<Rightarrow> machine" where
  "unasked_machine i = newMachine ''ns'' ''c1'' ''c1-w'' roleWorker i (sample_set 1)"

definition lagging_list_ops :: "memory ops" where
  "lagging_list_ops = memory_ops\<lparr>k8s_ListMachines := (\<lambda>ns want e.
     (Inr [unasked_machine ''m1'', unasked_machine ''m2''], e))\<rparr>"

definition asked_world :: "memory world" where
  "asked_world = world_of (empty_memory\<lparr>mem_machines :=
     [request_reboot 5 '''' (unasked_machine ''m1''), unasked_machine ''m2'']\<rparr>)"

theorem lagging_list_asks_for_a_second_reboot:
  "length (filter (\<lambda>m. rebootOwed (m_Spec m) (m_Status m)) (mem_machines (env (snd (signalDriftReboots
     lagging_list_ops False sample_cluster ''c1'' [\<lparr>mcd_MachineID = ''m2'', mcd_ManagementAddress = ''''\<rparr>] asked_world))))) = 2"
  by code_simp

text \<open>A read that lags behind the stamp of the last pass makes the next one reboot for the same request.\<close>

definition stamped_machine :: machine where
  "stamped_machine = sample_machine\<lparr>m_Status := zero_machine_status\<lparr>mst_LastRebootTime := Some 7\<rparr>\<rparr>"

definition lagging_get_ops :: "memory ops" where
  "lagging_get_ops = lossy_ops\<lparr>k8s_GetMachine := (\<lambda>ns n e. (Inr sample_machine, e))\<rparr>"

theorem lagging_get_reboots_again:
  "\<not> rebootOwed (m_Spec stamped_machine) (m_Status stamped_machine) \<and>
   length (filter is_reboot (made (MachineReconcile lagging_get_ops (OmniClient lagging_get_ops) True ''ns'' ''m1'')
     (machine_world stamped_machine))) = 1"
  by (intro conjI) code_simp+

text \<open>The cooldown is kept in the \<open>Machine\<close> object: one that is released and taken again has none.\<close>

theorem new_machine_has_cooled_down: "cooled_down (newMachine ns cn s role i spec) t"
  by (simp add: cooled_down_def newMachine_def zero_machine_status_def)

section \<open>Status and secrets\<close>

text \<open>A failure is recorded under whatever phase the status had.\<close>

theorem failure_keeps_the_phase:
  "never (\<lambda>call. \<exists>c. call = UpdateClusterStatus c \<and> ost_Phase (oc_Status c) \<noteq> ost_Phase (oc_Status cluster))
     (cluster_setFailure E R cluster before reason err)"
  unfolding cluster_setFailure_def Let_def by (intro effects; simp)

text \<open>The machines of a set in another order are another status, although the order of a list means nothing.\<close>

theorem machine_order_is_a_status_change:
  assumes "is \<noteq> js"
  shows "statusNeedsUpdate (st\<lparr>ost_AllocatedMachines := [(s, is)]\<rparr>) (st\<lparr>ost_AllocatedMachines := [(s, js)]\<rparr>)"
  using assms by (auto simp: statusNeedsUpdate_def semantic_eq_cluster_status_def gomap_eq_def)

theorem ready_in_every_phase:
  assumes "cosi_Get E ClusterStatusType cn (env w) = (Inr r, e)" "r_Spec r = ClusterStatusSpec phase True"
  shows "fst (GetClusterStatus E cn w) = Inr \<lparr>cs_Phase = phase, cs_Ready = True\<rparr>"
  using assms by (simp add: GetClusterStatus_def StateGet_def io_defs)

theorem argocd_secret_is_not_named_after_the_cluster:
  "rc_ArgoCDClusters R \<Longrightarrow> secret_name R c = c @ ''-cluster-secret'' \<and> secret_name R c \<noteq> c"
  by (simp add: secret_name_def)

end
