(* ===== verification/Spec2Isabelle.thy ===== *)
theory Spec2Isabelle
  imports Machine_Properties Machine_Convergence Omni_Properties Allocation_Properties Rollout Drift_Properties
    Protocol_Refinement Binding_System Kubeconfig_Properties Cluster_Properties Cluster_Settled Cluster_Convergence
    Machine_Admission
    Deep_Copy_Properties Startup_Properties Divergences
begin

text \<open>
  A verification development for the Omni GitOps controller.

  \<^bold>\<open>The program.\<close> Two Kubernetes controllers drive Sidero Omni. The cluster controller
  (\<open>controllers/omnicluster_controller.go\<close>) reconciles an \<open>OmniCluster\<close>: it keeps the Omni cluster and
  its machine sets, chooses machines for each set and expresses each choice as a \<open>Machine\<close> object,
  asks for a reboot when a machine's configuration drifts, writes the cluster's credentials into a
  Secret and tears everything down on deletion. The machine controller
  (\<open>controllers/machine_controller.go\<close>) reconciles a \<open>Machine\<close>: it binds the machine in Omni, applies
  its config patches and kernel arguments, performs the reboot that is owed, and releases the machine
  behind a finalizer. Both act on Omni through \<open>controllers/omni_client.go\<close>. They share no memory:
  they meet in the \<open>Machine\<close> objects, by \<open>RebootRequestedAt\<close> (written by one) and \<open>LastRebootTime\<close>
  (written by the other).

  \<^bold>\<open>The model.\<close> Everything outside the repository (API server, COSI state, Omni's RPCs, clock, third
  party helpers) is a field of the record \<open>'e ops\<close> of theory \<open>World\<close>, over an arbitrary environment
  type \<open>'e\<close>: a call takes the environment and returns an error or a value and a new environment, so any
  failure and any interference of others between two calls is possible. A computation (\<open>io\<close>) threads a
  world: environment, calls made so far, Prometheus series. Errors are values with their wrapping
  (\<open>goerror\<close>), every early return of the source is a branch, a Go panic is an error of its own. Each
  definition carries the name of the Go function it translates; where one Go function is cut into
  stages, the stages follow the source's own section comments.

    \<^item> \<open>Prelude\<close>: errors, formatting verbs, Go maps as association lists.
    \<^item> \<open>Api\<close>: \<open>api/v1alpha1\<close>, the resources and their admission rules.
    \<^item> \<open>World\<close>: parameters, calls, the computations, bounds on the calls a computation makes.
    \<^item> \<open>Machine_Client\<close>: the interface \<open>machineOmniClient\<close> as a record and a locale with its contract.
    \<^item> \<open>Omni_Client\<close>: \<open>controllers/omni_client.go\<close>; interprets the interface.
    \<^item> \<open>Metrics\<close>, \<open>Common\<close>: \<open>controllers/metrics.go\<close>, constants, events, the gated status write (a
      locale, interpreted for both statuses).
    \<^item> \<open>Machine_Controller\<close>: \<open>MachineReconciler\<close>.
    \<^item> \<open>Allocation\<close>, \<open>Drift\<close>, \<open>Teardown\<close>, \<open>Kubeconfig\<close>, \<open>Cluster_Controller\<close>:
      \<open>OmniClusterReconciler\<close>, by concern; the last composes the others into \<open>Reconcile\<close>.
    \<^item> \<open>Go_Heap\<close>, \<open>Deep_Copy\<close>: \<open>api/v1alpha1/zz_generated.deepcopy.go\<close> over an explicit heap, on which
      slices, maps and pointers are addresses; every other theory has values.
    \<^item> \<open>Startup\<close>: \<open>main.go\<close>, \<open>groupversion.go\<close>, the \<open>init\<close> of \<open>metrics.go\<close>, \<open>NewOmniClient\<close> and the two
      \<open>SetupWithManager\<close>; library values are opaque handles, the libraries the record \<open>platform\<close>.

  \<^bold>\<open>The hypotheses.\<close> Most theorems hold for every environment. Those that speak of Omni's state assume
  \<open>cosi_store\<close> of theory \<open>Store\<close>, the documented behaviour of a COSI state (reads, lists, creates,
  updates, teardown and destroy over a keyed store) with no concurrent writer, and
  \<open>omni_constructors\<close>, what the constructors of Omni's resource library set. A teardown may leave a
  resource waiting for the finalizers of Omni's own controllers; that none holds one is \<open>unheld\<close>, said of
  single resources where a pass is to get through. \<open>omni_apart\<close> of
  \<open>Cluster_Convergence\<close> says that calls on the API server, the clock and Omni's RPCs leave the COSI state as
  it is. \<open>at_rest\<close> of
  \<open>Cluster_Settled\<close> is the case in which nobody else writes and lists keep their order. \<open>Memory_Env\<close> has an
  environment in memory that satisfies them and on which the witnesses run. \<open>binding_laws J\<close> of
  \<open>Binding_Laws\<close> is the weakest about others: reads may be stale, calls may fail, and passes for the
  machines of \<open>J\<close> may act before and after every call; what it relies on is that an update writes only
  over the version it was made from, that deletion waits for finalizers, and that Omni reports a machine
  set node gone only when it is. \<open>Binding_Env\<close> satisfies it. \<open>machine_api\<close> of \<open>Protocol_Passes\<close> is about
  the \<open>Machine\<close> objects of one cluster as the API server holds them, the clock, and a log of the reboots
  Omni receives: a write may fail, a write keeps the other half of the object, an RPC may be received
  whatever it returns. \<open>Protocol_Memory\<close> satisfies it.

  \<^bold>\<open>What is shown.\<close>

    \<^item> \<open>Machine_Properties\<close>: a reboot is issued only when owed and after the machine converged, and is
      stamped after the RPC; finalizer discipline; what a teardown releases; failure recording; a
      binding is never moved.
    \<^item> \<open>Machine_Convergence\<close>: a pass that succeeds leaves Omni with exactly what the \<open>Machine\<close> asks for,
      and a pass over a settled machine changes nothing.
    \<^item> \<open>Omni_Properties\<close>: cluster ownership, machine selection, pruning of patches, the meaning of
      machine health.
    \<^item> \<open>Allocation_Properties\<close>: a successful allocation reaches the replica count; adoption prevents a
      second binding; what is picked anew was claimed by no set before; claimed machines do not starve a
      scale-up; a control plane loses at most one, unhealthy, member per pass and none while another is
      leaving; the order of eviction; no index out of range.
    \<^item> \<open>Rollout\<close>: over many passes a scale-down terminates, and only the quorum guard can hold it.
    \<^item> \<open>Drift_Properties\<close>: at most one request per pass and only a safe one.
    \<^item> \<open>Reboot_Protocol\<close>, \<open>Protocol_Passes\<close>, \<open>Protocol_Refinement\<close>: the passes of the two controllers
      refine an abstract reboot protocol, so that in every sequence of them that reads what the API server
      holds at most one reboot is owed, and the reboots Omni receives for different requests are spaced by
      the cooldown. The protocol is a specification and translates no code; its invariant is proved in
      \<open>Reboot_Protocol\<close>, the simulation of the code's passes in \<open>Protocol_Passes\<close>.
    \<^item> \<open>Binding_Passes\<close> and \<open>Binding_System\<close>: however the passes of both controllers interleave, and
      wherever one of them is killed (\<open>Crash\<close>, \<open>Binding_Crash\<close>), no machine is left bound in Omni without a
      \<open>Machine\<close> object whose finalizer will release it. The passes are shown to move along a preorder,
      call by call: locale \<open>env_preorder\<close> of \<open>Env_Preorder\<close>, and in \<open>Env_Passes\<close> one lemma per group of
      computations, with interpretations for the laws of \<open>Binding_Laws\<close> and for the calls that leave
      Omni's store alone.
    \<^item> \<open>Kubeconfig_Properties\<close>: credentials are minted only when due, the stamp written holds for the
      refresh interval, which is shorter than the life of the token asked for, and the ArgoCD Secret
      carries what the kubeconfig said.
    \<^item> \<open>Cluster_Properties\<close>: pruning, deletion, foreign ownership, the scope of a reconcile;
      \<open>Cluster_Settled\<close>: a pass over a settled cluster disturbs nothing;
      \<open>Cluster_Convergence\<close>: a pass that succeeds leaves Omni with the cluster and the sets the spec
      declares and nothing of a set that left it;
      \<open>Machine_Admission\<close>: every \<open>Machine\<close> it creates is one the machine controller accepts.
    \<^item> \<open>Deep_Copy_Properties\<close>: a deep copy reads as the original did and shares no cell with it, so no
      later write to either is seen through the other (locale \<open>deep_copy\<close>, shown of each type's copy).
    \<^item> \<open>Startup_Properties\<close>: the flags round-trip, and the manager is started only fully wired.
    \<^item> \<open>Divergences\<close>: where the code departs from its comments, its documentation or its purpose.

  The effect lemmas (collection \<open>effects\<close>, \<open>never\<close> and \<open>atmost\<close>) bound the calls of each step and compose
  along the code; the run lemmas (collection \<open>io_iff\<close>, \<open>run_\<close> names) say what a step returns.

  \<^bold>\<open>Bounds.\<close> All loops are over lists the code holds, so recursion is structural and no fuel is needed.
  Replica counts are integers: \<open>int32\<close> values only meet \<open>int\<close> arithmetic of far smaller lists.
  Durations saturate at 64 bits as in Go. Times are nanoseconds; \<open>Reboot_Protocol\<close> rounds stored ones
  to the second.

  \<^bold>\<open>Not modelled.\<close> Log lines and the set-up of the logger. The Helm chart, the manifests and the
  workflows hold no Go code. The controllers' theories treat API objects as values; that this is
  sound for copies is what \<open>Deep_Copy_Properties\<close> shows. \<open>go_quote\<close> and \<open>json_string\<close> are exact on ASCII
  text. \<open>Protocol_Refinement\<close> takes a pass as one step, of the cluster controller the drift step alone
  (what else a pass does to \<open>Machine\<close> objects is its steps \<open>sync\<close>, \<open>join\<close> and \<open>leave\<close>), and only
  passes whose reads are up to date; \<open>Divergences\<close> shows what a cache that lags behind does. \<open>Startup\<close>
  takes \<open>mgr.Start\<close> as one call that returns when the process is stopped.
\<close>

end
